theory Spec2Isabelle
  imports Main "HOL-Library.AList" "HOL-Library.Char_ord" "HOL-Library.List_Lexorder"
    "HOL-Library.Sublist"
begin

section \<open>rethinkdb-ts-migrate: the migration runner of src/migrate.ts\<close>

text \<open>
  The theory embeds \<^verbatim>\<open>src/migrate.ts\<close> (and its compiled variant
  \<^verbatim>\<open>lib/migrate.js\<close>) function by function. Everything the code reaches through a
  library is explicit:
  \<^item> the process, the configuration, the \<^verbatim>\<open>path\<close> module, the directory listing and the
    module loader are read-only inputs, collected in the record \<open>env\<close>;
  \<^item> the RethinkDB server is an association list from database names to databases, a
    database one from table names to tables, a table its rows (in storage order) and
    its secondary indexes;
  \<^item> a migration procedure is an arbitrary function on the server that returns or throws;
  \<^item> every call the code makes on the outside (a query, a \<^verbatim>\<open>require\<close>, a log line, a
    call of a migration procedure, a call of \<^verbatim>\<open>fs\<close>) is appended to a trace, so that what
    the code did and in which order can be stated;
  \<^item> the files are a disk, an association list from paths to contents; what a run does
    to them is what the \<^verbatim>\<open>fs\<close> calls on its trace do.
  JavaScript strings are modelled as \<open>string\<close>; \<^verbatim>\<open>>\<close> on two strings is the
  lexicographic order on character codes.
\<close>

subsection \<open>Data\<close>

text \<open>\<^verbatim>\<open>interface Migration {id, name, timestamp}\<close>: a row of the ledger table.\<close>

record Migration =
  m_id :: string
  m_name :: string
  m_timestamp :: string

record table =
  rows :: "Migration list"
  indexes :: "string list"

text \<open>A database: its tables by name. The server: its databases by name.\<close>

type_synonym database = "(string \<times> table) list"

type_synonym server = "(string \<times> database) list"

text \<open>
  \<^verbatim>\<open>type MigrationFn = (r: R) => void\<close>, awaited by the caller: the procedure runs on the
  server and either returns or throws; in both cases it leaves a server state behind.
\<close>

datatype fn_result = Returned server | Threw string server

type_synonym MigrationFn = "server \<Rightarrow> fn_result"

text \<open>\<^verbatim>\<open>interface MigrationFile {up, down}\<close>: what \<^verbatim>\<open>require\<close> yields for a migration file.\<close>

record MigrationFile =
  code_up :: MigrationFn
  code_down :: MigrationFn

text \<open>The object literal \<^verbatim>\<open>{name, timestamp, filename}\<close> built from a file name.\<close>

record Candidate =
  c_name :: string
  c_timestamp :: string
  c_filename :: string

text \<open>\<^verbatim>\<open>{...migration, code}\<close> as returned by \<^verbatim>\<open>getMigrationsExcept\<close>.\<close>

record LoadedUp = Candidate +
  u_code :: MigrationFile

text \<open>\<^verbatim>\<open>{...migration, filename, code}\<close> as returned by \<^verbatim>\<open>requireMigrations\<close>.\<close>

record LoadedDown = Migration +
  d_filename :: string
  d_code :: MigrationFile

text \<open>\<^verbatim>\<open>interface Params {root?, all?}\<close>.\<close>

record Params =
  p_root :: "string option"
  p_all :: "bool option"

datatype error = ReqlError string | FilesystemError string | LoadError string

text \<open>
  The calls made on the outside, in the order of the trace. The banner of the progress
  line (\<^verbatim>\<open>chalk\<close> colours and arrows) is written \<open>''up''\<close> and \<open>''down''\<close>. The source
  calls three functions that reach the file system: \<^verbatim>\<open>fs.readdir\<close> (\<open>ReadDir\<close>),
  \<^verbatim>\<open>require\<close> (\<open>Require\<close>) and \<^verbatim>\<open>fs.copyFile\<close> (\<open>CopyFile\<close>, with source and
  destination).
\<close>

datatype event =
    ConnectPool
  | DbList
  | DbCreate string
  | TableList
  | TableCreate string
  | IndexCreate string string
  | IndexWait string
  | WaitReadyForWrites string
  | OrderBy string string
  | ReadDir string
  | Require string
  | InvokeUp string
  | InvokeDown string
  | Insert string string string
  | Delete string string
  | LogInfo "string list"
  | LogError string string
  | Drain
  | CopyFile string string

text \<open>
  The inputs the code reads and never writes. \<open>dirname\<close> is \<^verbatim>\<open>__dirname\<close>, \<open>moment_now\<close> is
  \<^verbatim>\<open>moment().format('YYYYMMDDHHmmss')\<close>.
\<close>

record env =
  process_cwd :: string
  nconf_db :: string
  path_join :: "string list \<Rightarrow> string"
  fs_readdir :: "string \<Rightarrow> string list option"
  require_file :: "string \<Rightarrow> MigrationFile option"
  dirname :: string
  moment_now :: string

text \<open>What one invocation changes: the server, the connection pool, the trace.\<close>

record world =
  srv :: server
  pool :: bool
  trace :: "event list"

text \<open>The files: their contents by path.\<close>

type_synonym disk = "(string \<times> string) list"

text \<open>The settled promise of an \<^verbatim>\<open>async\<close> function that returns nothing.\<close>

datatype run = Resolved world | Rejected error world

text \<open>
  How a call of \<^verbatim>\<open>up\<close> or \<^verbatim>\<open>down\<close> ends: at the \<^verbatim>\<open>return\<close> after
  \<^verbatim>\<open>logInfo('No new migrations')\<close>, at the \<^verbatim>\<open>return\<close> of the \<^verbatim>\<open>catch\<close> block, at the end of
  the body, or with an exception that leaves the function (the promise rejects). In the
  first three cases the promise resolves.
\<close>

datatype exit =
    ExitNoNew world
  | ExitHalted world
  | ExitDone world
  | ExitRejected error world

text \<open>How the \<^verbatim>\<open>for\<close> loop of \<^verbatim>\<open>up\<close> or \<^verbatim>\<open>down\<close> ends.\<close>

datatype loop_end = Completed world | Halted world | Broken error world

definition MIGRATION_TABLE_NAME :: string where
  "MIGRATION_TABLE_NAME = ''_migrations''"

definition emit :: "event \<Rightarrow> world \<Rightarrow> world" where
  "emit e w = w\<lparr>trace := trace w @ [e]\<rparr>"

subsection \<open>String primitives of JavaScript\<close>

definition indexOf :: "string \<Rightarrow> char \<Rightarrow> int" where
  "indexOf s c = (if c \<in> set s then int (length (takeWhile (\<lambda>x. x \<noteq> c) s)) else - 1)"

definition lastIndexOf :: "string \<Rightarrow> char \<Rightarrow> int" where
  "lastIndexOf s c =
     (if c \<in> set s then int (length s) - 1 - int (length (takeWhile (\<lambda>x. x \<noteq> c) (rev s)))
      else - 1)"

text \<open>\<^verbatim>\<open>substring\<close> clamps both indices to the string and swaps them when out of order.\<close>

definition substring :: "string \<Rightarrow> int \<Rightarrow> int \<Rightarrow> string" where
  "substring s a b =
     (let n = int (length s);
          a' = max 0 (min a n);
          b' = max 0 (min b n);
          lo = min a' b';
          hi = max a' b'
      in take (nat (hi - lo)) (drop (nat lo) s))"

text \<open>\<^verbatim>\<open>slice(0, n)\<close>: a negative end counts from the end of the array.\<close>

definition slice0 :: "'a list \<Rightarrow> int \<Rightarrow> 'a list" where
  "slice0 xs n = (if n < 0 then take (length xs - nat (- n)) xs else take (nat n) xs)"

definition is_digit :: "char \<Rightarrow> bool" where
  "is_digit c = (c \<in> set ''0123456789'')"

text \<open>The characters the regular expression's \<^verbatim>\<open>.\<close> refuses (of those a \<open>char\<close> can be).\<close>

definition is_line_terminator :: "char \<Rightarrow> bool" where
  "is_line_terminator c = (c = CHR 0x0A \<or> c = CHR 0x0D)"

text \<open>
  \<^verbatim>\<open>file.match(rxMigrationFile)\<close> with
  \<^verbatim>\<open>rxMigrationFile = /^\d{14}-.*\.(js|ts)$/\<close>: fourteen digits, a dash, any run of
  characters other than line terminators, and \<^verbatim>\<open>.js\<close> or \<^verbatim>\<open>.ts\<close> at the very end.
\<close>

definition rxMigrationFile :: "string \<Rightarrow> bool" where
  "rxMigrationFile file =
     (let digits = take 14 file;
          rest = drop 15 file;
          k = length rest - 3
      in length digits = 14 \<and> list_all is_digit digits
         \<and> take 1 (drop 14 file) = ''-''
         \<and> 3 \<le> length rest
         \<and> list_all (\<lambda>c. \<not> is_line_terminator c) (take k rest)
         \<and> (drop k rest = ''.js'' \<or> drop k rest = ''.ts''))"

subsection \<open>The queries the code runs\<close>

text \<open>
  Each query runs on the pool's default database \<open>db\<close> (\<^verbatim>\<open>config.db\<close>) and fails with a
  \<open>ReqlError\<close> where RethinkDB does: a missing database, table or index, or one that is
  there already.
\<close>

definition dbList :: "server \<Rightarrow> string list" where
  "dbList s = map fst s"

definition dbCreate :: "string \<Rightarrow> server \<Rightarrow> error + server" where
  "dbCreate db s =
     (if db \<in> set (dbList s) then Inl (ReqlError ''Database already exists'')
      else Inr (s @ [(db, [])]))"

definition tableList :: "string \<Rightarrow> server \<Rightarrow> error + string list" where
  "tableList db s =
     (case map_of s db of None \<Rightarrow> Inl (ReqlError ''Database does not exist'')
      | Some d \<Rightarrow> Inr (map fst d))"

definition tableCreate :: "string \<Rightarrow> string \<Rightarrow> server \<Rightarrow> error + server" where
  "tableCreate db t s =
     (case map_of s db of None \<Rightarrow> Inl (ReqlError ''Database does not exist'')
      | Some d \<Rightarrow>
          if t \<in> set (map fst d) then Inl (ReqlError ''Table already exists'')
          else Inr (AList.update db (d @ [(t, \<lparr>rows = [], indexes = []\<rparr>)]) s))"

definition get_table :: "string \<Rightarrow> string \<Rightarrow> server \<Rightarrow> error + table" where
  "get_table db t s =
     (case map_of s db of None \<Rightarrow> Inl (ReqlError ''Database does not exist'')
      | Some d \<Rightarrow>
          (case map_of d t of None \<Rightarrow> Inl (ReqlError ''Table does not exist'')
           | Some tb \<Rightarrow> Inr tb))"

definition put_table :: "string \<Rightarrow> string \<Rightarrow> table \<Rightarrow> server \<Rightarrow> server" where
  "put_table db t tb s =
     (case map_of s db of None \<Rightarrow> s
      | Some d \<Rightarrow> AList.update db (AList.update t tb d) s)"

definition indexCreate :: "string \<Rightarrow> string \<Rightarrow> string \<Rightarrow> server \<Rightarrow> error + server" where
  "indexCreate db t ix s =
     (case get_table db t s of Inl e \<Rightarrow> Inl e
      | Inr tb \<Rightarrow>
          if ix \<in> set (indexes tb) then Inl (ReqlError ''Index already exists'')
          else Inr (put_table db t (tb\<lparr>indexes := indexes tb @ [ix]\<rparr>) s))"

definition indexWait :: "string \<Rightarrow> string \<Rightarrow> server \<Rightarrow> error + server" where
  "indexWait db t s = (case get_table db t s of Inl e \<Rightarrow> Inl e | Inr tb \<Rightarrow> Inr s)"

definition wait_ready :: "string \<Rightarrow> server \<Rightarrow> error + server" where
  "wait_ready db s =
     (case map_of s db of None \<Rightarrow> Inl (ReqlError ''Database does not exist'')
      | Some d \<Rightarrow> Inr s)"

text \<open>
  \<^verbatim>\<open>orderBy({index: 'timestamp'})\<close>: the rows in ascending order of the indexed field.
  Rows with equal timestamps are given in storage order; the server documents no order
  for them, and the theorems below use only that the result is sorted and holds the
  rows of the table.
\<close>

definition orderBy_timestamp :: "string \<Rightarrow> string \<Rightarrow> server \<Rightarrow> error + Migration list" where
  "orderBy_timestamp db t s =
     (case get_table db t s of Inl e \<Rightarrow> Inl e
      | Inr tb \<Rightarrow>
          if ''timestamp'' \<in> set (indexes tb) then Inr (sort_key m_timestamp (rows tb))
          else Inl (ReqlError ''Index does not exist''))"

text \<open>
  The primary key the server generates for a document inserted without one. RethinkDB
  draws a UUID; all that is used of it is that no row of the table has it, which a
  string longer than every key in use provides.
\<close>

definition fresh_id :: "Migration list \<Rightarrow> string" where
  "fresh_id rs = replicate (Suc (foldr max (map (\<lambda>r. length (m_id r)) rs) 0)) (CHR ''u'')"

definition insert_row :: "string \<Rightarrow> string \<Rightarrow> string \<Rightarrow> string \<Rightarrow> server \<Rightarrow> error + server" where
  "insert_row db t nm ts s =
     (case get_table db t s of Inl e \<Rightarrow> Inl e
      | Inr tb \<Rightarrow>
          Inr (put_table db t
                (tb\<lparr>rows := rows tb @ [\<lparr>m_id = fresh_id (rows tb), m_name = nm, m_timestamp = ts\<rparr>]\<rparr>) s))"

text \<open>\<^verbatim>\<open>get(id).delete()\<close>: removes the row with that primary key, if there is one.\<close>

definition delete_row :: "string \<Rightarrow> string \<Rightarrow> string \<Rightarrow> server \<Rightarrow> error + server" where
  "delete_row db t k s =
     (case get_table db t s of Inl e \<Rightarrow> Inl e
      | Inr tb \<Rightarrow> Inr (put_table db t (tb\<lparr>rows := filter (\<lambda>r. m_id r \<noteq> k) (rows tb)\<rparr>) s))"

subsection \<open>Running queries in the world\<close>

text \<open>A write or wait query: logged in the trace, then run on the server.\<close>

definition query :: "event \<Rightarrow> (server \<Rightarrow> error + server) \<Rightarrow> world \<Rightarrow> run" where
  "query ev f w =
     (let w' = emit ev w
      in case f (srv w') of Inl e \<Rightarrow> Rejected e w' | Inr s \<Rightarrow> Resolved (w'\<lparr>srv := s\<rparr>))"

text \<open>\<^verbatim>\<open>await\<close> in sequence: a rejection skips what follows.\<close>

fun then_do :: "run \<Rightarrow> (world \<Rightarrow> run) \<Rightarrow> run" where
  "then_do (Resolved w) f = f w"
| "then_do (Rejected e w) f = Rejected e w"

definition logInfo :: "string list \<Rightarrow> world \<Rightarrow> world" where
  "logInfo args w = emit (LogInfo args) w"

definition logError :: "string \<Rightarrow> string \<Rightarrow> world \<Rightarrow> world" where
  "logError txt e w = emit (LogError txt e) w"

text \<open>\<^verbatim>\<open>r.getPoolMaster()?.drain()\<close>.\<close>

definition drain :: "world \<Rightarrow> world" where
  "drain w = emit Drain (w\<lparr>pool := False\<rparr>)"

subsection \<open>getConfig and connectToDb\<close>

text \<open>
  Of the configuration only \<^verbatim>\<open>db\<close> decides what the code does; the other fields are
  handed to \<^verbatim>\<open>connectPool\<close>, which is taken to reach the server.
\<close>

definition getConfig :: "env \<Rightarrow> string \<Rightarrow> string" where
  "getConfig env root = nconf_db env"

definition connectToDb :: "string \<Rightarrow> world \<Rightarrow> run" where
  "connectToDb db w0 =
     (let w1 = emit ConnectPool (w0\<lparr>pool := True\<rparr>);
          w2 = emit DbList w1;
          dbs = dbList (srv w2)
      in then_do (if db \<notin> set dbs then query (DbCreate db) (dbCreate db) w2 else Resolved w2)
          (\<lambda>w3.
            let w4 = emit TableList w3
            in case tableList db (srv w4) of
                 Inl e \<Rightarrow> Rejected e w4
               | Inr tables \<Rightarrow>
                   then_do
                     (if MIGRATION_TABLE_NAME \<notin> set tables
                      then then_do
                             (query (TableCreate MIGRATION_TABLE_NAME)
                                (tableCreate db MIGRATION_TABLE_NAME) w4)
                             (\<lambda>w5. then_do
                                (query (IndexCreate MIGRATION_TABLE_NAME ''timestamp'')
                                   (indexCreate db MIGRATION_TABLE_NAME ''timestamp'') w5)
                                (\<lambda>w6. query (IndexWait MIGRATION_TABLE_NAME)
                                   (indexWait db MIGRATION_TABLE_NAME) w6))
                      else Resolved w4)
                     (\<lambda>w7. query (WaitReadyForWrites db) (wait_ready db) w7)))"

subsection \<open>getMigrationsExcept\<close>

text \<open>The object built from a file name in the \<^verbatim>\<open>map\<close> of \<^verbatim>\<open>getMigrationsExcept\<close>.\<close>

definition parse_filename :: "string \<Rightarrow> Candidate" where
  "parse_filename filename =
     (let tsix = indexOf filename (CHR ''-'')
      in \<lparr>c_name = substring filename (tsix + 1) (lastIndexOf filename (CHR ''.'')),
          c_timestamp = substring filename 0 tsix,
          c_filename = filename\<rparr>)"

text \<open>
  \<^verbatim>\<open>migrationsToApply.map((migration) => require(path.join(dir, migration.filename)))\<close>:
  the files are loaded in order, and the first one that fails to load throws.
\<close>

fun require_codes ::
  "env \<Rightarrow> string \<Rightarrow> Candidate list \<Rightarrow> world \<Rightarrow> (error \<times> world) + (MigrationFile list \<times> world)" where
  "require_codes env dir [] w = Inr ([], w)"
| "require_codes env dir (migration # rest) w =
     (let filepath = path_join env [dir, c_filename migration];
          w1 = emit (Require filepath) w
      in case require_file env filepath of
           None \<Rightarrow> Inl (LoadError filepath, w1)
         | Some code \<Rightarrow>
             (case require_codes env dir rest w1 of
                Inl x \<Rightarrow> Inl x
              | Inr (codes, w2) \<Rightarrow> Inr (code # codes, w2)))"

definition with_code :: "Candidate \<Rightarrow> MigrationFile \<Rightarrow> LoadedUp" where
  "with_code migration code =
     \<lparr>c_name = c_name migration, c_timestamp = c_timestamp migration,
      c_filename = c_filename migration, u_code = code\<rparr>"

text \<open>
  The candidates that pass the two filters and the truncation, before they are loaded:
  \<^verbatim>\<open>migrationsToApply\<close>.
\<close>

definition migrationsToApply :: "Migration option \<Rightarrow> int \<Rightarrow> string list \<Rightarrow> Candidate list" where
  "migrationsToApply completedMigration numToApply files =
     (let migrationFiles = filter rxMigrationFile files;
          migrations =
            filter
              (\<lambda>migration. case completedMigration of
                   Some c \<Rightarrow> c_timestamp migration > m_timestamp c
                 | None \<Rightarrow> True)
              (map parse_filename migrationFiles)
      in if numToApply \<noteq> - 1 then slice0 migrations numToApply else migrations)"

definition getMigrationsExcept ::
  "env \<Rightarrow> Migration option \<Rightarrow> string \<Rightarrow> int \<Rightarrow> world \<Rightarrow> (error \<times> world) + (LoadedUp list \<times> world)" where
  "getMigrationsExcept env completedMigration root numToApply w =
     (let dir = path_join env [root, ''migrations''];
          w1 = emit (ReadDir dir) w
      in case fs_readdir env dir of
           None \<Rightarrow> Inl (FilesystemError dir, w1)
         | Some files \<Rightarrow>
             (let toApply = migrationsToApply completedMigration numToApply files
              in case require_codes env dir toApply w1 of
                   Inl x \<Rightarrow> Inl x
                 | Inr (codes, w2) \<Rightarrow> Inr (map2 with_code toApply codes, w2)))"

subsection \<open>requireMigrations\<close>

fun requireMigrations ::
  "env \<Rightarrow> Migration list \<Rightarrow> string \<Rightarrow> world \<Rightarrow> (error \<times> world) + (LoadedDown list \<times> world)" where
  "requireMigrations env [] root w = Inr ([], w)"
| "requireMigrations env (migration # rest) root w =
     (let filename = m_timestamp migration @ ''-'' @ m_name migration;
          filepath = path_join env [root, ''migrations'', filename];
          w1 = emit (Require filepath) w
      in case require_file env filepath of
           None \<Rightarrow> Inl (LoadError filepath, w1)
         | Some code \<Rightarrow>
             (case requireMigrations env rest root w1 of
                Inl x \<Rightarrow> Inl x
              | Inr (ms, w2) \<Rightarrow>
                  Inr (\<lparr>m_id = m_id migration, m_name = m_name migration,
                        m_timestamp = m_timestamp migration,
                        d_filename = filename, d_code = code\<rparr> # ms, w2)))"

subsection \<open>up\<close>

text \<open>The \<^verbatim>\<open>for\<close> loop of \<^verbatim>\<open>up\<close>, one iteration per planned migration.\<close>

fun up_loop :: "string \<Rightarrow> LoadedUp list \<Rightarrow> world \<Rightarrow> loop_end" where
  "up_loop db [] w = Completed w"
| "up_loop db (migration # rest) w =
     (let w1 = logInfo [''up'', c_timestamp migration, c_name migration] w;
          w2 = emit (InvokeUp (c_filename migration)) w1
      in case code_up (u_code migration) (srv w2) of
           Threw e s \<Rightarrow>
             Halted (logError (''Migration failed: '' @ c_name migration) e (w2\<lparr>srv := s\<rparr>))
         | Returned s \<Rightarrow>
             (case query (Insert MIGRATION_TABLE_NAME (c_name migration) (c_timestamp migration))
                     (insert_row db MIGRATION_TABLE_NAME (c_name migration)
                        (c_timestamp migration))
                     (w2\<lparr>srv := s\<rparr>) of
                Rejected err w3 \<Rightarrow> Broken err w3
              | Resolved w3 \<Rightarrow> up_loop db rest w3))"

text \<open>\<^verbatim>\<open>root || process.cwd()\<close>: a missing and an empty root both give the working directory.\<close>

definition rootDir_of :: "env \<Rightarrow> Params \<Rightarrow> string" where
  "rootDir_of env params =
     (case p_root params of
        None \<Rightarrow> process_cwd env
      | Some root \<Rightarrow> if root = [] then process_cwd env else root)"

text \<open>\<^verbatim>\<open>completedMigrations[completedMigrations.length - 1]\<close>, \<^verbatim>\<open>undefined\<close> on the empty array.\<close>

definition latest_of :: "Migration list \<Rightarrow> Migration option" where
  "latest_of completedMigrations =
     (if completedMigrations = [] then None else Some (last completedMigrations))"

text \<open>\<^verbatim>\<open>up\<close> of \<^verbatim>\<open>src/migrate.ts\<close>.\<close>

definition up :: "env \<Rightarrow> Params \<Rightarrow> world \<Rightarrow> exit" where
  "up env params w0 =
     (let rootDir = rootDir_of env params;
          db = getConfig env rootDir
      in case connectToDb db w0 of
           Rejected e w1 \<Rightarrow> ExitRejected e w1
         | Resolved w1 \<Rightarrow>
             (let w2 = emit (OrderBy MIGRATION_TABLE_NAME ''timestamp'') w1
              in case orderBy_timestamp db MIGRATION_TABLE_NAME (srv w2) of
                   Inl e \<Rightarrow> ExitRejected e w2
                 | Inr completedMigrations \<Rightarrow>
                     (let latest = latest_of completedMigrations;
                          numToApply = (if p_all params = Some True then - 1 else 1)
                      in case getMigrationsExcept env latest rootDir numToApply w2 of
                           Inl (e, w3) \<Rightarrow> ExitRejected e w3
                         | Inr (migrations, w3) \<Rightarrow>
                             if length migrations < 1
                             then ExitNoNew (logInfo [''No new migrations''] w3)
                             else (case up_loop db migrations w3 of
                                     Halted w4 \<Rightarrow> ExitHalted w4
                                   | Broken e w4 \<Rightarrow> ExitRejected e w4
                                   | Completed w4 \<Rightarrow>
                                       ExitDone (logInfo [''Migration Successful''] w4)))))"

subsection \<open>down\<close>

fun down_loop :: "string \<Rightarrow> LoadedDown list \<Rightarrow> world \<Rightarrow> loop_end" where
  "down_loop db [] w = Completed w"
| "down_loop db (migration # rest) w =
     (let w1 = logInfo [''down'', m_timestamp migration, m_name migration] w;
          w2 = emit (InvokeDown (d_filename migration)) w1
      in case code_down (d_code migration) (srv w2) of
           Threw e s \<Rightarrow>
             Halted (logError (''Migration failed: '' @ m_name migration) e (w2\<lparr>srv := s\<rparr>))
         | Returned s \<Rightarrow>
             (case query (Delete MIGRATION_TABLE_NAME (m_id migration))
                     (delete_row db MIGRATION_TABLE_NAME (m_id migration))
                     (w2\<lparr>srv := s\<rparr>) of
                Rejected err w3 \<Rightarrow> Broken err w3
              | Resolved w3 \<Rightarrow> down_loop db rest w3))"

text \<open>
  The backward plan: \<^verbatim>\<open>migrationsToRollBack\<close>. \<^verbatim>\<open>down\<close> computes it only after its check that
  the ledger is not empty, so the last entry is there.
\<close>

definition migrationsToRollBack :: "bool option \<Rightarrow> Migration list \<Rightarrow> Migration list" where
  "migrationsToRollBack all completedMigrations =
     (if all = Some True then rev completedMigrations else [last completedMigrations])"

text \<open>\<^verbatim>\<open>down\<close> of \<^verbatim>\<open>src/migrate.ts\<close>.\<close>

definition down :: "env \<Rightarrow> Params \<Rightarrow> world \<Rightarrow> exit" where
  "down env params w0 =
     (let rootDir = rootDir_of env params;
          db = getConfig env rootDir
      in case connectToDb db w0 of
           Rejected e w1 \<Rightarrow> ExitRejected e w1
         | Resolved w1 \<Rightarrow>
             (let w2 = emit (OrderBy MIGRATION_TABLE_NAME ''timestamp'') w1
              in case orderBy_timestamp db MIGRATION_TABLE_NAME (srv w2) of
                   Inl e \<Rightarrow> ExitRejected e w2
                 | Inr completedMigrations \<Rightarrow>
                     if length completedMigrations = 0
                     then ExitNoNew (logInfo [''No new migrations''] w2)
                     else (case requireMigrations env
                                  (migrationsToRollBack (p_all params) completedMigrations)
                                  rootDir w2 of
                             Inl (e, w3) \<Rightarrow> ExitRejected e w3
                           | Inr (migrations, w3) \<Rightarrow>
                               (case down_loop db migrations w3 of
                                  Halted w4 \<Rightarrow> ExitHalted w4
                                | Broken e w4 \<Rightarrow> ExitRejected e w4
                                | Completed w4 \<Rightarrow>
                                    ExitDone (logInfo [''Migration successful''] w4)))))"

subsection \<open>create and the files\<close>

text \<open>
  What a call does to the files. \<^verbatim>\<open>fs.copyFile(src, dst)\<close> gives \<open>dst\<close> the content of
  \<open>src\<close>, creating or overwriting it, and fails without effect when \<open>src\<close> is missing.
  \<^verbatim>\<open>fs.readdir\<close> and \<^verbatim>\<open>require\<close> read; the other calls do not reach the file system.
\<close>

fun fs_effect :: "event \<Rightarrow> disk \<Rightarrow> disk" where
  "fs_effect (CopyFile src dst) d =
     (case map_of d src of None \<Rightarrow> d | Some content \<Rightarrow> AList.update dst content d)"
| "fs_effect e d = d"

text \<open>The calls that write to the file system.\<close>

fun writes_file :: "event \<Rightarrow> bool" where
  "writes_file (CopyFile src dst) = True"
| "writes_file e = False"

text \<open>The disk after the calls of a trace, made in order on the disk \<open>d\<close>.\<close>

definition disk_after :: "disk \<Rightarrow> event list \<Rightarrow> disk" where
  "disk_after d evs = fold fs_effect evs d"

text \<open>
  The files of a world whose trace began on the disk \<open>d\<close>.
\<close>

definition disk_of :: "disk \<Rightarrow> world \<Rightarrow> disk" where
  "disk_of d w = disk_after d (trace w)"

text \<open>
  \<^verbatim>\<open>create\<close> of \<^verbatim>\<open>src/migrate.ts\<close>, the one function of the source that writes a file: it
  copies the template into the migrations directory. \<open>d\<close> is the disk on which it runs;
  the copy is rejected when the template is not there (a destination that cannot be
  written is not modelled).
\<close>

definition create :: "env \<Rightarrow> string \<Rightarrow> string \<Rightarrow> disk \<Rightarrow> world \<Rightarrow> (error \<times> world) + (string \<times> world)" where
  "create env name root d w =
     (let rootDir = path_join env [if root = [] then process_cwd env else root, ''migrations''];
          templatepath = path_join env [dirname env, ''../template.ts''];
          filename = moment_now env @ ''-'' @ name @ ''.ts'';
          filepath = path_join env [rootDir, filename];
          w1 = emit (CopyFile templatepath filepath) w
      in case map_of d templatepath of
           None \<Rightarrow> Inl (FilesystemError templatepath, w1)
         | Some content \<Rightarrow> Inr (filepath, w1))"

subsection \<open>The module loader\<close>

text \<open>
  \<^verbatim>\<open>require(path)\<close> is Node's loader, after \<^verbatim>\<open>require('sucrase/register')\<close> (line 8 of
  \<^verbatim>\<open>src/migrate.ts\<close>). Given an absolute path \<^verbatim>\<open>X\<close> it proceeds as Node documents under
  \<^verbatim>\<open>LOAD_AS_FILE\<close>: if \<^verbatim>\<open>X\<close> is a file, it loads \<^verbatim>\<open>X\<close>; otherwise it tries \<^verbatim>\<open>X\<close> with each
  registered extension appended, in the order of registration. \<^verbatim>\<open>.js\<close>, \<^verbatim>\<open>.json\<close> and
  \<^verbatim>\<open>.node\<close> are Node's own; \<^verbatim>\<open>.jsx\<close>, \<^verbatim>\<open>.ts\<close> and \<^verbatim>\<open>.tsx\<close> are added by
  \<^verbatim>\<open>sucrase/register\<close>, which is what lets the code load a \<^verbatim>\<open>.ts\<close> file at all.
  \<open>modules\<close> gives, for the path of each file that is there, what loading it exports.
  Not modelled: a directory of that name (tried last), and a file that is there but does
  not compile.
\<close>

definition node_extensions :: "string list" where
  "node_extensions = [''.js'', ''.json'', ''.node'', ''.jsx'', ''.ts'', ''.tsx'']"

definition node_resolve :: "(string \<Rightarrow> MigrationFile option) \<Rightarrow> string \<Rightarrow> string option" where
  "node_resolve modules p =
     find (\<lambda>q. modules q \<noteq> None) (p # map (\<lambda>ext. p @ ext) node_extensions)"

definition node_require :: "(string \<Rightarrow> MigrationFile option) \<Rightarrow> string \<Rightarrow> MigrationFile option" where
  "node_require modules p =
     (case node_resolve modules p of None \<Rightarrow> None | Some q \<Rightarrow> modules q)"

subsection \<open>The compiled variant lib/migrate.js\<close>

text \<open>
  \<^verbatim>\<open>lib/migrate.js\<close> is the same code with one more statement at the end of the bodies of
  \<^verbatim>\<open>up\<close> and \<^verbatim>\<open>down\<close>: \<^verbatim>\<open>await r.getPoolMaster()?.drain()\<close>. The two early returns are
  as in \<^verbatim>\<open>src/migrate.ts\<close>.
\<close>

definition up_lib :: "env \<Rightarrow> Params \<Rightarrow> world \<Rightarrow> exit" where
  "up_lib env params w0 =
     (case up env params w0 of
        ExitDone w \<Rightarrow> ExitDone (drain w)
      | ExitNoNew w \<Rightarrow> ExitNoNew w
      | ExitHalted w \<Rightarrow> ExitHalted w
      | ExitRejected e w \<Rightarrow> ExitRejected e w)"

definition down_lib :: "env \<Rightarrow> Params \<Rightarrow> world \<Rightarrow> exit" where
  "down_lib env params w0 =
     (case down env params w0 of
        ExitDone w \<Rightarrow> ExitDone (drain w)
      | ExitNoNew w \<Rightarrow> ExitNoNew w
      | ExitHalted w \<Rightarrow> ExitHalted w
      | ExitRejected e w \<Rightarrow> ExitRejected e w)"

subsection \<open>Reading a result\<close>

text \<open>The world in which a call ended, however it ended.\<close>

fun exit_world :: "exit \<Rightarrow> world" where
  "exit_world (ExitNoNew w) = w"
| "exit_world (ExitHalted w) = w"
| "exit_world (ExitDone w) = w"
| "exit_world (ExitRejected e w) = w"

fun loop_world :: "loop_end \<Rightarrow> world" where
  "loop_world (Completed w) = w"
| "loop_world (Halted w) = w"
| "loop_world (Broken e w) = w"

fun load_world :: "(error \<times> world) + ('a \<times> world) \<Rightarrow> world" where
  "load_world (Inl (e, w)) = w"
| "load_world (Inr (x, w)) = w"

text \<open>
  \<open>extends P w w'\<close>: the trace of \<open>w'\<close> is the trace of \<open>w\<close> followed by events that all
  satisfy \<open>P\<close>.
\<close>

definition extends :: "(event \<Rightarrow> bool) \<Rightarrow> world \<Rightarrow> world \<Rightarrow> bool" where
  "extends P w w' = (\<exists>evs. trace w' = trace w @ evs \<and> list_all P evs)"

text \<open>The reads and writes of the ledger table.\<close>

fun is_ledger_op :: "event \<Rightarrow> bool" where
  "is_ledger_op (OrderBy t ix) = True"
| "is_ledger_op (Insert t nm ts) = True"
| "is_ledger_op (Delete t k) = True"
| "is_ledger_op e = False"

text \<open>The events one iteration of the loop of \<^verbatim>\<open>up\<close> can add for a migration of the batch.\<close>

fun up_event_of :: "LoadedUp list \<Rightarrow> event \<Rightarrow> bool" where
  "up_event_of ms (LogInfo args) = (\<exists>m\<in>set ms. args = [''up'', c_timestamp m, c_name m])"
| "up_event_of ms (InvokeUp f) = (\<exists>m\<in>set ms. f = c_filename m)"
| "up_event_of ms (Insert t nm ts) =
     (t = MIGRATION_TABLE_NAME \<and> (\<exists>m\<in>set ms. nm = c_name m \<and> ts = c_timestamp m))"
| "up_event_of ms (LogError txt e) = (\<exists>m\<in>set ms. txt = ''Migration failed: '' @ c_name m)"
| "up_event_of ms e = False"

fun down_event_of :: "LoadedDown list \<Rightarrow> event \<Rightarrow> bool" where
  "down_event_of ms (LogInfo args) = (\<exists>m\<in>set ms. args = [''down'', m_timestamp m, m_name m])"
| "down_event_of ms (InvokeDown f) = (\<exists>m\<in>set ms. f = d_filename m)"
| "down_event_of ms (Delete t k) = (t = MIGRATION_TABLE_NAME \<and> (\<exists>m\<in>set ms. k = m_id m))"
| "down_event_of ms (LogError txt e) = (\<exists>m\<in>set ms. txt = ''Migration failed: '' @ m_name m)"
| "down_event_of ms e = False"

text \<open>The entries of the ledger: the rows of the table, none when there is no table.\<close>

definition ledger :: "string \<Rightarrow> server \<Rightarrow> Migration list" where
  "ledger db s = (case get_table db MIGRATION_TABLE_NAME s of Inl e \<Rightarrow> [] | Inr tb \<Rightarrow> rows tb)"

text \<open>
  A migration procedure keeps the ledger when, on returning, it leaves the ledger table
  of database \<open>db\<close> as it found it.
\<close>

definition keeps_ledger :: "string \<Rightarrow> MigrationFn \<Rightarrow> bool" where
  "keeps_ledger db f =
     (\<forall>s s'. f s = Returned s' \<longrightarrow>
        get_table db MIGRATION_TABLE_NAME s' = get_table db MIGRATION_TABLE_NAME s)"

subsection \<open>A concrete installation\<close>

text \<open>
  The inputs at which the theorems below are evaluated. \<open>posix_join\<close> is \<^verbatim>\<open>path.join\<close> on
  segments that are not empty and hold no \<^verbatim>\<open>.\<close>, \<^verbatim>\<open>..\<close> or separator to normalise:
  there it joins them with \<^verbatim>\<open>/\<close>.
\<close>

fun posix_join :: "string list \<Rightarrow> string" where
  "posix_join [] = ''.''"
| "posix_join [x] = x"
| "posix_join (x # y # ys) = x @ ''/'' @ posix_join (y # ys)"

text \<open>A migration file whose procedures change nothing, and one whose procedures throw.\<close>

definition noop :: MigrationFile where
  "noop = \<lparr>code_up = Returned, code_down = Returned\<rparr>"

definition failing :: MigrationFile where
  "failing = \<lparr>code_up = Threw ''boom'', code_down = Threw ''boom''\<rparr>"

text \<open>
  A project at \<^verbatim>\<open>/app\<close> with the database \<^verbatim>\<open>test\<close>: \<open>files\<close> is what \<^verbatim>\<open>readdir\<close> gives
  for \<^verbatim>\<open>/app/migrations\<close>, \<open>loader\<close> what \<^verbatim>\<open>require\<close> gives for a path.
\<close>

definition demo_env :: "string list \<Rightarrow> (string \<Rightarrow> MigrationFile option) \<Rightarrow> env" where
  "demo_env files loader =
     \<lparr>process_cwd = ''/app'', nconf_db = ''test'', path_join = posix_join,
      fs_readdir = (\<lambda>d. if d = ''/app/migrations'' then Some files else None),
      require_file = loader, dirname = ''/opt/rethinkdb-ts-migrate/lib'',
      moment_now = ''20230105000000''\<rparr>"

definition always_noop :: "string \<Rightarrow> MigrationFile option" where
  "always_noop p = Some noop"

text \<open>A loader for which the file of migration \<^verbatim>\<open>b\<close> throws and every other file does nothing.\<close>

definition b_fails :: "string \<Rightarrow> MigrationFile option" where
  "b_fails p =
     (if p = ''/app/migrations/20230102000000-b.ts'' \<or> p = ''/app/migrations/20230102000000-b''
      then Some failing else Some noop)"

text \<open>
  What loading a file that exports no procedures gives (a \<^verbatim>\<open>.json\<close> file, say): calling
  \<^verbatim>\<open>code.up\<close> or \<^verbatim>\<open>code.down\<close> throws a \<^verbatim>\<open>TypeError\<close>.
\<close>

definition no_procedures :: MigrationFile where
  "no_procedures =
     \<lparr>code_up = Threw ''TypeError: migration.code.up is not a function'',
      code_down = Threw ''TypeError: migration.code.down is not a function''\<rparr>"

text \<open>A migrations directory that holds the one file \<^verbatim>\<open>20230101000000-init.ts\<close>.\<close>

definition init_ts :: "string \<Rightarrow> MigrationFile option" where
  "init_ts p = (if p = ''/app/migrations/20230101000000-init.ts'' then Some noop else None)"

text \<open>The same directory with a data file \<^verbatim>\<open>20230101000000-init.json\<close> beside the migration.\<close>

definition init_ts_and_json :: "string \<Rightarrow> MigrationFile option" where
  "init_ts_and_json p =
     (if p = ''/app/migrations/20230101000000-init.ts'' then Some noop
      else if p = ''/app/migrations/20230101000000-init.json'' then Some no_procedures
      else None)"

text \<open>The three files of the examples, as a sorted listing.\<close>

definition files_abc :: "string list" where
  "files_abc = [''20230101000000-a.ts'', ''20230102000000-b.ts'', ''20230103000000-c.ts'']"

text \<open>A server on which the three migrations have been applied.\<close>

definition w_applied :: world where
  "w_applied =
     \<lparr>srv = [(''test'', [(''_migrations'',
         \<lparr>rows = [\<lparr>m_id = ''u'', m_name = ''a'', m_timestamp = ''20230101000000''\<rparr>,
                   \<lparr>m_id = ''uu'', m_name = ''b'', m_timestamp = ''20230102000000''\<rparr>,
                   \<lparr>m_id = ''uuu'', m_name = ''c'', m_timestamp = ''20230103000000''\<rparr>],
          indexes = [''timestamp'']\<rparr>)])],
      pool = False, trace = []\<rparr>"

text \<open>A server whose ledger table exists without its index, and one with the database only.\<close>

definition w_noindex :: world where
  "w_noindex =
     \<lparr>srv = [(''test'', [(''_migrations'', \<lparr>rows = [], indexes = []\<rparr>)])],
      pool = False, trace = []\<rparr>"

definition w_notable :: world where
  "w_notable = \<lparr>srv = [(''test'', [])], pool = False, trace = []\<rparr>"

text \<open>A server with no database, no pool and an empty trace.\<close>

definition w_fresh :: world where
  "w_fresh = \<lparr>srv = [], pool = False, trace = []\<rparr>"

section \<open>Properties\<close>

subsection \<open>File names\<close>

lemma split_at_nth: "n < length s \<Longrightarrow> s = take n s @ s ! n # drop (Suc n) s"
  by (simp add: id_take_nth_drop)

lemma takeWhile_upto:
  "c \<notin> set xs \<Longrightarrow> takeWhile (\<lambda>x. x \<noteq> c) (xs @ c # ys) = xs"
  by (induction xs) auto

lemma indexOf_at:
  assumes a: "c \<notin> set (take n s)" and b: "n < length s" and d: "s ! n = c"
  shows "indexOf s c = int n"
proof -
  have s: "s = take n s @ c # drop (Suc n) s"
    using split_at_nth [OF b] d by simp
  have "takeWhile (\<lambda>x. x \<noteq> c) (take n s @ c # drop (Suc n) s) = take n s"
    using a by (rule takeWhile_upto)
  then have "takeWhile (\<lambda>x. x \<noteq> c) s = take n s"
    using s by simp
  moreover have "c \<in> set s" using b d by auto
  ultimately show ?thesis using b by (simp add: indexOf_def)
qed

lemma lastIndexOf_at:
  assumes a: "c \<notin> set (drop (Suc n) s)" and b: "n < length s" and d: "s ! n = c"
  shows "lastIndexOf s c = int n"
proof -
  have s: "s = take n s @ c # drop (Suc n) s"
    using split_at_nth [OF b] d by simp
  have "rev (take n s @ c # drop (Suc n) s) = rev (drop (Suc n) s) @ c # rev (take n s)"
    by simp
  then have r: "rev s = rev (drop (Suc n) s) @ c # rev (take n s)"
    using s by simp
  have "takeWhile (\<lambda>x. x \<noteq> c) (rev (drop (Suc n) s) @ c # rev (take n s)) = rev (drop (Suc n) s)"
    using a by (intro takeWhile_upto) simp
  then have "takeWhile (\<lambda>x. x \<noteq> c) (rev s) = rev (drop (Suc n) s)"
    using r by simp
  moreover have "c \<in> set s" using b d by auto
  ultimately show ?thesis using b by (simp add: lastIndexOf_def)
qed

lemma substring_nat:
  "a \<le> b \<Longrightarrow> b \<le> length s \<Longrightarrow> substring s (int a) (int b) = take (b - a) (drop a s)"
  by (simp add: substring_def Let_def nat_diff_distrib')

lemma rx_shape:
  assumes "rxMigrationFile f"
  shows "18 \<le> length f" and "list_all is_digit (take 14 f)" and "f ! 14 = CHR ''-''"
    and "list_all (\<lambda>c. \<not> is_line_terminator c) (take (length f - 18) (drop 15 f))"
    and "drop (length f - 3) f = ''.js'' \<or> drop (length f - 3) f = ''.ts''"
proof -
  from assms have dg: "list_all is_digit (take 14 f)"
    and dash: "take 1 (drop 14 f) = ''-''" and l3: "3 \<le> length (drop 15 f)"
    and lt: "list_all (\<lambda>c. \<not> is_line_terminator c) (take (length (drop 15 f) - 3) (drop 15 f))"
    and ext: "drop (length (drop 15 f) - 3) (drop 15 f) = ''.js''
            \<or> drop (length (drop 15 f) - 3) (drop 15 f) = ''.ts''"
    by (simp_all add: rxMigrationFile_def Let_def)
  show len: "18 \<le> length f" using l3 by simp
  show "list_all is_digit (take 14 f)" by (rule dg)
  have "drop 14 f = f ! 14 # drop 15 f"
    using len Cons_nth_drop_Suc [of 14 f] by simp
  with dash show "f ! 14 = CHR ''-''" by simp
  from lt show "list_all (\<lambda>c. \<not> is_line_terminator c) (take (length f - 18) (drop 15 f))"
    by simp
  have "length (drop 15 f) - 3 + 15 = length f - 3" using len by simp
  then show "drop (length f - 3) f = ''.js'' \<or> drop (length f - 3) f = ''.ts''"
    using ext by (simp add: add.commute)
qed

lemma dash_no_digit: "\<not> is_digit (CHR ''-'')"
  by (simp add: is_digit_def)

lemma rx_indexOf:
  assumes "rxMigrationFile f"
  shows "indexOf f (CHR ''-'') = 14"
proof -
  have "list_all is_digit (take 14 f)" by (rule rx_shape(2) [OF assms])
  then have "\<forall>c\<in>set (take 14 f). is_digit c" by (simp only: list_all_iff)
  then have n: "CHR ''-'' \<notin> set (take 14 f)" using dash_no_digit by blast
  have l: "14 < length f" using rx_shape(1) [OF assms] by simp
  have "indexOf f (CHR ''-'') = int 14"
    using n l rx_shape(3) [OF assms] by (rule indexOf_at)
  then show ?thesis by simp
qed

lemma rx_lastIndexOf:
  assumes "rxMigrationFile f"
  shows "lastIndexOf f (CHR ''.'') = int (length f - 3)"
proof -
  let ?k = "length f - 3"
  have len: "18 \<le> length f" by (rule rx_shape(1) [OF assms])
  have e: "drop ?k f = ''.js'' \<or> drop ?k f = ''.ts''" by (rule rx_shape(5) [OF assms])
  have c: "drop ?k f = f ! ?k # drop (Suc ?k) f"
    using len Cons_nth_drop_Suc [of ?k f] by simp
  from e c have "f ! ?k = CHR ''.''" by auto
  moreover from e c have "CHR ''.'' \<notin> set (drop (Suc ?k) f)" by auto
  moreover have "?k < length f" using len by simp
  ultimately show ?thesis by (rule lastIndexOf_at [rotated 2])
qed

lemma parse_filename_rx:
  assumes "rxMigrationFile f"
  shows "c_timestamp (parse_filename f) = take 14 f"
    and "c_name (parse_filename f) = take (length f - 18) (drop 15 f)"
    and "c_filename (parse_filename f) = f"
proof -
  have len: "18 \<le> length f" by (rule rx_shape(1) [OF assms])
  have "substring f 0 14 = take 14 f"
    using substring_nat [of 0 14 f] len by simp
  then show "c_timestamp (parse_filename f) = take 14 f"
    by (simp add: parse_filename_def rx_indexOf [OF assms])
  have "substring f (int 15) (int (length f - 3)) = take (length f - 3 - 15) (drop 15 f)"
    using len by (intro substring_nat) simp_all
  then show "c_name (parse_filename f) = take (length f - 18) (drop 15 f)"
    by (simp add: parse_filename_def rx_indexOf [OF assms] rx_lastIndexOf [OF assms])
  show "c_filename (parse_filename f) = f"
    by (simp add: parse_filename_def Let_def)
qed

text \<open>A matching file name is its timestamp, a dash, its name and its extension.\<close>

lemma rx_filename_parts:
  assumes "rxMigrationFile f"
  shows "f = c_timestamp (parse_filename f) @ ''-'' @ c_name (parse_filename f) @ drop (length f - 3) f"
proof -
  let ?k = "length f - 18"
  have len: "18 \<le> length f" by (rule rx_shape(1) [OF assms])
  have a: "drop 14 f = f ! 14 # drop 15 f"
    using len Cons_nth_drop_Suc [of 14 f] by simp
  have b: "take ?k (drop 15 f) @ drop ?k (drop 15 f) = drop 15 f"
    by (rule append_take_drop_id)
  have c: "drop ?k (drop 15 f) = drop (length f - 3) f"
    using len by simp
  have "c_timestamp (parse_filename f) @ ''-'' @ c_name (parse_filename f) @ drop (length f - 3) f
      = take 14 f @ f ! 14 # (take ?k (drop 15 f) @ drop (length f - 3) f)"
    by (simp only: parse_filename_rx(1,2) [OF assms] rx_shape(3) [OF assms] append_Cons append_Nil)
  also have "\<dots> = take 14 f @ f ! 14 # (take ?k (drop 15 f) @ drop ?k (drop 15 f))"
    by (simp only: c)
  also have "\<dots> = take 14 f @ f ! 14 # drop 15 f"
    by (simp only: b)
  also have "\<dots> = take 14 f @ drop 14 f"
    by (simp only: a)
  also have "\<dots> = f"
    by (rule append_take_drop_id)
  finally show ?thesis by (rule sym)
qed

subsection \<open>Forward planning\<close>

lemma c_filename_parse: "c_filename (parse_filename f) = f"
  by (simp add: parse_filename_def Let_def)

lemma filenames_of_filtered:
  "map c_filename (filter P (map parse_filename (filter rxMigrationFile files)))
     = filter (\<lambda>f. rxMigrationFile f \<and> P (parse_filename f)) files"
  by (induction files) (simp_all add: c_filename_parse)

lemma migrationsToApply_all:
  "map c_filename (migrationsToApply cm (- 1) files)
     = filter (\<lambda>f. rxMigrationFile f
                  \<and> (case cm of Some c \<Rightarrow> m_timestamp c < c_timestamp (parse_filename f)
                      | None \<Rightarrow> True)) files"
  by (simp add: migrationsToApply_def Let_def filenames_of_filtered)

lemma migrationsToApply_one:
  "map c_filename (migrationsToApply cm 1 files)
     = take 1 (filter (\<lambda>f. rxMigrationFile f
                  \<and> (case cm of Some c \<Rightarrow> m_timestamp c < c_timestamp (parse_filename f)
                      | None \<Rightarrow> True)) files)"
proof -
  have "map c_filename (migrationsToApply cm 1 files)
      = take 1 (map c_filename (filter (\<lambda>migration. case cm of
              Some c \<Rightarrow> m_timestamp c < c_timestamp migration | None \<Rightarrow> True)
           (map parse_filename (filter rxMigrationFile files))))"
    by (simp add: migrationsToApply_def Let_def slice0_def take_map)
  then show ?thesis by (simp only: filenames_of_filtered)
qed

lemma migrationsToApply_member:
  assumes "m \<in> set (migrationsToApply cm n files)"
  shows "m = parse_filename (c_filename m)" and "rxMigrationFile (c_filename m)"
    and "c_filename m \<in> set files"
    and "case cm of Some c \<Rightarrow> m_timestamp c < c_timestamp m | None \<Rightarrow> True"
proof -
  let ?all = "filter (\<lambda>migration. case cm of Some c \<Rightarrow> m_timestamp c < c_timestamp migration
                 | None \<Rightarrow> True) (map parse_filename (filter rxMigrationFile files))"
  have "set (migrationsToApply cm n files) \<subseteq> set ?all"
    by (auto simp: migrationsToApply_def Let_def slice0_def dest: in_set_takeD)
  with assms have m: "m \<in> set ?all" by blast
  then obtain f where f: "f \<in> set files" "rxMigrationFile f" "m = parse_filename f"
    by auto
  from f show "m = parse_filename (c_filename m)" by (simp add: c_filename_parse)
  from f show "rxMigrationFile (c_filename m)" by (simp add: c_filename_parse)
  from f show "c_filename m \<in> set files" by (simp add: c_filename_parse)
  from m show "case cm of Some c \<Rightarrow> m_timestamp c < c_timestamp m | None \<Rightarrow> True"
    by simp
qed

lemma require_codes_Inr:
  "require_codes env dir cs w = Inr (codes, w') \<Longrightarrow>
     w' = w\<lparr>trace := trace w @ map (\<lambda>m. Require (path_join env [dir, c_filename m])) cs\<rparr>
     \<and> list_all2 (\<lambda>m c. require_file env (path_join env [dir, c_filename m]) = Some c) cs codes"
proof (induction cs arbitrary: w codes w')
  case Nil
  then show ?case by simp
next
  case (Cons m cs)
  let ?p = "path_join env [dir, c_filename m]"
  from Cons.prems obtain code rest where req: "require_file env ?p = Some code"
    and rc: "require_codes env dir cs (emit (Require ?p) w) = Inr (rest, w')"
    and codes: "codes = code # rest"
    by (auto simp: Let_def split: option.splits sum.splits)
  from Cons.IH [OF rc] show ?case
    using req codes by (simp add: emit_def)
qed

lemma map2_with_code:
  "length codes = length cs \<Longrightarrow> map c_filename (map2 with_code cs codes) = map c_filename cs"
  "length codes = length cs \<Longrightarrow> map c_timestamp (map2 with_code cs codes) = map c_timestamp cs"
  "length codes = length cs \<Longrightarrow> map c_name (map2 with_code cs codes) = map c_name cs"
  by (induction cs codes rule: list_induct2') (simp_all add: with_code_def)

lemma getMigrationsExcept_Inr:
  assumes "getMigrationsExcept env cm root n w = Inr (ms, w')"
  obtains files codes where
    "fs_readdir env (path_join env [root, ''migrations'']) = Some files"
    "ms = map2 with_code (migrationsToApply cm n files) codes"
    "length codes = length (migrationsToApply cm n files)"
    "list_all2 (\<lambda>m c. require_file env (path_join env [path_join env [root, ''migrations''], c_filename m]) = Some c)
       (migrationsToApply cm n files) codes"
    "w' = w\<lparr>trace := trace w @ ReadDir (path_join env [root, ''migrations''])
            # map (\<lambda>m. Require (path_join env [path_join env [root, ''migrations''], c_filename m]))
                (migrationsToApply cm n files)\<rparr>"
proof -
  let ?dir = "path_join env [root, ''migrations'']"
  from assms obtain files where files: "fs_readdir env ?dir = Some files"
    by (auto simp: getMigrationsExcept_def Let_def split: option.splits)
  let ?cs = "migrationsToApply cm n files"
  from assms files obtain codes where
    rc: "require_codes env ?dir ?cs (emit (ReadDir ?dir) w) = Inr (codes, w')"
    and ms: "ms = map2 with_code ?cs codes"
    by (auto simp: getMigrationsExcept_def Let_def split: sum.splits)
  from require_codes_Inr [OF rc] have
    w': "w' = w\<lparr>trace := trace w @ ReadDir ?dir # map (\<lambda>m. Require (path_join env [?dir, c_filename m])) ?cs\<rparr>"
    and l2: "list_all2 (\<lambda>m c. require_file env (path_join env [?dir, c_filename m]) = Some c) ?cs codes"
    by (simp_all add: emit_def)
  from l2 have len: "length codes = length ?cs" by (simp add: list_all2_lengthD)
  show thesis by (rule that [OF files ms len l2 w'])
qed

lemma sorted_last_max:
  "sorted (map f L) \<Longrightarrow> e \<in> set L \<Longrightarrow> f e \<le> f (last L)"
  by (induction L) auto

lemma latest_of_bound:
  assumes "sorted (map m_timestamp L)"
  shows "(case latest_of L of Some c \<Rightarrow> m_timestamp c < t | None \<Rightarrow> True)
           \<longleftrightarrow> (\<forall>e\<in>set L. m_timestamp e < t)"
proof (cases "L = []")
  case True
  then show ?thesis by (simp add: latest_of_def)
next
  case False
  then have "last L \<in> set L" by simp
  moreover have "\<forall>e\<in>set L. m_timestamp e \<le> m_timestamp (last L)"
    using sorted_last_max [OF assms] by blast
  ultimately show ?thesis using False
    by (auto simp: latest_of_def)
qed

lemma take_lex_mono: "(xs :: 'a::linorder list) \<le> ys \<Longrightarrow> take n xs \<le> take n ys"
proof (induction n arbitrary: xs ys)
  case 0
  then show ?case by simp
next
  case (Suc n)
  then show ?case by (cases xs; cases ys) auto
qed

lemma sorted_map_take: "sorted (xs :: 'a::linorder list list) \<Longrightarrow> sorted (map (take n) xs)"
  by (induction xs) (auto simp: take_lex_mono)

lemma map2_with_code_member:
  "length codes = length cs \<Longrightarrow> m \<in> set (map2 with_code cs codes) \<Longrightarrow>
     \<exists>c\<in>set cs. c_name m = c_name c \<and> c_timestamp m = c_timestamp c \<and> c_filename m = c_filename c"
  by (induction cs codes rule: list_induct2') (auto simp: with_code_def)

lemma planned_member:
  assumes "getMigrationsExcept env cm root n w = Inr (ms, w')" and "m \<in> set ms"
  shows "rxMigrationFile (c_filename m)"
    and "c_timestamp m = c_timestamp (parse_filename (c_filename m))"
    and "c_name m = c_name (parse_filename (c_filename m))"
    and "case cm of Some c \<Rightarrow> m_timestamp c < c_timestamp m | None \<Rightarrow> True"
proof -
  from assms(1) obtain files codes where
    ms: "ms = map2 with_code (migrationsToApply cm n files) codes"
    and len: "length codes = length (migrationsToApply cm n files)"
    by (rule getMigrationsExcept_Inr)
  from map2_with_code_member [OF len] assms(2) ms obtain c where
    c: "c \<in> set (migrationsToApply cm n files)"
    and eq: "c_name m = c_name c" "c_timestamp m = c_timestamp c" "c_filename m = c_filename c"
    by blast
  note mem = migrationsToApply_member [OF c]
  from mem(2) eq show "rxMigrationFile (c_filename m)" by simp
  from mem(1) eq show "c_timestamp m = c_timestamp (parse_filename (c_filename m))" by metis
  from mem(1) eq show "c_name m = c_name (parse_filename (c_filename m))" by metis
  from mem(4) eq show "case cm of Some c \<Rightarrow> m_timestamp c < c_timestamp m | None \<Rightarrow> True"
    by (cases cm) simp_all
qed

lemma planned_filenames:
  assumes n: "n = - 1 \<or> n = 1"
    and rd: "fs_readdir env (path_join env [root, ''migrations'']) = Some files"
    and run: "getMigrationsExcept env cm root n w = Inr (ms, w')"
  shows "map c_filename ms =
           (let pending = filter (\<lambda>f. rxMigrationFile f
                  \<and> (case cm of Some c \<Rightarrow> m_timestamp c < c_timestamp (parse_filename f)
                      | None \<Rightarrow> True)) files
            in if n = - 1 then pending else take 1 pending)"
proof -
  from run obtain files' codes where
    rd': "fs_readdir env (path_join env [root, ''migrations'']) = Some files'"
    and ms: "ms = map2 with_code (migrationsToApply cm n files') codes"
    and len: "length codes = length (migrationsToApply cm n files')"
    by (rule getMigrationsExcept_Inr)
  have "map c_filename ms = map c_filename (migrationsToApply cm n files')"
    unfolding ms by (rule map2_with_code(1) [OF len])
  moreover from rd rd' have "files' = files" by simp
  ultimately have "map c_filename ms = map c_filename (migrationsToApply cm n files)"
    by simp
  with n show ?thesis
    by (auto simp: Let_def migrationsToApply_all migrationsToApply_one)
qed

lemma planned_timestamps_sorted:
  assumes n: "n = - 1 \<or> n = 1"
    and rd: "fs_readdir env (path_join env [root, ''migrations'']) = Some files"
    and run: "getMigrationsExcept env cm root n w = Inr (ms, w')"
    and srt: "sorted files"
  shows "sorted (map c_timestamp ms)"
proof -
  have "sorted (map c_filename ms)"
    using planned_filenames [OF n rd run] srt n
    by (auto simp: Let_def sorted_wrt_take sorted_wrt_filter)
  then have "sorted (map (take 14) (map c_filename ms))"
    by (rule sorted_map_take)
  then have "sorted (map (\<lambda>m. take 14 (c_filename m)) ms)"
    by (simp only: map_map comp_def)
  moreover have "map c_timestamp ms = map (\<lambda>m. take 14 (c_filename m)) ms"
  proof (rule map_cong [OF refl])
    fix m assume "m \<in> set ms"
    from planned_member(1,2) [OF run this] show "c_timestamp m = take 14 (c_filename m)"
      by (simp add: parse_filename_rx(1))
  qed
  ultimately show ?thesis by (simp only:)
qed

lemma plan_ba_all:
  "migrationsToApply None (- 1) [''20230102000000-b.ts'', ''20230101000000-a.ts'']
     = [\<lparr>c_name = ''b'', c_timestamp = ''20230102000000'', c_filename = ''20230102000000-b.ts''\<rparr>,
        \<lparr>c_name = ''a'', c_timestamp = ''20230101000000'', c_filename = ''20230101000000-a.ts''\<rparr>]"
  by code_simp

text \<open>
  Claim C1, as the code has it. Forward planning (\<^verbatim>\<open>getMigrationsExcept\<close> as \<^verbatim>\<open>up\<close> calls
  it, on the latest entry of a ledger in ascending order of timestamp) returns exactly
  the file names that match the pattern and whose timestamp is strictly greater than
  that of every ledger entry (all matching file names when the ledger is empty), in the
  order in which the directory listing gives them, cut to the first one when one
  migration is asked for. The code does not sort: the timestamps of the plan ascend
  whenever the listing is sorted.
\<close>

theorem forward_plan_in_scan_order:
  assumes srt: "sorted (map m_timestamp completedMigrations)"
    and n: "numToApply = - 1 \<or> numToApply = 1"
    and rd: "fs_readdir env (path_join env [root, ''migrations'']) = Some files"
    and run: "getMigrationsExcept env (latest_of completedMigrations) root numToApply w = Inr (ms, w')"
  shows "map c_filename ms =
           (let pending = filter (\<lambda>f. rxMigrationFile f
                  \<and> (\<forall>e\<in>set completedMigrations. m_timestamp e < c_timestamp (parse_filename f))) files
            in if numToApply = - 1 then pending else take 1 pending)
       \<and> (\<forall>m\<in>set ms. c_timestamp m = c_timestamp (parse_filename (c_filename m))
              \<and> c_name m = c_name (parse_filename (c_filename m))
              \<and> (\<forall>e\<in>set completedMigrations. m_timestamp e < c_timestamp m))
       \<and> (sorted files \<longrightarrow> sorted (map c_timestamp ms))"
proof (intro conjI ballI impI)
  have "(\<lambda>f. rxMigrationFile f \<and> (case latest_of completedMigrations of
            Some c \<Rightarrow> m_timestamp c < c_timestamp (parse_filename f) | None \<Rightarrow> True))
      = (\<lambda>f. rxMigrationFile f
            \<and> (\<forall>e\<in>set completedMigrations. m_timestamp e < c_timestamp (parse_filename f)))"
    by (simp only: latest_of_bound [OF srt])
  with planned_filenames [OF n rd run]
  show "map c_filename ms =
           (let pending = filter (\<lambda>f. rxMigrationFile f
                  \<and> (\<forall>e\<in>set completedMigrations. m_timestamp e < c_timestamp (parse_filename f))) files
            in if numToApply = - 1 then pending else take 1 pending)"
    by (simp only:)
next
  fix m assume m: "m \<in> set ms"
  show "c_timestamp m = c_timestamp (parse_filename (c_filename m))"
    by (rule planned_member(2) [OF run m])
  show "c_name m = c_name (parse_filename (c_filename m))"
    by (rule planned_member(3) [OF run m])
  fix e assume "e \<in> set completedMigrations"
  with planned_member(4) [OF run m] latest_of_bound [OF srt, of "c_timestamp m"]
  show "m_timestamp e < c_timestamp m" by blast
next
  assume "sorted files"
  with n rd run show "sorted (map c_timestamp ms)" by (rule planned_timestamps_sorted)
qed

text \<open>
  The plan is not sorted regardless of the order of the listing: on a listing that gives
  the later file first, the later migration is planned first.
\<close>

theorem forward_plan_unsorted_counterexample:
  "getMigrationsExcept (demo_env [''20230102000000-b.ts'', ''20230101000000-a.ts''] always_noop)
       None ''/app'' (- 1) w_fresh
     = Inr ([\<lparr>c_name = ''b'', c_timestamp = ''20230102000000'',
              c_filename = ''20230102000000-b.ts'', u_code = noop\<rparr>,
             \<lparr>c_name = ''a'', c_timestamp = ''20230101000000'',
              c_filename = ''20230101000000-a.ts'', u_code = noop\<rparr>],
            \<lparr>srv = [], pool = False,
             trace = [ReadDir ''/app/migrations'',
                      Require ''/app/migrations/20230102000000-b.ts'',
                      Require ''/app/migrations/20230101000000-a.ts'']\<rparr>)
   \<and> \<not> sorted [''20230102000000'', ''20230101000000'']"
  by (simp add: getMigrationsExcept_def demo_env_def plan_ba_all always_noop_def emit_def
      with_code_def w_fresh_def)

lemma plan_cab_all:
  "migrationsToApply
      (latest_of [\<lparr>m_id = ''u'', m_name = ''a'', m_timestamp = ''20230101000000''\<rparr>]) (- 1)
      [''20230103000000-c.ts'', ''20230101000000-a.ts'', ''20230102000000-b.js'']
     = [\<lparr>c_name = ''c'', c_timestamp = ''20230103000000'', c_filename = ''20230103000000-c.ts''\<rparr>,
        \<lparr>c_name = ''b'', c_timestamp = ''20230102000000'', c_filename = ''20230102000000-b.js''\<rparr>]"
  by code_simp

theorem forward_plan_in_scan_order_witness:
  "getMigrationsExcept
      (demo_env [''20230103000000-c.ts'', ''20230101000000-a.ts'', ''20230102000000-b.js''] always_noop)
      (latest_of [\<lparr>m_id = ''u'', m_name = ''a'', m_timestamp = ''20230101000000''\<rparr>])
      ''/app'' (- 1) w_fresh
     = Inr ([\<lparr>c_name = ''c'', c_timestamp = ''20230103000000'',
              c_filename = ''20230103000000-c.ts'', u_code = noop\<rparr>,
             \<lparr>c_name = ''b'', c_timestamp = ''20230102000000'',
              c_filename = ''20230102000000-b.js'', u_code = noop\<rparr>],
            \<lparr>srv = [], pool = False,
             trace = [ReadDir ''/app/migrations'',
                      Require ''/app/migrations/20230103000000-c.ts'',
                      Require ''/app/migrations/20230102000000-b.js'']\<rparr>)
   \<and> filter (\<lambda>f. rxMigrationFile f \<and> ''20230101000000'' < c_timestamp (parse_filename f))
        [''20230103000000-c.ts'', ''20230101000000-a.ts'', ''20230102000000-b.js'']
     = [''20230103000000-c.ts'', ''20230102000000-b.js'']"
proof -
  let ?files = "[''20230103000000-c.ts'', ''20230101000000-a.ts'', ''20230102000000-b.js'']"
  let ?ledger = "[\<lparr>m_id = ''u'', m_name = ''a'', m_timestamp = ''20230101000000''\<rparr>]"
  let ?env = "demo_env ?files always_noop"
  let ?ms = "[\<lparr>c_name = ''c'', c_timestamp = ''20230103000000'',
              c_filename = ''20230103000000-c.ts'', u_code = noop\<rparr>,
             \<lparr>c_name = ''b'', c_timestamp = ''20230102000000'',
              c_filename = ''20230102000000-b.js'', u_code = noop\<rparr>]"
  let ?w = "\<lparr>srv = [], pool = False,
             trace = [ReadDir ''/app/migrations'',
                      Require ''/app/migrations/20230103000000-c.ts'',
                      Require ''/app/migrations/20230102000000-b.js'']\<rparr>"
  have srt: "sorted (map m_timestamp ?ledger)" by simp
  have n: "(- 1 :: int) = - 1 \<or> (- 1 :: int) = 1" by simp
  have rd: "fs_readdir ?env (path_join ?env [''/app'', ''migrations'']) = Some ?files"
    by (simp add: demo_env_def)
  have run: "getMigrationsExcept ?env (latest_of ?ledger) ''/app'' (- 1) w_fresh = Inr (?ms, ?w)"
    by (simp add: getMigrationsExcept_def demo_env_def plan_cab_all always_noop_def emit_def
        with_code_def w_fresh_def)
  from forward_plan_in_scan_order [OF srt n rd run]
  have "map c_filename ?ms =
          filter (\<lambda>f. rxMigrationFile f \<and> ''20230101000000'' < c_timestamp (parse_filename f)) ?files"
    by (simp add: Let_def)
  with run show ?thesis by simp
qed

lemma sorted_hd_min: "sorted xs \<Longrightarrow> x \<in> set xs \<Longrightarrow> hd xs \<le> x"
  by (cases xs) auto

lemma plan_ba_one:
  "migrationsToApply None 1 [''20230102000000-b.ts'', ''20230101000000-a.ts'']
     = [\<lparr>c_name = ''b'', c_timestamp = ''20230102000000'', c_filename = ''20230102000000-b.ts''\<rparr>]"
  by code_simp

lemma parse_a:
  "rxMigrationFile ''20230101000000-a.ts''
   \<and> c_timestamp (parse_filename ''20230101000000-a.ts'') = ''20230101000000''"
  by code_simp

text \<open>
  Claim C4, as the code has it. With one migration asked for, forward planning returns
  at most one identity: the first pending file name in the order of the directory
  listing. It is the pending identity with the smallest timestamp whenever the listing
  is sorted.
\<close>

theorem forward_plan_limit_one:
  assumes srt: "sorted (map m_timestamp completedMigrations)"
    and rd: "fs_readdir env (path_join env [root, ''migrations'']) = Some files"
    and run: "getMigrationsExcept env (latest_of completedMigrations) root 1 w = Inr (ms, w')"
  shows "length ms \<le> 1
       \<and> map c_filename ms =
           take 1 (filter (\<lambda>f. rxMigrationFile f
                  \<and> (\<forall>e\<in>set completedMigrations. m_timestamp e < c_timestamp (parse_filename f))) files)
       \<and> (sorted files \<longrightarrow>
            (\<forall>m\<in>set ms. \<forall>f\<in>set files.
               rxMigrationFile f
               \<and> (\<forall>e\<in>set completedMigrations. m_timestamp e < c_timestamp (parse_filename f))
               \<longrightarrow> c_timestamp m \<le> c_timestamp (parse_filename f)))"
proof -
  let ?pending = "filter (\<lambda>f. rxMigrationFile f
        \<and> (\<forall>e\<in>set completedMigrations. m_timestamp e < c_timestamp (parse_filename f))) files"
  have n: "(1::int) = - 1 \<or> (1::int) = 1" by simp
  from planned_filenames [OF n rd run]
  have names: "map c_filename ms = take 1 ?pending"
    by (simp add: Let_def latest_of_bound [OF srt])
  then have "length (map c_filename ms) \<le> 1" by simp
  then have len: "length ms \<le> 1" by simp
  have least: "c_timestamp m \<le> c_timestamp (parse_filename f)"
    if s: "sorted files" and m: "m \<in> set ms" and f: "f \<in> set ?pending" for m f
  proof -
    from m have "c_filename m \<in> set (map c_filename ms)" by simp
    with names have "c_filename m \<in> set (take 1 ?pending)" by simp
    then have hd: "c_filename m = hd ?pending"
      by (cases ?pending) simp_all
    have "sorted ?pending" using s by (rule sorted_wrt_filter)
    then have "hd ?pending \<le> f" using f by (rule sorted_hd_min)
    with hd have "take 14 (c_filename m) \<le> take 14 f" by (simp add: take_lex_mono)
    moreover have "c_timestamp m = take 14 (c_filename m)"
      using planned_member(1,2) [OF run m] by (simp add: parse_filename_rx(1))
    moreover have "c_timestamp (parse_filename f) = take 14 f"
      using f by (simp add: parse_filename_rx(1))
    ultimately show ?thesis by simp
  qed
  from len names least show ?thesis by auto
qed

text \<open>
  The planned migration is not the pending one with the smallest timestamp: the listing
  gives the later file first, and that one is planned although the earlier is pending.
\<close>

theorem forward_plan_limit_one_counterexample:
  "getMigrationsExcept (demo_env [''20230102000000-b.ts'', ''20230101000000-a.ts''] always_noop)
       None ''/app'' 1 w_fresh
     = Inr ([\<lparr>c_name = ''b'', c_timestamp = ''20230102000000'',
              c_filename = ''20230102000000-b.ts'', u_code = noop\<rparr>],
            \<lparr>srv = [], pool = False,
             trace = [ReadDir ''/app/migrations'',
                      Require ''/app/migrations/20230102000000-b.ts'']\<rparr>)
   \<and> rxMigrationFile ''20230101000000-a.ts''
   \<and> c_timestamp (parse_filename ''20230101000000-a.ts'') = ''20230101000000''
   \<and> ''20230101000000'' < ''20230102000000''"
  by (simp add: getMigrationsExcept_def demo_env_def plan_ba_one parse_a always_noop_def emit_def
      with_code_def w_fresh_def)

lemma plan_ab_one:
  "migrationsToApply (latest_of []) 1 [''20230101000000-a.ts'', ''20230102000000-b.ts'']
     = [\<lparr>c_name = ''a'', c_timestamp = ''20230101000000'', c_filename = ''20230101000000-a.ts''\<rparr>]"
  by code_simp

lemma sorted_ab: "sorted [''20230101000000-a.ts'', ''20230102000000-b.ts'']"
  by simp

lemma parse_b:
  "rxMigrationFile ''20230102000000-b.ts''
   \<and> c_timestamp (parse_filename ''20230102000000-b.ts'') = ''20230102000000''"
  by code_simp

theorem forward_plan_limit_one_witness:
  "getMigrationsExcept (demo_env [''20230101000000-a.ts'', ''20230102000000-b.ts''] always_noop)
       (latest_of []) ''/app'' 1 w_fresh
     = Inr ([\<lparr>c_name = ''a'', c_timestamp = ''20230101000000'',
              c_filename = ''20230101000000-a.ts'', u_code = noop\<rparr>],
            \<lparr>srv = [], pool = False,
             trace = [ReadDir ''/app/migrations'',
                      Require ''/app/migrations/20230101000000-a.ts'']\<rparr>)
   \<and> sorted [''20230101000000-a.ts'', ''20230102000000-b.ts'']
   \<and> ''20230101000000'' \<le> c_timestamp (parse_filename ''20230102000000-b.ts'')"
proof -
  let ?files = "[''20230101000000-a.ts'', ''20230102000000-b.ts'']"
  let ?env = "demo_env ?files always_noop"
  let ?m = "\<lparr>c_name = ''a'', c_timestamp = ''20230101000000'',
              c_filename = ''20230101000000-a.ts'', u_code = noop\<rparr>"
  let ?w = "\<lparr>srv = [], pool = False,
             trace = [ReadDir ''/app/migrations'',
                      Require ''/app/migrations/20230101000000-a.ts'']\<rparr>"
  have srt: "sorted (map m_timestamp [])" by simp
  have rd: "fs_readdir ?env (path_join ?env [''/app'', ''migrations'']) = Some ?files"
    by (simp add: demo_env_def)
  have run: "getMigrationsExcept ?env (latest_of []) ''/app'' 1 w_fresh = Inr ([?m], ?w)"
    by (simp add: getMigrationsExcept_def demo_env_def plan_ab_one always_noop_def emit_def
        with_code_def w_fresh_def)
  from forward_plan_limit_one [OF srt rd run] sorted_ab parse_b
  have "c_timestamp ?m \<le> c_timestamp (parse_filename ''20230102000000-b.ts'')"
    by simp
  with run sorted_ab show ?thesis by simp
qed

subsection \<open>Loading\<close>

lemma requireMigrations_Inr:
  "requireMigrations env migs root w = Inr (ms, w') \<Longrightarrow>
     w' = w\<lparr>trace := trace w @ map (\<lambda>m. Require (path_join env
                 [root, ''migrations'', m_timestamp m @ ''-'' @ m_name m])) migs\<rparr>
     \<and> list_all2 (\<lambda>g m. m_id m = m_id g \<and> m_name m = m_name g \<and> m_timestamp m = m_timestamp g
                   \<and> d_filename m = m_timestamp g @ ''-'' @ m_name g
                   \<and> require_file env (path_join env [root, ''migrations'', d_filename m])
                        = Some (d_code m)) migs ms"
proof (induction migs arbitrary: w ms w')
  case Nil
  then show ?case by simp
next
  case (Cons g migs)
  let ?p = "path_join env [root, ''migrations'', m_timestamp g @ ''-'' @ m_name g]"
  from Cons.prems obtain code rest where req: "require_file env ?p = Some code"
    and rc: "requireMigrations env migs root (emit (Require ?p) w) = Inr (rest, w')"
    and ms: "ms = \<lparr>m_id = m_id g, m_name = m_name g, m_timestamp = m_timestamp g,
                   d_filename = m_timestamp g @ ''-'' @ m_name g, d_code = code\<rparr> # rest"
    by (auto simp: Let_def split: option.splits sum.splits)
  from Cons.IH [OF rc] show ?case
    using req ms by (simp add: emit_def)
qed

lemma loaded_up_member:
  assumes "getMigrationsExcept env cm root n w = Inr (ms, w')" and "m \<in> set ms"
  shows "require_file env (path_join env [path_join env [root, ''migrations''], c_filename m])
           = Some (u_code m)"
proof -
  let ?dir = "path_join env [root, ''migrations'']"
  from assms(1) obtain files codes where
    ms: "ms = map2 with_code (migrationsToApply cm n files) codes"
    and l2: "list_all2 (\<lambda>m c. require_file env (path_join env [?dir, c_filename m]) = Some c)
               (migrationsToApply cm n files) codes"
    by (rule getMigrationsExcept_Inr)
  from assms(2) ms obtain c code where
    z: "(c, code) \<in> set (zip (migrationsToApply cm n files) codes)" and m: "m = with_code c code"
    by auto
  from l2 z have "require_file env (path_join env [?dir, c_filename c]) = Some code"
    by (auto simp: list_all2_iff)
  with m show ?thesis by (simp add: with_code_def)
qed

lemma loaded_up_trace:
  assumes "getMigrationsExcept env cm root n w = Inr (ms, w')"
  shows "w' = w\<lparr>trace := trace w @ ReadDir (path_join env [root, ''migrations''])
            # map (\<lambda>m. Require (path_join env [path_join env [root, ''migrations''], c_filename m])) ms\<rparr>"
proof -
  let ?dir = "path_join env [root, ''migrations'']"
  from assms obtain files codes where
    ms: "ms = map2 with_code (migrationsToApply cm n files) codes"
    and len: "length codes = length (migrationsToApply cm n files)"
    and w': "w' = w\<lparr>trace := trace w @ ReadDir ?dir
            # map (\<lambda>m. Require (path_join env [?dir, c_filename m])) (migrationsToApply cm n files)\<rparr>"
    by (rule getMigrationsExcept_Inr)
  have "map (\<lambda>m. Require (path_join env [?dir, c_filename m])) ms
      = map (\<lambda>f. Require (path_join env [?dir, f])) (map c_filename ms)"
    by (simp add: comp_def)
  also have "map c_filename ms = map c_filename (migrationsToApply cm n files)"
    unfolding ms by (rule map2_with_code(1) [OF len])
  also have "map (\<lambda>f. Require (path_join env [?dir, f])) (map c_filename (migrationsToApply cm n files))
      = map (\<lambda>m. Require (path_join env [?dir, c_filename m])) (migrationsToApply cm n files)"
    by (simp add: comp_def)
  finally show ?thesis using w' by simp
qed

lemma planned_filename_parts:
  assumes "getMigrationsExcept env cm root n w = Inr (ms, w')" and "m \<in> set ms"
  shows "c_filename m = c_timestamp m @ ''-'' @ c_name m @ ''.js''
       \<or> c_filename m = c_timestamp m @ ''-'' @ c_name m @ ''.ts''"
proof -
  note mem = planned_member(1,2,3) [OF assms]
  from rx_filename_parts [OF mem(1)] mem(2,3)
  have "c_filename m = c_timestamp m @ ''-'' @ c_name m @ drop (length (c_filename m) - 3) (c_filename m)"
    by simp
  with rx_shape(5) [OF mem(1)] show ?thesis by metis
qed

text \<open>The loader: what it resolves a path to.\<close>

lemma node_resolve_exact: "modules p \<noteq> None \<Longrightarrow> node_resolve modules p = Some p"
  by (simp add: node_resolve_def)

lemma node_require_Some:
  "node_require modules p = Some code \<Longrightarrow>
     \<exists>q. node_resolve modules p = Some q \<and> modules q = Some code"
  by (auto simp: node_require_def split: option.splits)

lemma find_SomeD: "find P xs = Some x \<Longrightarrow> x \<in> set xs \<and> P x"
  by (induction xs) (auto split: if_splits)

lemma node_resolve_candidates:
  assumes "node_resolve modules p = Some q"
  shows "modules q \<noteq> None \<and> (q = p \<or> (\<exists>ext\<in>set node_extensions. q = p @ ext))"
proof -
  from find_SomeD [OF assms [unfolded node_resolve_def]]
  have "q \<in> set (p # map (\<lambda>ext. p @ ext) node_extensions)" and "modules q \<noteq> None"
    by blast+
  then show ?thesis by auto
qed

lemma node_resolve_js:
  "node_resolve modules p = Some (p @ ''.js'') \<longleftrightarrow> modules (p @ ''.js'') \<noteq> None \<and> modules p = None"
  by (auto simp: node_resolve_def node_extensions_def)

lemma node_resolve_ts:
  "node_resolve modules p = Some (p @ ''.ts'') \<longleftrightarrow>
     modules (p @ ''.ts'') \<noteq> None \<and> modules p = None \<and> modules (p @ ''.js'') = None
     \<and> modules (p @ ''.json'') = None \<and> modules (p @ ''.node'') = None
     \<and> modules (p @ ''.jsx'') = None"
  by (auto simp: node_resolve_def node_extensions_def)

text \<open>
  For \<open>posix_join\<close> the path of the forward load is the path of the backward load with
  the extension appended.
\<close>

lemma posix_join_extension:
  "posix_join [posix_join [root, ''migrations''], stem @ ext]
     = posix_join [root, ''migrations'', stem] @ ext"
  by simp


lemma plan_init_all:
  "migrationsToApply None (- 1) [''20230101000000-init.ts'']
     = [\<lparr>c_name = ''init'', c_timestamp = ''20230101000000'',
         c_filename = ''20230101000000-init.ts''\<rparr>]"
  by code_simp

lemma plan_init_beside_json:
  "migrationsToApply None (- 1) [''20230101000000-init.json'', ''20230101000000-init.ts'']
     = [\<lparr>c_name = ''init'', c_timestamp = ''20230101000000'',
         c_filename = ''20230101000000-init.ts''\<rparr>]"
  by code_simp

lemma forward_load_init:
  "getMigrationsExcept (demo_env [''20230101000000-init.ts''] (node_require init_ts))
       None ''/app'' (- 1) w_fresh
     = Inr ([\<lparr>c_name = ''init'', c_timestamp = ''20230101000000'',
              c_filename = ''20230101000000-init.ts'', u_code = noop\<rparr>],
            \<lparr>srv = [], pool = False,
             trace = [ReadDir ''/app/migrations'',
                      Require ''/app/migrations/20230101000000-init.ts'']\<rparr>)"
  by (simp add: getMigrationsExcept_def demo_env_def plan_init_all node_require_def
      node_resolve_def init_ts_def emit_def with_code_def w_fresh_def)

lemma backward_load_init:
  "requireMigrations (demo_env [''20230101000000-init.ts''] (node_require init_ts))
       [\<lparr>m_id = ''u'', m_name = ''init'', m_timestamp = ''20230101000000''\<rparr>] ''/app'' w_fresh
     = Inr ([\<lparr>m_id = ''u'', m_name = ''init'', m_timestamp = ''20230101000000'',
              d_filename = ''20230101000000-init'', d_code = noop\<rparr>],
            \<lparr>srv = [], pool = False,
             trace = [Require ''/app/migrations/20230101000000-init'']\<rparr>)"
  by (simp add: demo_env_def node_require_def node_resolve_def node_extensions_def init_ts_def
      emit_def w_fresh_def Let_def)

lemma forward_load_beside_json:
  "getMigrationsExcept
       (demo_env [''20230101000000-init.json'', ''20230101000000-init.ts'']
          (node_require init_ts_and_json))
       None ''/app'' (- 1) w_fresh
     = Inr ([\<lparr>c_name = ''init'', c_timestamp = ''20230101000000'',
              c_filename = ''20230101000000-init.ts'', u_code = noop\<rparr>],
            \<lparr>srv = [], pool = False,
             trace = [ReadDir ''/app/migrations'',
                      Require ''/app/migrations/20230101000000-init.ts'']\<rparr>)"
  by (simp add: getMigrationsExcept_def demo_env_def plan_init_beside_json node_require_def
      node_resolve_def init_ts_and_json_def emit_def with_code_def w_fresh_def)

lemma backward_load_beside_json:
  "requireMigrations
       (demo_env [''20230101000000-init.json'', ''20230101000000-init.ts'']
          (node_require init_ts_and_json))
       [\<lparr>m_id = ''u'', m_name = ''init'', m_timestamp = ''20230101000000''\<rparr>] ''/app'' w_fresh
     = Inr ([\<lparr>m_id = ''u'', m_name = ''init'', m_timestamp = ''20230101000000'',
              d_filename = ''20230101000000-init'', d_code = no_procedures\<rparr>],
            \<lparr>srv = [], pool = False,
             trace = [Require ''/app/migrations/20230101000000-init'']\<rparr>)"
  by (simp add: demo_env_def node_require_def node_resolve_def node_extensions_def
      init_ts_and_json_def emit_def w_fresh_def Let_def)

text \<open>
  Claim C8, as the code has it, for Node's loader over the files \<open>modules\<close>. The forward
  path (\<^verbatim>\<open>getMigrationsExcept\<close>, used by \<^verbatim>\<open>up\<close>) requires
  \<^verbatim>\<open>path.join(path.join(root, 'migrations'), filename)\<close>, where the file name is
  \<^verbatim>\<open><timestamp>-<name>.js\<close> or \<^verbatim>\<open><timestamp>-<name>.ts\<close>: the extension is part of the
  path, and the loader resolves the path to the file of that very path when it is there.
  The backward path (\<^verbatim>\<open>requireMigrations\<close>, used by \<^verbatim>\<open>down\<close>) requires
  \<^verbatim>\<open>path.join(root, 'migrations', <timestamp>-<name>)\<close>, built from the ledger entry, with
  no extension. The loader resolves that path by its own search: the file of that very
  path, or else the path with the first registered extension for which there is a file.
  So it loads \<^verbatim>\<open><timestamp>-<name>.js\<close> exactly when that file is there and no file
  \<^verbatim>\<open><timestamp>-<name>\<close> is; and it loads \<^verbatim>\<open><timestamp>-<name>.ts\<close> exactly when that file is
  there and none of \<^verbatim>\<open><timestamp>-<name>\<close>, \<^verbatim>\<open>.js\<close>, \<^verbatim>\<open>.json\<close>, \<^verbatim>\<open>.node\<close>, \<^verbatim>\<open>.jsx\<close> is.
\<close>

theorem load_paths:
  assumes loader: "require_file env = node_require modules"
  shows
  "(getMigrationsExcept env cm root n w = Inr (ms, w') \<longrightarrow>
      trace w' = trace w @ ReadDir (path_join env [root, ''migrations''])
          # map (\<lambda>m. Require (path_join env [path_join env [root, ''migrations''], c_filename m])) ms
      \<and> (\<forall>m\<in>set ms.
            (c_filename m = c_timestamp m @ ''-'' @ c_name m @ ''.js''
             \<or> c_filename m = c_timestamp m @ ''-'' @ c_name m @ ''.ts'')
            \<and> (\<exists>q. node_resolve modules
                       (path_join env [path_join env [root, ''migrations''], c_filename m]) = Some q
                   \<and> modules q = Some (u_code m))
            \<and> (modules (path_join env [path_join env [root, ''migrations''], c_filename m]) \<noteq> None
                 \<longrightarrow> node_resolve modules
                       (path_join env [path_join env [root, ''migrations''], c_filename m])
                     = Some (path_join env [path_join env [root, ''migrations''], c_filename m]))))
   \<and> (requireMigrations env migs root v = Inr (ds, v') \<longrightarrow>
      trace v' = trace v @ map (\<lambda>g. Require (path_join env
                    [root, ''migrations'', m_timestamp g @ ''-'' @ m_name g])) migs
      \<and> map m_id ds = map m_id migs
      \<and> (\<forall>d\<in>set ds.
            d_filename d = m_timestamp d @ ''-'' @ m_name d
            \<and> (\<exists>q. node_resolve modules (path_join env [root, ''migrations'', d_filename d]) = Some q
                   \<and> modules q = Some (d_code d)
                   \<and> (q = path_join env [root, ''migrations'', d_filename d]
                        \<or> (\<exists>ext\<in>set node_extensions.
                              q = path_join env [root, ''migrations'', d_filename d] @ ext)))
            \<and> (node_resolve modules (path_join env [root, ''migrations'', d_filename d])
                  = Some (path_join env [root, ''migrations'', d_filename d] @ ''.js'')
                \<longleftrightarrow> modules (path_join env [root, ''migrations'', d_filename d] @ ''.js'') \<noteq> None
                    \<and> modules (path_join env [root, ''migrations'', d_filename d]) = None)
            \<and> (node_resolve modules (path_join env [root, ''migrations'', d_filename d])
                  = Some (path_join env [root, ''migrations'', d_filename d] @ ''.ts'')
                \<longleftrightarrow> modules (path_join env [root, ''migrations'', d_filename d] @ ''.ts'') \<noteq> None
                    \<and> modules (path_join env [root, ''migrations'', d_filename d]) = None
                    \<and> modules (path_join env [root, ''migrations'', d_filename d] @ ''.js'') = None
                    \<and> modules (path_join env [root, ''migrations'', d_filename d] @ ''.json'') = None
                    \<and> modules (path_join env [root, ''migrations'', d_filename d] @ ''.node'') = None
                    \<and> modules (path_join env [root, ''migrations'', d_filename d] @ ''.jsx'') = None)))"
proof (intro conjI impI ballI)
  assume run: "getMigrationsExcept env cm root n w = Inr (ms, w')"
  from loaded_up_trace [OF run]
  show "trace w' = trace w @ ReadDir (path_join env [root, ''migrations''])
          # map (\<lambda>m. Require (path_join env [path_join env [root, ''migrations''], c_filename m])) ms"
    by simp
  fix m assume m: "m \<in> set ms"
  let ?p = "path_join env [path_join env [root, ''migrations''], c_filename m]"
  show "c_filename m = c_timestamp m @ ''-'' @ c_name m @ ''.js''
       \<or> c_filename m = c_timestamp m @ ''-'' @ c_name m @ ''.ts''"
    by (rule planned_filename_parts [OF run m])
  from loaded_up_member [OF run m] loader have "node_require modules ?p = Some (u_code m)"
    by simp
  then show "\<exists>q. node_resolve modules ?p = Some q \<and> modules q = Some (u_code m)"
    by (rule node_require_Some)
  assume "modules ?p \<noteq> None"
  then show "node_resolve modules ?p = Some ?p" by (rule node_resolve_exact)
next
  assume run: "requireMigrations env migs root v = Inr (ds, v')"
  note r = requireMigrations_Inr [OF run]
  from r show "trace v' = trace v @ map (\<lambda>g. Require (path_join env
                    [root, ''migrations'', m_timestamp g @ ''-'' @ m_name g])) migs"
    by simp
  from r have l2: "list_all2 (\<lambda>g m. m_id m = m_id g \<and> m_name m = m_name g
        \<and> m_timestamp m = m_timestamp g
        \<and> d_filename m = m_timestamp g @ ''-'' @ m_name g
        \<and> require_file env (path_join env [root, ''migrations'', d_filename m]) = Some (d_code m))
      migs ds"
    by simp
  then have "list_all2 (\<lambda>g m. m_id m = m_id g) migs ds"
    by (rule list_all2_mono) simp
  then show "map m_id ds = map m_id migs"
    by (induction rule: list_all2_induct) simp_all
  fix d assume "d \<in> set ds"
  then obtain i where i: "i < length ds" and d: "ds ! i = d"
    by (auto simp: in_set_conv_nth)
  let ?s = "path_join env [root, ''migrations'', d_filename d]"
  have P: "m_name d = m_name (migs ! i) \<and> m_timestamp d = m_timestamp (migs ! i)
      \<and> d_filename d = m_timestamp (migs ! i) @ ''-'' @ m_name (migs ! i)
      \<and> require_file env ?s = Some (d_code d)"
    using list_all2_nthD2 [OF l2 i] unfolding d by blast
  from P show "d_filename d = m_timestamp d @ ''-'' @ m_name d"
    by simp
  from P have "require_file env ?s = Some (d_code d)" by blast
  then have "node_require modules ?s = Some (d_code d)" by (simp only: loader)
  from node_require_Some [OF this] obtain q where
    q: "node_resolve modules ?s = Some q" and c: "modules q = Some (d_code d)"
    by blast
  from node_resolve_candidates [OF q]
  have "q = ?s \<or> (\<exists>ext\<in>set node_extensions. q = ?s @ ext)" by blast
  with q c show "\<exists>q. node_resolve modules ?s = Some q \<and> modules q = Some (d_code d)
      \<and> (q = ?s \<or> (\<exists>ext\<in>set node_extensions. q = ?s @ ext))"
    by blast
  show "node_resolve modules ?s = Some (?s @ ''.js'')
      \<longleftrightarrow> modules (?s @ ''.js'') \<noteq> None \<and> modules ?s = None"
    by (rule node_resolve_js)
  show "node_resolve modules ?s = Some (?s @ ''.ts'')
      \<longleftrightarrow> modules (?s @ ''.ts'') \<noteq> None \<and> modules ?s = None
          \<and> modules (?s @ ''.js'') = None \<and> modules (?s @ ''.json'') = None
          \<and> modules (?s @ ''.node'') = None \<and> modules (?s @ ''.jsx'') = None"
    by (rule node_resolve_ts)
qed

text \<open>
  With a data file \<^verbatim>\<open>20230101000000-init.json\<close> beside the migration
  \<^verbatim>\<open>20230101000000-init.ts\<close>, the forward path loads the migration's file and the
  backward path, for the ledger entry of the same migration, loads the data file:
  \<^verbatim>\<open>.json\<close> comes before \<^verbatim>\<open>.ts\<close> in the loader's search.
\<close>

theorem backward_load_other_file_counterexample:
  "getMigrationsExcept
       (demo_env [''20230101000000-init.json'', ''20230101000000-init.ts'']
          (node_require init_ts_and_json))
       None ''/app'' (- 1) w_fresh
     = Inr ([\<lparr>c_name = ''init'', c_timestamp = ''20230101000000'',
              c_filename = ''20230101000000-init.ts'', u_code = noop\<rparr>],
            \<lparr>srv = [], pool = False,
             trace = [ReadDir ''/app/migrations'',
                      Require ''/app/migrations/20230101000000-init.ts'']\<rparr>)
   \<and> node_resolve init_ts_and_json ''/app/migrations/20230101000000-init.ts''
       = Some ''/app/migrations/20230101000000-init.ts''
   \<and> requireMigrations
       (demo_env [''20230101000000-init.json'', ''20230101000000-init.ts'']
          (node_require init_ts_and_json))
       [\<lparr>m_id = ''u'', m_name = ''init'', m_timestamp = ''20230101000000''\<rparr>] ''/app'' w_fresh
     = Inr ([\<lparr>m_id = ''u'', m_name = ''init'', m_timestamp = ''20230101000000'',
              d_filename = ''20230101000000-init'', d_code = no_procedures\<rparr>],
            \<lparr>srv = [], pool = False,
             trace = [Require ''/app/migrations/20230101000000-init'']\<rparr>)
   \<and> node_resolve init_ts_and_json ''/app/migrations/20230101000000-init''
       = Some ''/app/migrations/20230101000000-init.json''
   \<and> ''/app/migrations/20230101000000-init.json'' \<noteq> ''/app/migrations/20230101000000-init.ts''"
proof -
  have "node_resolve init_ts_and_json ''/app/migrations/20230101000000-init.ts''
       = Some ''/app/migrations/20230101000000-init.ts''"
    by (simp add: node_resolve_def init_ts_and_json_def)
  moreover have "node_resolve init_ts_and_json ''/app/migrations/20230101000000-init''
       = Some ''/app/migrations/20230101000000-init.json''"
    by (simp add: node_resolve_def node_extensions_def init_ts_and_json_def)
  ultimately show ?thesis
    using forward_load_beside_json backward_load_beside_json by simp
qed

text \<open>
  With the migration's file alone in the directory, both paths load it.
\<close>

theorem load_paths_witness:
  "require_file (demo_env [''20230101000000-init.ts''] (node_require init_ts))
     = node_require init_ts
   \<and> getMigrationsExcept (demo_env [''20230101000000-init.ts''] (node_require init_ts))
       None ''/app'' (- 1) w_fresh
     = Inr ([\<lparr>c_name = ''init'', c_timestamp = ''20230101000000'',
              c_filename = ''20230101000000-init.ts'', u_code = noop\<rparr>],
            \<lparr>srv = [], pool = False,
             trace = [ReadDir ''/app/migrations'',
                      Require ''/app/migrations/20230101000000-init.ts'']\<rparr>)
   \<and> node_resolve init_ts ''/app/migrations/20230101000000-init.ts''
       = Some ''/app/migrations/20230101000000-init.ts''
   \<and> requireMigrations (demo_env [''20230101000000-init.ts''] (node_require init_ts))
       [\<lparr>m_id = ''u'', m_name = ''init'', m_timestamp = ''20230101000000''\<rparr>] ''/app'' w_fresh
     = Inr ([\<lparr>m_id = ''u'', m_name = ''init'', m_timestamp = ''20230101000000'',
              d_filename = ''20230101000000-init'', d_code = noop\<rparr>],
            \<lparr>srv = [], pool = False,
             trace = [Require ''/app/migrations/20230101000000-init'']\<rparr>)
   \<and> node_resolve init_ts ''/app/migrations/20230101000000-init''
       = Some ''/app/migrations/20230101000000-init.ts''"
proof -
  let ?env = "demo_env [''20230101000000-init.ts''] (node_require init_ts)"
  have loader: "require_file ?env = node_require init_ts" by (simp add: demo_env_def)
  have pj: "path_join ?env = posix_join" by (simp add: demo_env_def)
  note L = load_paths [OF loader, of None "''/app''" "- 1" w_fresh _ _
      "[\<lparr>m_id = ''u'', m_name = ''init'', m_timestamp = ''20230101000000''\<rparr>]" w_fresh,
      unfolded pj]
  from L [THEN conjunct1, rule_format, OF forward_load_init, THEN conjunct2]
  have 1: "node_resolve init_ts ''/app/migrations/20230101000000-init.ts''
       = Some ''/app/migrations/20230101000000-init.ts''"
    by (simp add: init_ts_def)
  from L [THEN conjunct2, rule_format, OF backward_load_init, THEN conjunct2, THEN conjunct2]
  have 2: "node_resolve init_ts ''/app/migrations/20230101000000-init''
       = Some ''/app/migrations/20230101000000-init.ts''"
    by (simp add: init_ts_def)
  from loader forward_load_init 1 backward_load_init 2 show ?thesis by simp
qed

subsection \<open>The server\<close>

lemma in_dbList: "db \<in> set (dbList s) \<longleftrightarrow> map_of s db \<noteq> None"
  by (simp add: dbList_def map_of_eq_None_iff)

lemma in_keys: "t \<in> set (map fst d) \<longleftrightarrow> map_of d t \<noteq> None"
  by (simp add: map_of_eq_None_iff)

lemma get_table_Inr:
  "get_table db t s = Inr tb \<longleftrightarrow> (\<exists>d. map_of s db = Some d \<and> map_of d t = Some tb)"
  by (auto simp: get_table_def split: option.splits)

lemma get_put_table:
  "map_of s db = Some d \<Longrightarrow> get_table db t (put_table db t tb s) = Inr tb"
  by (simp add: get_table_def put_table_def AList.update_conv')

lemma update_snoc:
  "k \<notin> fst ` set xs \<Longrightarrow> AList.update k v (xs @ [(k, u)]) = xs @ [(k, v)]"
  by (induction xs) auto

lemma map_of_snoc: "map_of d t = None \<Longrightarrow> map_of (d @ [(t, e)]) t = Some e"
  by (induction d) auto

lemma map_add_snoc: "map_of d t = None \<Longrightarrow> ([t \<mapsto> e] ++ map_of d) t = Some e"
  by (simp add: map_add_def)

lemma tableCreate_new:
  "map_of s db = Some d \<Longrightarrow> map_of d t = None \<Longrightarrow>
     tableCreate db t s = Inr (AList.update db (d @ [(t, \<lparr>rows = [], indexes = []\<rparr>)]) s)"
  by (simp add: tableCreate_def map_of_eq_None_iff)

lemma indexCreate_new:
  assumes "map_of d t = None"
  shows "indexCreate db t ix (AList.update db (d @ [(t, \<lparr>rows = [], indexes = []\<rparr>)]) s)
       = Inr (AList.update db (d @ [(t, \<lparr>rows = [], indexes = [ix]\<rparr>)]) s)"
proof -
  from assms have nk: "t \<notin> fst ` set d" by (simp add: map_of_eq_None_iff)
  have g: "get_table db t (AList.update db (d @ [(t, \<lparr>rows = [], indexes = []\<rparr>)]) s)
         = Inr \<lparr>rows = [], indexes = []\<rparr>"
    by (simp add: get_table_def AList.update_conv' map_add_snoc [OF assms])
  show ?thesis
    by (simp add: indexCreate_def g put_table_def AList.update_conv' update_snoc [OF nk])
qed

lemma indexWait_new:
  assumes "map_of d t = None"
  shows "indexWait db t (AList.update db (d @ [(t, tb)]) s) = Inr (AList.update db (d @ [(t, tb)]) s)"
  by (simp add: indexWait_def get_table_def AList.update_conv' map_add_snoc [OF assms])

lemma wait_ready_update:
  "wait_ready db (AList.update db d s) = Inr (AList.update db d s)"
  by (simp add: wait_ready_def AList.update_conv')

subsection \<open>connectToDb\<close>

lemma connect_existing:
  assumes "get_table db MIGRATION_TABLE_NAME (srv w) = Inr tb"
  shows "connectToDb db w =
           Resolved (w\<lparr>pool := True,
                      trace := trace w @ [ConnectPool, DbList, TableList, WaitReadyForWrites db]\<rparr>)"
proof -
  from assms obtain d where d: "map_of (srv w) db = Some d"
    and t: "map_of d MIGRATION_TABLE_NAME = Some tb"
    by (auto simp: get_table_Inr)
  from d have 1: "db \<in> set (dbList (srv w))" by (simp add: in_dbList)
  from t have 2: "MIGRATION_TABLE_NAME \<in> set (map fst d)" by (simp only: in_keys) simp
  have 3: "tableList db (srv w) = Inr (map fst d)" using d by (simp add: tableList_def)
  have 4: "wait_ready db (srv w) = Inr (srv w)" using d by (simp add: wait_ready_def)
  show ?thesis
    using 1 2 by (simp add: connectToDb_def Let_def emit_def 3 4 query_def)
qed

lemma connect_no_table:
  assumes d: "map_of (srv w) db = Some d" and t: "map_of d MIGRATION_TABLE_NAME = None"
  shows "connectToDb db w =
           Resolved (w\<lparr>pool := True,
                      srv := AList.update db
                               (d @ [(MIGRATION_TABLE_NAME, \<lparr>rows = [], indexes = [''timestamp'']\<rparr>)])
                               (srv w),
                      trace := trace w @ [ConnectPool, DbList, TableList,
                                          TableCreate MIGRATION_TABLE_NAME,
                                          IndexCreate MIGRATION_TABLE_NAME ''timestamp'',
                                          IndexWait MIGRATION_TABLE_NAME,
                                          WaitReadyForWrites db]\<rparr>)"
proof -
  from d have 1: "db \<in> set (dbList (srv w))" by (simp add: in_dbList)
  from t have 2: "MIGRATION_TABLE_NAME \<notin> set (map fst d)" by (simp only: in_keys) simp
  have 3: "tableList db (srv w) = Inr (map fst d)" using d by (simp add: tableList_def)
  show ?thesis
    using 1 2
    by (simp add: connectToDb_def Let_def emit_def 3 query_def tableCreate_new [OF d t]
        indexCreate_new [OF t] indexWait_new [OF t] wait_ready_update)
qed

lemma connect_no_db:
  assumes d: "map_of (srv w) db = None"
  shows "connectToDb db w =
           Resolved (w\<lparr>pool := True,
                      srv := srv w @ [(db, [(MIGRATION_TABLE_NAME,
                                             \<lparr>rows = [], indexes = [''timestamp'']\<rparr>)])],
                      trace := trace w @ [ConnectPool, DbList, DbCreate db, TableList,
                                          TableCreate MIGRATION_TABLE_NAME,
                                          IndexCreate MIGRATION_TABLE_NAME ''timestamp'',
                                          IndexWait MIGRATION_TABLE_NAME,
                                          WaitReadyForWrites db]\<rparr>)"
proof -
  from d have nk: "db \<notin> fst ` set (srv w)"
    by (simp add: map_of_eq_None_iff)
  from d have 1: "db \<notin> set (dbList (srv w))" by (simp add: in_dbList)
  have 0: "dbCreate db (srv w) = Inr (srv w @ [(db, [])])"
    using 1 by (simp add: dbCreate_def)
  have d': "map_of (srv w @ [(db, [])]) db = Some []"
    by (rule map_of_snoc [OF d])
  have t: "map_of ([] :: database) MIGRATION_TABLE_NAME = None" by simp
  have 3: "tableList db (srv w @ [(db, [])]) = Inr []"
    using d' by (simp add: tableList_def)
  have u: "AList.update db v (srv w @ [(db, [])]) = srv w @ [(db, v)]" for v
    by (rule update_snoc [OF nk])
  note tc = tableCreate_new [OF d' t, unfolded u append_Nil]
  note ic = indexCreate_new [OF t, of db "''timestamp''" "srv w @ [(db, [])]", unfolded u append_Nil]
  note iw = indexWait_new [OF t, of db _ "srv w @ [(db, [])]", unfolded u append_Nil]
  note wr = wait_ready_update [of db _ "srv w @ [(db, [])]", unfolded u append_Nil]
  show ?thesis
    using 1
    by (simp add: connectToDb_def Let_def emit_def 0 3 query_def tc ic iw wr)
qed

subsection \<open>Traces only grow\<close>

lemma extends_refl: "extends P w w"
  by (simp add: extends_def)

lemma extends_trans: "extends P w w1 \<Longrightarrow> extends P w1 w2 \<Longrightarrow> extends P w w2"
  by (auto simp: extends_def)

lemma extends_mono: "extends P w w' \<Longrightarrow> (\<And>e. P e \<Longrightarrow> Q e) \<Longrightarrow> extends Q w w'"
  by (auto simp: extends_def list_all_iff)

lemma extends_emit: "P e \<Longrightarrow> extends P w (emit e w)"
  by (simp add: extends_def emit_def)

lemma extends_step: "extends P w w1 \<Longrightarrow> trace w2 = trace w1 @ [e] \<Longrightarrow> P e \<Longrightarrow> extends P w w2"
  by (auto simp: extends_def)

lemma extends_explicit: "trace w' = trace w @ evs \<Longrightarrow> list_all P evs \<Longrightarrow> extends P w w'"
  by (auto simp: extends_def)

lemma require_codes_extends:
  "extends (\<lambda>e. \<exists>p. e = Require p) w (load_world (require_codes env dir cs w))"
proof (induction cs arbitrary: w)
  case Nil
  show ?case by (simp add: extends_refl)
next
  case (Cons m cs)
  let ?w1 = "emit (Require (path_join env [dir, c_filename m])) w"
  have 1: "extends (\<lambda>e. \<exists>p. e = Require p) w ?w1" by (rule extends_emit) blast
  show ?case
  proof (cases "require_file env (path_join env [dir, c_filename m])")
    case None
    with 1 show ?thesis by (simp add: Let_def)
  next
    case (Some code)
    have "load_world (require_codes env dir (m # cs) w) = load_world (require_codes env dir cs ?w1)"
      using Some by (auto simp: Let_def split: sum.splits)
    with extends_trans [OF 1 Cons.IH [of ?w1]] show ?thesis by simp
  qed
qed

lemma requireMigrations_extends:
  "extends (\<lambda>e. \<exists>p. e = Require p) w (load_world (requireMigrations env migs root w))"
proof (induction migs arbitrary: w)
  case Nil
  show ?case by (simp add: extends_refl)
next
  case (Cons g migs)
  let ?p = "path_join env [root, ''migrations'', m_timestamp g @ ''-'' @ m_name g]"
  let ?w1 = "emit (Require ?p) w"
  have 1: "extends (\<lambda>e. \<exists>p. e = Require p) w ?w1" by (rule extends_emit) blast
  show ?case
  proof (cases "require_file env ?p")
    case None
    with 1 show ?thesis by (simp add: Let_def)
  next
    case (Some code)
    have "load_world (requireMigrations env (g # migs) root w)
        = load_world (requireMigrations env migs root ?w1)"
      using Some by (auto simp: Let_def split: sum.splits)
    with extends_trans [OF 1 Cons.IH [of ?w1]] show ?thesis by simp
  qed
qed

lemma getMigrationsExcept_extends:
  "extends (\<lambda>e. (\<exists>p. e = Require p) \<or> (\<exists>d. e = ReadDir d)) w
     (load_world (getMigrationsExcept env cm root n w))"
proof -
  let ?dir = "path_join env [root, ''migrations'']"
  let ?P = "\<lambda>e. (\<exists>p. e = Require p) \<or> (\<exists>d. e = ReadDir d)"
  let ?w1 = "emit (ReadDir ?dir) w"
  have 1: "extends ?P w ?w1" by (rule extends_emit) blast
  show ?thesis
  proof (cases "fs_readdir env ?dir")
    case None
    with 1 show ?thesis by (simp add: getMigrationsExcept_def Let_def)
  next
    case (Some files)
    let ?cs = "migrationsToApply cm n files"
    have "load_world (getMigrationsExcept env cm root n w)
        = load_world (require_codes env ?dir ?cs ?w1)"
      using Some by (auto simp: getMigrationsExcept_def Let_def split: sum.splits)
    moreover have "extends ?P ?w1 (load_world (require_codes env ?dir ?cs ?w1))"
      by (rule extends_mono [OF require_codes_extends]) blast
    ultimately show ?thesis using extends_trans [OF 1] by simp
  qed
qed

lemma up_event_of_Cons: "up_event_of ms e \<Longrightarrow> up_event_of (m # ms) e"
  by (cases e) auto

lemma down_event_of_Cons: "down_event_of ms e \<Longrightarrow> down_event_of (m # ms) e"
  by (cases e) auto

lemma query_Resolved:
  "query ev f w = Resolved w' \<Longrightarrow> \<exists>s. f (srv w) = Inr s \<and> w' = w\<lparr>trace := trace w @ [ev], srv := s\<rparr>"
  by (auto simp: query_def emit_def Let_def split: sum.splits)

lemma query_Rejected:
  "query ev f w = Rejected e w' \<Longrightarrow> f (srv w) = Inl e \<and> w' = w\<lparr>trace := trace w @ [ev]\<rparr>"
  by (auto simp: query_def emit_def Let_def split: sum.splits)

lemma up_loop_extends:
  "extends (up_event_of ms) w (loop_world (up_loop db ms w))"
proof (induction ms arbitrary: w)
  case Nil
  show ?case by (simp add: extends_refl)
next
  case (Cons m ms)
  let ?P = "up_event_of (m # ms)"
  let ?w2 = "emit (InvokeUp (c_filename m)) (logInfo [''up'', c_timestamp m, c_name m] w)"
  have 2: "extends ?P w ?w2"
    by (rule extends_explicit [where evs = "[LogInfo [''up'', c_timestamp m, c_name m],
          InvokeUp (c_filename m)]"]) (simp_all add: emit_def logInfo_def)
  show ?case
  proof (cases "code_up (u_code m) (srv ?w2)")
    case (Threw e s)
    then have "loop_world (up_loop db (m # ms) w)
        = logError (''Migration failed: '' @ c_name m) e (?w2\<lparr>srv := s\<rparr>)"
      by (simp add: Let_def)
    moreover have "extends ?P w (logError (''Migration failed: '' @ c_name m) e (?w2\<lparr>srv := s\<rparr>))"
      by (rule extends_step [OF 2, where e = "LogError (''Migration failed: '' @ c_name m) e"])
        (simp_all add: logError_def emit_def)
    ultimately show ?thesis by simp
  next
    case (Returned s)
    let ?ev = "Insert MIGRATION_TABLE_NAME (c_name m) (c_timestamp m)"
    let ?q = "query ?ev (insert_row db MIGRATION_TABLE_NAME (c_name m) (c_timestamp m)) (?w2\<lparr>srv := s\<rparr>)"
    show ?thesis
    proof (cases ?q)
      case (Rejected err w3)
      from query_Rejected [OF Rejected] have "trace w3 = trace ?w2 @ [?ev]" by simp
      with 2 have "extends ?P w w3" by (rule extends_step) simp
      moreover have "loop_world (up_loop db (m # ms) w) = w3"
        using Returned Rejected by (simp add: Let_def)
      ultimately show ?thesis by simp
    next
      case (Resolved w3)
      from query_Resolved [OF Resolved] have "trace w3 = trace ?w2 @ [?ev]" by auto
      with 2 have 3: "extends ?P w w3" by (rule extends_step) simp
      have "extends ?P w3 (loop_world (up_loop db ms w3))"
        by (rule extends_mono [OF Cons.IH]) (rule up_event_of_Cons)
      moreover have "loop_world (up_loop db (m # ms) w) = loop_world (up_loop db ms w3)"
        using Returned Resolved by (simp add: Let_def)
      ultimately show ?thesis using extends_trans [OF 3] by simp
    qed
  qed
qed

lemma down_loop_extends:
  "extends (down_event_of ms) w (loop_world (down_loop db ms w))"
proof (induction ms arbitrary: w)
  case Nil
  show ?case by (simp add: extends_refl)
next
  case (Cons m ms)
  let ?P = "down_event_of (m # ms)"
  let ?w2 = "emit (InvokeDown (d_filename m)) (logInfo [''down'', m_timestamp m, m_name m] w)"
  have 2: "extends ?P w ?w2"
    by (rule extends_explicit [where evs = "[LogInfo [''down'', m_timestamp m, m_name m],
          InvokeDown (d_filename m)]"]) (simp_all add: emit_def logInfo_def)
  show ?case
  proof (cases "code_down (d_code m) (srv ?w2)")
    case (Threw e s)
    then have "loop_world (down_loop db (m # ms) w)
        = logError (''Migration failed: '' @ m_name m) e (?w2\<lparr>srv := s\<rparr>)"
      by (simp add: Let_def)
    moreover have "extends ?P w (logError (''Migration failed: '' @ m_name m) e (?w2\<lparr>srv := s\<rparr>))"
      by (rule extends_step [OF 2, where e = "LogError (''Migration failed: '' @ m_name m) e"])
        (simp_all add: logError_def emit_def)
    ultimately show ?thesis by simp
  next
    case (Returned s)
    let ?ev = "Delete MIGRATION_TABLE_NAME (m_id m)"
    let ?q = "query ?ev (delete_row db MIGRATION_TABLE_NAME (m_id m)) (?w2\<lparr>srv := s\<rparr>)"
    show ?thesis
    proof (cases ?q)
      case (Rejected err w3)
      from query_Rejected [OF Rejected] have "trace w3 = trace ?w2 @ [?ev]" by simp
      with 2 have "extends ?P w w3" by (rule extends_step) simp
      moreover have "loop_world (down_loop db (m # ms) w) = w3"
        using Returned Rejected by (simp add: Let_def)
      ultimately show ?thesis by simp
    next
      case (Resolved w3)
      from query_Resolved [OF Resolved] have "trace w3 = trace ?w2 @ [?ev]" by auto
      with 2 have 3: "extends ?P w w3" by (rule extends_step) simp
      have "extends ?P w3 (loop_world (down_loop db ms w3))"
        by (rule extends_mono [OF Cons.IH]) (rule down_event_of_Cons)
      moreover have "loop_world (down_loop db (m # ms) w) = loop_world (down_loop db ms w3)"
        using Returned Resolved by (simp add: Let_def)
      ultimately show ?thesis using extends_trans [OF 3] by simp
    qed
  qed
qed

subsection \<open>The loops\<close>

lemma up_loop_append:
  "up_loop db pre w = Completed w1 \<Longrightarrow> up_loop db (pre @ post) w = up_loop db post w1"
proof (induction pre arbitrary: w)
  case Nil
  then show ?case by simp
next
  case (Cons m pre)
  then show ?case
    by (auto simp: Let_def split: fn_result.splits run.splits)
qed

lemma down_loop_append:
  "down_loop db pre w = Completed w1 \<Longrightarrow> down_loop db (pre @ post) w = down_loop db post w1"
proof (induction pre arbitrary: w)
  case Nil
  then show ?case by simp
next
  case (Cons m pre)
  then show ?case
    by (auto simp: Let_def split: fn_result.splits run.splits)
qed

lemma up_loop_Completed_trace:
  "up_loop db ms w = Completed w' \<Longrightarrow>
     trace w' = trace w @ concat (map (\<lambda>m. [LogInfo [''up'', c_timestamp m, c_name m],
                                            InvokeUp (c_filename m),
                                            Insert MIGRATION_TABLE_NAME (c_name m) (c_timestamp m)]) ms)
     \<and> pool w' = pool w"
proof (induction ms arbitrary: w)
  case Nil
  then show ?case by simp
next
  case (Cons m ms)
  let ?w2 = "emit (InvokeUp (c_filename m)) (logInfo [''up'', c_timestamp m, c_name m] w)"
  from Cons.prems obtain s w3 where
    q: "query (Insert MIGRATION_TABLE_NAME (c_name m) (c_timestamp m))
          (insert_row db MIGRATION_TABLE_NAME (c_name m) (c_timestamp m)) (?w2\<lparr>srv := s\<rparr>)
        = Resolved w3"
    and rest: "up_loop db ms w3 = Completed w'"
    by (auto simp: Let_def split: fn_result.splits run.splits)
  from query_Resolved [OF q] have
    "trace w3 = trace w @ [LogInfo [''up'', c_timestamp m, c_name m], InvokeUp (c_filename m),
        Insert MIGRATION_TABLE_NAME (c_name m) (c_timestamp m)]"
    and "pool w3 = pool w"
    by (auto simp: emit_def logInfo_def)
  with Cons.IH [OF rest] show ?case by simp
qed

lemma down_loop_Completed_trace:
  "down_loop db ms w = Completed w' \<Longrightarrow>
     trace w' = trace w @ concat (map (\<lambda>m. [LogInfo [''down'', m_timestamp m, m_name m],
                                            InvokeDown (d_filename m),
                                            Delete MIGRATION_TABLE_NAME (m_id m)]) ms)
     \<and> pool w' = pool w"
proof (induction ms arbitrary: w)
  case Nil
  then show ?case by simp
next
  case (Cons m ms)
  let ?w2 = "emit (InvokeDown (d_filename m)) (logInfo [''down'', m_timestamp m, m_name m] w)"
  from Cons.prems obtain s w3 where
    q: "query (Delete MIGRATION_TABLE_NAME (m_id m))
          (delete_row db MIGRATION_TABLE_NAME (m_id m)) (?w2\<lparr>srv := s\<rparr>)
        = Resolved w3"
    and rest: "down_loop db ms w3 = Completed w'"
    by (auto simp: Let_def split: fn_result.splits run.splits)
  from query_Resolved [OF q] have
    "trace w3 = trace w @ [LogInfo [''down'', m_timestamp m, m_name m], InvokeDown (d_filename m),
        Delete MIGRATION_TABLE_NAME (m_id m)]"
    and "pool w3 = pool w"
    by (auto simp: emit_def logInfo_def)
  with Cons.IH [OF rest] show ?case by simp
qed

lemma up_loop_throw:
  "code_up (u_code m) (srv w) = Threw e s \<Longrightarrow>
     up_loop db (m # post) w =
       Halted (w\<lparr>srv := s,
                trace := trace w @ [LogInfo [''up'', c_timestamp m, c_name m],
                                    InvokeUp (c_filename m),
                                    LogError (''Migration failed: '' @ c_name m) e]\<rparr>)"
  by (simp add: Let_def logInfo_def logError_def emit_def)

lemma down_loop_throw:
  "code_down (d_code m) (srv w) = Threw e s \<Longrightarrow>
     down_loop db (m # post) w =
       Halted (w\<lparr>srv := s,
                trace := trace w @ [LogInfo [''down'', m_timestamp m, m_name m],
                                    InvokeDown (d_filename m),
                                    LogError (''Migration failed: '' @ m_name m) e]\<rparr>)"
  by (simp add: Let_def logInfo_def logError_def emit_def)

subsection \<open>up and down, unfolded\<close>

lemma up_unfold:
  assumes "connectToDb (nconf_db env) w = Resolved w1"
    and "orderBy_timestamp (nconf_db env) MIGRATION_TABLE_NAME (srv w1) = Inr L"
    and "getMigrationsExcept env (latest_of L) (rootDir_of env params)
           (if p_all params = Some True then - 1 else 1)
           (emit (OrderBy MIGRATION_TABLE_NAME ''timestamp'') w1) = Inr (ms, w3)"
  shows "up env params w =
           (if ms = [] then ExitNoNew (logInfo [''No new migrations''] w3)
            else case up_loop (nconf_db env) ms w3 of
                   Halted w4 \<Rightarrow> ExitHalted w4
                 | Broken e w4 \<Rightarrow> ExitRejected e w4
                 | Completed w4 \<Rightarrow> ExitDone (logInfo [''Migration Successful''] w4))"
proof -
  have "length ms < 1 \<longleftrightarrow> ms = []" by (cases ms) simp_all
  with assms show ?thesis
    by (simp add: up_def getConfig_def Let_def emit_def)
qed

lemma down_unfold:
  assumes "connectToDb (nconf_db env) w = Resolved w1"
    and "orderBy_timestamp (nconf_db env) MIGRATION_TABLE_NAME (srv w1) = Inr L"
  shows "down env params w =
           (if L = [] then ExitNoNew (logInfo [''No new migrations'']
                              (emit (OrderBy MIGRATION_TABLE_NAME ''timestamp'') w1))
            else case requireMigrations env (migrationsToRollBack (p_all params) L)
                        (rootDir_of env params)
                        (emit (OrderBy MIGRATION_TABLE_NAME ''timestamp'') w1) of
                   Inl (e, w3) \<Rightarrow> ExitRejected e w3
                 | Inr (ms, w3) \<Rightarrow>
                     (case down_loop (nconf_db env) ms w3 of
                        Halted w4 \<Rightarrow> ExitHalted w4
                      | Broken e w4 \<Rightarrow> ExitRejected e w4
                      | Completed w4 \<Rightarrow> ExitDone (logInfo [''Migration successful''] w4)))"
  using assms by (simp add: down_def getConfig_def Let_def emit_def)

lemma up_fail_fast:
  assumes c: "connectToDb (nconf_db env) w = Resolved w1"
    and o: "orderBy_timestamp (nconf_db env) MIGRATION_TABLE_NAME (srv w1) = Inr L"
    and g: "getMigrationsExcept env (latest_of L) (rootDir_of env params)
           (if p_all params = Some True then - 1 else 1)
           (emit (OrderBy MIGRATION_TABLE_NAME ''timestamp'') w1) = Inr (pre @ m # post, w3)"
    and l: "up_loop (nconf_db env) pre w3 = Completed w4"
    and t: "code_up (u_code m) (srv w4) = Threw e s"
  shows "up env params w =
           ExitHalted (w4\<lparr>srv := s,
                trace := trace w4 @ [LogInfo [''up'', c_timestamp m, c_name m],
                                     InvokeUp (c_filename m),
                                     LogError (''Migration failed: '' @ c_name m) e]\<rparr>)"
proof -
  have "up_loop (nconf_db env) (pre @ m # post) w3 = up_loop (nconf_db env) (m # post) w4"
    by (rule up_loop_append [OF l])
  also note up_loop_throw [OF t]
  finally show ?thesis
    by (simp add: up_unfold [OF c o g])
qed

lemma down_fail_fast:
  assumes c: "connectToDb (nconf_db env) w = Resolved w1"
    and o: "orderBy_timestamp (nconf_db env) MIGRATION_TABLE_NAME (srv w1) = Inr L"
    and n: "L \<noteq> []"
    and g: "requireMigrations env (migrationsToRollBack (p_all params) L) (rootDir_of env params)
           (emit (OrderBy MIGRATION_TABLE_NAME ''timestamp'') w1) = Inr (pre @ m # post, w3)"
    and l: "down_loop (nconf_db env) pre w3 = Completed w4"
    and t: "code_down (d_code m) (srv w4) = Threw e s"
  shows "down env params w =
           ExitHalted (w4\<lparr>srv := s,
                trace := trace w4 @ [LogInfo [''down'', m_timestamp m, m_name m],
                                     InvokeDown (d_filename m),
                                     LogError (''Migration failed: '' @ m_name m) e]\<rparr>)"
proof -
  have "down_loop (nconf_db env) (pre @ m # post) w3 = down_loop (nconf_db env) (m # post) w4"
    by (rule down_loop_append [OF l])
  also note down_loop_throw [OF t]
  finally show ?thesis
    using n by (simp add: down_unfold [OF c o] g)
qed

text \<open>
  Claim C2. Let the planned batch be \<open>pre @ m # post\<close>, let the procedures of \<open>pre\<close> have
  returned and their ledger writes succeeded, and let the procedure of \<open>m\<close> throw the
  error \<open>e\<close>, leaving the server in state \<open>s\<close>. Then the run ends at the \<^verbatim>\<open>return\<close> of the
  \<^verbatim>\<open>catch\<close> block (the promise resolves, nothing is rethrown); after the events of \<open>pre\<close>
  (for each migration its progress line, the call of its procedure and its ledger
  write, in order) the trace holds only the progress line of \<open>m\<close>, the call of its
  procedure and the error line \<^verbatim>\<open>Migration failed: <name of m>\<close> with \<open>e\<close>: there is no
  ledger write for \<open>m\<close> and no event at all for \<open>post\<close>; and the server is left as the
  failed procedure left it. This holds for \<^verbatim>\<open>up\<close> (inserts) and \<^verbatim>\<open>down\<close> (deletes).
\<close>

theorem fail_fast:
  "(connectToDb (nconf_db env) w = Resolved w1 \<longrightarrow>
    orderBy_timestamp (nconf_db env) MIGRATION_TABLE_NAME (srv w1) = Inr L \<longrightarrow>
    getMigrationsExcept env (latest_of L) (rootDir_of env params)
        (if p_all params = Some True then - 1 else 1)
        (emit (OrderBy MIGRATION_TABLE_NAME ''timestamp'') w1) = Inr (pre @ m # post, w3) \<longrightarrow>
    up_loop (nconf_db env) pre w3 = Completed w4 \<longrightarrow>
    code_up (u_code m) (srv w4) = Threw e s \<longrightarrow>
      up env params w =
        ExitHalted (w4\<lparr>srv := s,
             trace := trace w4 @ [LogInfo [''up'', c_timestamp m, c_name m],
                                  InvokeUp (c_filename m),
                                  LogError (''Migration failed: '' @ c_name m) e]\<rparr>)
      \<and> trace w4 = trace w3 @ concat (map (\<lambda>m. [LogInfo [''up'', c_timestamp m, c_name m],
                                            InvokeUp (c_filename m),
                                            Insert MIGRATION_TABLE_NAME (c_name m) (c_timestamp m)]) pre))
   \<and> (connectToDb (nconf_db env) v = Resolved v1 \<longrightarrow>
    orderBy_timestamp (nconf_db env) MIGRATION_TABLE_NAME (srv v1) = Inr K \<longrightarrow>
    K \<noteq> [] \<longrightarrow>
    requireMigrations env (migrationsToRollBack (p_all params') K) (rootDir_of env params')
        (emit (OrderBy MIGRATION_TABLE_NAME ''timestamp'') v1) = Inr (pre' @ m' # post', v3) \<longrightarrow>
    down_loop (nconf_db env) pre' v3 = Completed v4 \<longrightarrow>
    code_down (d_code m') (srv v4) = Threw e' s' \<longrightarrow>
      down env params' v =
        ExitHalted (v4\<lparr>srv := s',
             trace := trace v4 @ [LogInfo [''down'', m_timestamp m', m_name m'],
                                  InvokeDown (d_filename m'),
                                  LogError (''Migration failed: '' @ m_name m') e']\<rparr>)
      \<and> trace v4 = trace v3 @ concat (map (\<lambda>m. [LogInfo [''down'', m_timestamp m, m_name m],
                                            InvokeDown (d_filename m),
                                            Delete MIGRATION_TABLE_NAME (m_id m)]) pre'))"
proof (intro conjI impI)
  assume "connectToDb (nconf_db env) w = Resolved w1"
    and "orderBy_timestamp (nconf_db env) MIGRATION_TABLE_NAME (srv w1) = Inr L"
    and "getMigrationsExcept env (latest_of L) (rootDir_of env params)
        (if p_all params = Some True then - 1 else 1)
        (emit (OrderBy MIGRATION_TABLE_NAME ''timestamp'') w1) = Inr (pre @ m # post, w3)"
    and "up_loop (nconf_db env) pre w3 = Completed w4"
    and "code_up (u_code m) (srv w4) = Threw e s"
  then show "up env params w =
        ExitHalted (w4\<lparr>srv := s,
             trace := trace w4 @ [LogInfo [''up'', c_timestamp m, c_name m],
                                  InvokeUp (c_filename m),
                                  LogError (''Migration failed: '' @ c_name m) e]\<rparr>)"
    by (rule up_fail_fast)
next
  assume "up_loop (nconf_db env) pre w3 = Completed w4"
  from up_loop_Completed_trace [OF this]
  show "trace w4 = trace w3 @ concat (map (\<lambda>m. [LogInfo [''up'', c_timestamp m, c_name m],
                                            InvokeUp (c_filename m),
                                            Insert MIGRATION_TABLE_NAME (c_name m) (c_timestamp m)]) pre)"
    by (rule conjunct1)
next
  assume "connectToDb (nconf_db env) v = Resolved v1"
    and "orderBy_timestamp (nconf_db env) MIGRATION_TABLE_NAME (srv v1) = Inr K"
    and "K \<noteq> []"
    and "requireMigrations env (migrationsToRollBack (p_all params') K) (rootDir_of env params')
        (emit (OrderBy MIGRATION_TABLE_NAME ''timestamp'') v1) = Inr (pre' @ m' # post', v3)"
    and "down_loop (nconf_db env) pre' v3 = Completed v4"
    and "code_down (d_code m') (srv v4) = Threw e' s'"
  then show "down env params' v =
        ExitHalted (v4\<lparr>srv := s',
             trace := trace v4 @ [LogInfo [''down'', m_timestamp m', m_name m'],
                                  InvokeDown (d_filename m'),
                                  LogError (''Migration failed: '' @ m_name m') e']\<rparr>)"
    by (rule down_fail_fast)
next
  assume "down_loop (nconf_db env) pre' v3 = Completed v4"
  from down_loop_Completed_trace [OF this]
  show "trace v4 = trace v3 @ concat (map (\<lambda>m. [LogInfo [''down'', m_timestamp m, m_name m],
                                            InvokeDown (d_filename m),
                                            Delete MIGRATION_TABLE_NAME (m_id m)]) pre')"
    by (rule conjunct1)
qed

lemma plan_abc_all:
  "migrationsToApply (latest_of []) (- 1) files_abc
     = [\<lparr>c_name = ''a'', c_timestamp = ''20230101000000'', c_filename = ''20230101000000-a.ts''\<rparr>,
        \<lparr>c_name = ''b'', c_timestamp = ''20230102000000'', c_filename = ''20230102000000-b.ts''\<rparr>,
        \<lparr>c_name = ''c'', c_timestamp = ''20230103000000'', c_filename = ''20230103000000-c.ts''\<rparr>]"
  by code_simp

theorem fail_fast_witness:
  "up (demo_env files_abc b_fails) \<lparr>p_root = None, p_all = Some True\<rparr> w_fresh =
     ExitHalted
       \<lparr>srv = [(''test'', [(''_migrations'',
          \<lparr>rows = [\<lparr>m_id = ''u'', m_name = ''a'', m_timestamp = ''20230101000000''\<rparr>],
           indexes = [''timestamp'']\<rparr>)])],
        pool = True,
        trace = [ConnectPool, DbList, DbCreate ''test'', TableList, TableCreate ''_migrations'',
                 IndexCreate ''_migrations'' ''timestamp'', IndexWait ''_migrations'',
                 WaitReadyForWrites ''test'', OrderBy ''_migrations'' ''timestamp'',
                 ReadDir ''/app/migrations'',
                 Require ''/app/migrations/20230101000000-a.ts'',
                 Require ''/app/migrations/20230102000000-b.ts'',
                 Require ''/app/migrations/20230103000000-c.ts'',
                 LogInfo [''up'', ''20230101000000'', ''a''],
                 InvokeUp ''20230101000000-a.ts'',
                 Insert ''_migrations'' ''a'' ''20230101000000'',
                 LogInfo [''up'', ''20230102000000'', ''b''],
                 InvokeUp ''20230102000000-b.ts'',
                 LogError ''Migration failed: b'' ''boom'']\<rparr>
   \<and> down (demo_env files_abc b_fails) \<lparr>p_root = None, p_all = Some True\<rparr> w_applied =
     ExitHalted
       \<lparr>srv = [(''test'', [(''_migrations'',
          \<lparr>rows = [\<lparr>m_id = ''u'', m_name = ''a'', m_timestamp = ''20230101000000''\<rparr>,
                    \<lparr>m_id = ''uu'', m_name = ''b'', m_timestamp = ''20230102000000''\<rparr>],
           indexes = [''timestamp'']\<rparr>)])],
        pool = True,
        trace = [ConnectPool, DbList, TableList, WaitReadyForWrites ''test'',
                 OrderBy ''_migrations'' ''timestamp'',
                 Require ''/app/migrations/20230103000000-c'',
                 Require ''/app/migrations/20230102000000-b'',
                 Require ''/app/migrations/20230101000000-a'',
                 LogInfo [''down'', ''20230103000000'', ''c''],
                 InvokeDown ''20230103000000-c'', Delete ''_migrations'' ''uuu'',
                 LogInfo [''down'', ''20230102000000'', ''b''],
                 InvokeDown ''20230102000000-b'',
                 LogError ''Migration failed: b'' ''boom'']\<rparr>"
proof -
  let ?env = "demo_env files_abc b_fails"
  let ?params = "\<lparr>p_root = None, p_all = Some True\<rparr>"
  have db: "nconf_db ?env = ''test''" and root: "rootDir_of ?env ?params = ''/app''"
    by (simp_all add: demo_env_def rootDir_of_def)
  \<comment> \<open>up: a is applied, b throws, c is never reached\<close>
  let ?s1 = "[(''test'', [(''_migrations'', \<lparr>rows = [], indexes = [''timestamp'']\<rparr>)])]"
  let ?t1 = "[ConnectPool, DbList, DbCreate ''test'', TableList, TableCreate ''_migrations'',
              IndexCreate ''_migrations'' ''timestamp'', IndexWait ''_migrations'',
              WaitReadyForWrites ''test'']"
  let ?w1 = "\<lparr>srv = ?s1, pool = True, trace = ?t1\<rparr>"
  let ?t3 = "?t1 @ [OrderBy ''_migrations'' ''timestamp'', ReadDir ''/app/migrations'',
              Require ''/app/migrations/20230101000000-a.ts'',
              Require ''/app/migrations/20230102000000-b.ts'',
              Require ''/app/migrations/20230103000000-c.ts'']"
  let ?w3 = "\<lparr>srv = ?s1, pool = True, trace = ?t3\<rparr>"
  let ?s4 = "[(''test'', [(''_migrations'',
          \<lparr>rows = [\<lparr>m_id = ''u'', m_name = ''a'', m_timestamp = ''20230101000000''\<rparr>],
           indexes = [''timestamp'']\<rparr>)])]"
  let ?w4 = "\<lparr>srv = ?s4, pool = True,
             trace = ?t3 @ [LogInfo [''up'', ''20230101000000'', ''a''],
                 InvokeUp ''20230101000000-a.ts'',
                 Insert ''_migrations'' ''a'' ''20230101000000'']\<rparr>"
  let ?a = "\<lparr>c_name = ''a'', c_timestamp = ''20230101000000'',
             c_filename = ''20230101000000-a.ts'', u_code = noop\<rparr>"
  let ?b = "\<lparr>c_name = ''b'', c_timestamp = ''20230102000000'',
             c_filename = ''20230102000000-b.ts'', u_code = failing\<rparr>"
  let ?c = "\<lparr>c_name = ''c'', c_timestamp = ''20230103000000'',
             c_filename = ''20230103000000-c.ts'', u_code = noop\<rparr>"
  have c: "connectToDb (nconf_db ?env) w_fresh = Resolved ?w1"
    unfolding db by code_simp
  have o: "orderBy_timestamp (nconf_db ?env) MIGRATION_TABLE_NAME (srv ?w1) = Inr []"
    unfolding db by code_simp
  have g: "getMigrationsExcept ?env (latest_of []) (rootDir_of ?env ?params)
        (if p_all ?params = Some True then - 1 else 1)
        (emit (OrderBy MIGRATION_TABLE_NAME ''timestamp'') ?w1) = Inr ([?a] @ ?b # [?c], ?w3)"
    unfolding root
    by (simp add: getMigrationsExcept_def demo_env_def plan_abc_all b_fails_def emit_def
        with_code_def MIGRATION_TABLE_NAME_def files_abc_def [symmetric])
  have l: "up_loop (nconf_db ?env) [?a] ?w3 = Completed ?w4"
    unfolding db by code_simp
  have t: "code_up (u_code ?b) (srv ?w4) = Threw ''boom'' ?s4"
    by (simp add: failing_def)
  note U = fail_fast [THEN conjunct1, rule_format, OF c o g l t, THEN conjunct1]
  \<comment> \<open>down: c is rolled back, b throws, a is never reached\<close>
  let ?ra = "\<lparr>m_id = ''u'', m_name = ''a'', m_timestamp = ''20230101000000''\<rparr>"
  let ?rb = "\<lparr>m_id = ''uu'', m_name = ''b'', m_timestamp = ''20230102000000''\<rparr>"
  let ?rc = "\<lparr>m_id = ''uuu'', m_name = ''c'', m_timestamp = ''20230103000000''\<rparr>"
  let ?r1 = "[(''test'', [(''_migrations'', \<lparr>rows = [?ra, ?rb, ?rc], indexes = [''timestamp'']\<rparr>)])]"
  let ?u1 = "[ConnectPool, DbList, TableList, WaitReadyForWrites ''test'']"
  let ?v1 = "\<lparr>srv = ?r1, pool = True, trace = ?u1\<rparr>"
  let ?u3 = "?u1 @ [OrderBy ''_migrations'' ''timestamp'',
                 Require ''/app/migrations/20230103000000-c'',
                 Require ''/app/migrations/20230102000000-b'',
                 Require ''/app/migrations/20230101000000-a'']"
  let ?v3 = "\<lparr>srv = ?r1, pool = True, trace = ?u3\<rparr>"
  let ?r4 = "[(''test'', [(''_migrations'', \<lparr>rows = [?ra, ?rb], indexes = [''timestamp'']\<rparr>)])]"
  let ?v4 = "\<lparr>srv = ?r4, pool = True,
             trace = ?u3 @ [LogInfo [''down'', ''20230103000000'', ''c''],
                 InvokeDown ''20230103000000-c'', Delete ''_migrations'' ''uuu'']\<rparr>"
  let ?da = "\<lparr>m_id = ''u'', m_name = ''a'', m_timestamp = ''20230101000000'',
              d_filename = ''20230101000000-a'', d_code = noop\<rparr>"
  let ?db = "\<lparr>m_id = ''uu'', m_name = ''b'', m_timestamp = ''20230102000000'',
              d_filename = ''20230102000000-b'', d_code = failing\<rparr>"
  let ?dc = "\<lparr>m_id = ''uuu'', m_name = ''c'', m_timestamp = ''20230103000000'',
              d_filename = ''20230103000000-c'', d_code = noop\<rparr>"
  have c': "connectToDb (nconf_db ?env) w_applied = Resolved ?v1"
    unfolding db by code_simp
  have o': "orderBy_timestamp (nconf_db ?env) MIGRATION_TABLE_NAME (srv ?v1) = Inr [?ra, ?rb, ?rc]"
    unfolding db by code_simp
  have n': "[?ra, ?rb, ?rc] \<noteq> []" by simp
  have g': "requireMigrations ?env (migrationsToRollBack (p_all ?params) [?ra, ?rb, ?rc])
        (rootDir_of ?env ?params)
        (emit (OrderBy MIGRATION_TABLE_NAME ''timestamp'') ?v1) = Inr ([?dc] @ ?db # [?da], ?v3)"
    unfolding root
    by (simp add: migrationsToRollBack_def demo_env_def b_fails_def emit_def Let_def
        MIGRATION_TABLE_NAME_def)
  have l': "down_loop (nconf_db ?env) [?dc] ?v3 = Completed ?v4"
    unfolding db by code_simp
  have t': "code_down (d_code ?db) (srv ?v4) = Threw ''boom'' ?r4"
    by (simp add: failing_def)
  note D = fail_fast [THEN conjunct2, rule_format, OF c' o' n' g' l' t', THEN conjunct1]
  from U D show ?thesis by simp
qed

subsection \<open>What a whole run appends to the trace\<close>

lemma connect_total:
  "\<exists>evs w1. connectToDb db w = Resolved w1
      \<and> trace w1 = trace w @ evs @ [WaitReadyForWrites db]
      \<and> list_all (\<lambda>e. \<not> is_ledger_op e) evs \<and> pool w1"
proof (cases "map_of (srv w) db")
  case None
  from connect_no_db [OF None] show ?thesis
    by (intro exI [where x = "[ConnectPool, DbList, DbCreate db, TableList,
          TableCreate MIGRATION_TABLE_NAME, IndexCreate MIGRATION_TABLE_NAME ''timestamp'',
          IndexWait MIGRATION_TABLE_NAME]"]) simp
next
  case (Some d)
  show ?thesis
  proof (cases "map_of d MIGRATION_TABLE_NAME")
    case None
    from connect_no_table [OF Some None] show ?thesis
      by (intro exI [where x = "[ConnectPool, DbList, TableList,
          TableCreate MIGRATION_TABLE_NAME, IndexCreate MIGRATION_TABLE_NAME ''timestamp'',
          IndexWait MIGRATION_TABLE_NAME]"]) simp
  next
    case (Some tb)
    with \<open>map_of (srv w) db = Some d\<close> have "get_table db MIGRATION_TABLE_NAME (srv w) = Inr tb"
      by (simp add: get_table_Inr)
    from connect_existing [OF this] show ?thesis
      by (intro exI [where x = "[ConnectPool, DbList, TableList]"]) simp
  qed
qed

lemma up_extends_after_plan:
  assumes "connectToDb (nconf_db env) w = Resolved w1"
    and "orderBy_timestamp (nconf_db env) MIGRATION_TABLE_NAME (srv w1) = Inr L"
    and "getMigrationsExcept env (latest_of L) (rootDir_of env params)
           (if p_all params = Some True then - 1 else 1)
           (emit (OrderBy MIGRATION_TABLE_NAME ''timestamp'') w1) = Inr (ms, w3)"
  shows "extends (\<lambda>e. up_event_of ms e \<or> (\<exists>a. e = LogInfo a)) w3 (exit_world (up env params w))"
proof -
  let ?P = "\<lambda>e. up_event_of ms e \<or> (\<exists>a. e = LogInfo a)"
  note u = up_unfold [OF assms]
  show ?thesis
  proof (cases "ms = []")
    case True
    then have "exit_world (up env params w) = logInfo [''No new migrations''] w3"
      by (simp add: u)
    moreover have "extends ?P w3 (logInfo [''No new migrations''] w3)"
      unfolding logInfo_def by (rule extends_emit) blast
    ultimately show ?thesis by simp
  next
    case False
    have l: "extends ?P w3 (loop_world (up_loop (nconf_db env) ms w3))"
      by (rule extends_mono [OF up_loop_extends]) blast
    show ?thesis
    proof (cases "up_loop (nconf_db env) ms w3")
      case (Completed w4)
      with False have x: "exit_world (up env params w) = logInfo [''Migration Successful''] w4"
        by (simp add: u)
      have f: "extends ?P w4 (logInfo [''Migration Successful''] w4)"
        unfolding logInfo_def by (rule extends_emit) blast
      from l Completed have "extends ?P w3 w4" by simp
      from extends_trans [OF this f] show ?thesis by (simp only: x)
    next
      case (Halted w4)
      with False have "exit_world (up env params w) = w4" by (simp add: u)
      with l Halted show ?thesis by simp
    next
      case (Broken e w4)
      with False have "exit_world (up env params w) = w4" by (simp add: u)
      with l Broken show ?thesis by simp
    qed
  qed
qed

lemma up_event_writes_no_file: "up_event_of ms e \<Longrightarrow> \<not> writes_file e"
  by (cases e) simp_all

lemma down_event_writes_no_file: "down_event_of ms e \<Longrightarrow> \<not> writes_file e"
  by (cases e) simp_all

lemma up_extends_after_connect:
  assumes c: "connectToDb (nconf_db env) w = Resolved w1"
  shows "extends (\<lambda>e. \<not> writes_file e) w1 (exit_world (up env params w))"
proof -
  let ?w2 = "emit (OrderBy MIGRATION_TABLE_NAME ''timestamp'') w1"
  have 2: "extends (\<lambda>e. \<not> writes_file e) w1 ?w2" by (rule extends_emit) simp
  show ?thesis
  proof (cases "orderBy_timestamp (nconf_db env) MIGRATION_TABLE_NAME (srv w1)")
    case (Inl e)
    with c have "exit_world (up env params w) = ?w2"
      by (simp add: up_def getConfig_def Let_def emit_def)
    with 2 show ?thesis by simp
  next
    case (Inr L)
    let ?g = "getMigrationsExcept env (latest_of L) (rootDir_of env params)
           (if p_all params = Some True then - 1 else 1) ?w2"
    have 3: "extends (\<lambda>e. \<not> writes_file e) ?w2 (load_world ?g)"
      by (rule extends_mono [OF getMigrationsExcept_extends]) auto
    show ?thesis
    proof (cases ?g)
      case (Inl x)
      then obtain e w3 where x: "?g = Inl (e, w3)" by (cases x) simp
      with c Inr have "exit_world (up env params w) = w3"
        by (simp add: up_def getConfig_def Let_def emit_def)
      with 3 x have "extends (\<lambda>e. \<not> writes_file e) ?w2 (exit_world (up env params w))" by simp
      with 2 show ?thesis by (rule extends_trans)
    next
      case (Inr y)
      then obtain ms w3 where y: "?g = Inr (ms, w3)" by (cases y) simp
      have a: "extends (\<lambda>e. \<not> writes_file e) w3 (exit_world (up env params w))"
        by (rule extends_mono [OF up_extends_after_plan [OF c \<open>orderBy_timestamp _ _ _ = Inr L\<close> y]])
          (auto dest: up_event_writes_no_file)
      from 3 y have b: "extends (\<lambda>e. \<not> writes_file e) ?w2 w3" by simp
      show ?thesis by (rule extends_trans [OF 2 extends_trans [OF b a]])
    qed
  qed
qed

lemma down_extends_after_connect:
  assumes c: "connectToDb (nconf_db env) w = Resolved w1"
  shows "extends (\<lambda>e. \<not> writes_file e) w1 (exit_world (down env params w))"
proof -
  let ?w2 = "emit (OrderBy MIGRATION_TABLE_NAME ''timestamp'') w1"
  have 2: "extends (\<lambda>e. \<not> writes_file e) w1 ?w2" by (rule extends_emit) simp
  show ?thesis
  proof (cases "orderBy_timestamp (nconf_db env) MIGRATION_TABLE_NAME (srv w1)")
    case (Inl e)
    with c have "exit_world (down env params w) = ?w2"
      by (simp add: down_def getConfig_def Let_def emit_def)
    with 2 show ?thesis by simp
  next
    case (Inr L)
    note u = down_unfold [OF c Inr]
    show ?thesis
    proof (cases "L = []")
      case True
      then have x: "exit_world (down env params w) = logInfo [''No new migrations''] ?w2"
        by (simp add: u)
      have f: "extends (\<lambda>e. \<not> writes_file e) ?w2 (logInfo [''No new migrations''] ?w2)"
        unfolding logInfo_def by (rule extends_emit) simp
      from extends_trans [OF 2 f] show ?thesis by (simp only: x)
    next
      case False
      let ?g = "requireMigrations env (migrationsToRollBack (p_all params) L)
                  (rootDir_of env params) ?w2"
      have 3: "extends (\<lambda>e. \<not> writes_file e) ?w2 (load_world ?g)"
        by (rule extends_mono [OF requireMigrations_extends]) auto
      show ?thesis
      proof (cases ?g)
        case (Inl x)
        then obtain e w3 where x: "?g = Inl (e, w3)" by (cases x) simp
        with False have "exit_world (down env params w) = w3" by (simp add: u)
        with 3 x have "extends (\<lambda>e. \<not> writes_file e) ?w2 (exit_world (down env params w))" by simp
        with 2 show ?thesis by (rule extends_trans)
      next
        case (Inr y)
        then obtain ms w3 where y: "?g = Inr (ms, w3)" by (cases y) simp
        have l: "extends (\<lambda>e. \<not> writes_file e) w3 (loop_world (down_loop (nconf_db env) ms w3))"
          by (rule extends_mono [OF down_loop_extends]) (rule down_event_writes_no_file)
        have a: "extends (\<lambda>e. \<not> writes_file e) w3 (exit_world (down env params w))"
        proof (cases "down_loop (nconf_db env) ms w3")
          case (Completed w4)
          with False y have x: "exit_world (down env params w) = logInfo [''Migration successful''] w4"
            by (simp add: u)
          have f: "extends (\<lambda>e. \<not> writes_file e) w4 (logInfo [''Migration successful''] w4)"
            unfolding logInfo_def by (rule extends_emit) simp
          from l Completed have "extends (\<lambda>e. \<not> writes_file e) w3 w4" by simp
          from extends_trans [OF this f] show ?thesis by (simp only: x)
        next
          case (Halted w4)
          with False y have "exit_world (down env params w) = w4" by (simp add: u)
          with l Halted show ?thesis by simp
        next
          case (Broken e w4)
          with False y have "exit_world (down env params w) = w4" by (simp add: u)
          with l Broken show ?thesis by simp
        qed
        from 3 y have b: "extends (\<lambda>e. \<not> writes_file e) ?w2 w3" by simp
        show ?thesis by (rule extends_trans [OF 2 extends_trans [OF b a]])
      qed
    qed
  qed
qed

lemma up_waits_first:
  "\<exists>evs rest. trace (exit_world (up env params w))
        = trace w @ evs @ WaitReadyForWrites (nconf_db env) # rest
      \<and> list_all (\<lambda>e. \<not> is_ledger_op e) evs"
proof -
  from connect_total [of "nconf_db env" w] obtain evs w1 where
    c: "connectToDb (nconf_db env) w = Resolved w1"
    and t: "trace w1 = trace w @ evs @ [WaitReadyForWrites (nconf_db env)]"
    and l: "list_all (\<lambda>e. \<not> is_ledger_op e) evs"
    by blast
  from up_extends_after_connect [OF c, of params] obtain rest where
    "trace (exit_world (up env params w)) = trace w1 @ rest"
    by (auto simp: extends_def)
  with t have "trace (exit_world (up env params w))
      = trace w @ evs @ WaitReadyForWrites (nconf_db env) # rest"
    by simp
  with l show ?thesis by blast
qed

lemma down_waits_first:
  "\<exists>evs rest. trace (exit_world (down env params w))
        = trace w @ evs @ WaitReadyForWrites (nconf_db env) # rest
      \<and> list_all (\<lambda>e. \<not> is_ledger_op e) evs"
proof -
  from connect_total [of "nconf_db env" w] obtain evs w1 where
    c: "connectToDb (nconf_db env) w = Resolved w1"
    and t: "trace w1 = trace w @ evs @ [WaitReadyForWrites (nconf_db env)]"
    and l: "list_all (\<lambda>e. \<not> is_ledger_op e) evs"
    by blast
  from down_extends_after_connect [OF c, of params] obtain rest where
    "trace (exit_world (down env params w)) = trace w1 @ rest"
    by (auto simp: extends_def)
  with t have "trace (exit_world (down env params w))
      = trace w @ evs @ WaitReadyForWrites (nconf_db env) # rest"
    by simp
  with l show ?thesis by blast
qed

text \<open>
  Claim C9, as the code has it. \<^verbatim>\<open>connectToDb\<close> creates the database when it is absent and
  the table when it is absent; the index on \<^verbatim>\<open>timestamp\<close> is created, and waited for,
  exactly when the table is created: the code never asks whether the index exists.
  When the table exists (with or without its index) no create operation runs and the
  server is left as it was. In every case \<^verbatim>\<open>connectToDb\<close> resolves, the wait for
  write-readiness is its last query, and in \<^verbatim>\<open>up\<close> and \<^verbatim>\<open>down\<close> no read or write of the
  ledger table comes before that wait.
\<close>

theorem connectToDb_bootstrap:
  "(get_table db MIGRATION_TABLE_NAME (srv w) = Inr tb \<longrightarrow>
      connectToDb db w =
        Resolved (w\<lparr>pool := True,
                   trace := trace w @ [ConnectPool, DbList, TableList, WaitReadyForWrites db]\<rparr>))
   \<and> (map_of (srv w) db = Some d \<longrightarrow> map_of d MIGRATION_TABLE_NAME = None \<longrightarrow>
      connectToDb db w =
        Resolved (w\<lparr>pool := True,
                   srv := AList.update db
                            (d @ [(MIGRATION_TABLE_NAME, \<lparr>rows = [], indexes = [''timestamp'']\<rparr>)])
                            (srv w),
                   trace := trace w @ [ConnectPool, DbList, TableList,
                                       TableCreate MIGRATION_TABLE_NAME,
                                       IndexCreate MIGRATION_TABLE_NAME ''timestamp'',
                                       IndexWait MIGRATION_TABLE_NAME,
                                       WaitReadyForWrites db]\<rparr>))
   \<and> (map_of (srv w) db = None \<longrightarrow>
      connectToDb db w =
        Resolved (w\<lparr>pool := True,
                   srv := srv w @ [(db, [(MIGRATION_TABLE_NAME,
                                          \<lparr>rows = [], indexes = [''timestamp'']\<rparr>)])],
                   trace := trace w @ [ConnectPool, DbList, DbCreate db, TableList,
                                       TableCreate MIGRATION_TABLE_NAME,
                                       IndexCreate MIGRATION_TABLE_NAME ''timestamp'',
                                       IndexWait MIGRATION_TABLE_NAME,
                                       WaitReadyForWrites db]\<rparr>))
   \<and> (\<exists>evs rest. trace (exit_world (up env params w))
          = trace w @ evs @ WaitReadyForWrites (nconf_db env) # rest
        \<and> list_all (\<lambda>e. \<not> is_ledger_op e) evs)
   \<and> (\<exists>evs rest. trace (exit_world (down env params w))
          = trace w @ evs @ WaitReadyForWrites (nconf_db env) # rest
        \<and> list_all (\<lambda>e. \<not> is_ledger_op e) evs)"
  using connect_existing [of db w tb] connect_no_table [of w db d] connect_no_db [of w db]
    up_waits_first [of env params w] down_waits_first [of env params w]
  by (intro conjI impI) assumption+

text \<open>
  A table without its index is left without it: \<^verbatim>\<open>connectToDb\<close> creates nothing there,
  and the ledger read of \<^verbatim>\<open>up\<close> that follows fails.
\<close>

theorem index_not_created_counterexample:
  "connectToDb ''test'' w_noindex =
     Resolved \<lparr>srv = [(''test'', [(''_migrations'', \<lparr>rows = [], indexes = []\<rparr>)])],
               pool = True,
               trace = [ConnectPool, DbList, TableList, WaitReadyForWrites ''test'']\<rparr>
   \<and> up (demo_env files_abc always_noop) \<lparr>p_root = None, p_all = Some True\<rparr> w_noindex =
     ExitRejected (ReqlError ''Index does not exist'')
       \<lparr>srv = [(''test'', [(''_migrations'', \<lparr>rows = [], indexes = []\<rparr>)])],
        pool = True,
        trace = [ConnectPool, DbList, TableList, WaitReadyForWrites ''test'',
                 OrderBy ''_migrations'' ''timestamp'']\<rparr>"
  by code_simp

theorem connectToDb_bootstrap_witness:
  "connectToDb ''test'' w_applied =
     Resolved (w_applied\<lparr>pool := True,
        trace := trace w_applied @ [ConnectPool, DbList, TableList, WaitReadyForWrites ''test'']\<rparr>)
   \<and> connectToDb ''test'' w_notable =
     Resolved (w_notable\<lparr>pool := True,
        srv := AList.update ''test''
                 ([] @ [(MIGRATION_TABLE_NAME, \<lparr>rows = [], indexes = [''timestamp'']\<rparr>)])
                 (srv w_notable),
        trace := trace w_notable @ [ConnectPool, DbList, TableList,
                                    TableCreate MIGRATION_TABLE_NAME,
                                    IndexCreate MIGRATION_TABLE_NAME ''timestamp'',
                                    IndexWait MIGRATION_TABLE_NAME,
                                    WaitReadyForWrites ''test'']\<rparr>)
   \<and> connectToDb ''test'' w_fresh =
     Resolved (w_fresh\<lparr>pool := True,
        srv := srv w_fresh @ [(''test'', [(MIGRATION_TABLE_NAME,
                                          \<lparr>rows = [], indexes = [''timestamp'']\<rparr>)])],
        trace := trace w_fresh @ [ConnectPool, DbList, DbCreate ''test'', TableList,
                                  TableCreate MIGRATION_TABLE_NAME,
                                  IndexCreate MIGRATION_TABLE_NAME ''timestamp'',
                                  IndexWait MIGRATION_TABLE_NAME,
                                  WaitReadyForWrites ''test'']\<rparr>)"
proof -
  have 1: "get_table ''test'' MIGRATION_TABLE_NAME (srv w_applied)
      = Inr \<lparr>rows = [\<lparr>m_id = ''u'', m_name = ''a'', m_timestamp = ''20230101000000''\<rparr>,
                   \<lparr>m_id = ''uu'', m_name = ''b'', m_timestamp = ''20230102000000''\<rparr>,
                   \<lparr>m_id = ''uuu'', m_name = ''c'', m_timestamp = ''20230103000000''\<rparr>],
          indexes = [''timestamp'']\<rparr>"
    by code_simp
  have 2: "map_of (srv w_notable) ''test'' = Some []"
    and 3: "map_of ([] :: database) MIGRATION_TABLE_NAME = None"
    and 4: "map_of (srv w_fresh) ''test'' = None"
    by (simp_all add: w_notable_def w_fresh_def)
  from connectToDb_bootstrap [THEN conjunct1, rule_format, OF 1]
    connectToDb_bootstrap [THEN conjunct2, THEN conjunct1, rule_format, OF 2 3]
    connectToDb_bootstrap [THEN conjunct2, THEN conjunct2, THEN conjunct1, rule_format, OF 4]
  show ?thesis by (intro conjI)
qed

subsection \<open>Candidates that are not newer than the ledger\<close>

lemma sort_key_last_max:
  assumes "e \<in> set xs"
  shows "f e \<le> f (last (sort_key f xs))"
proof -
  have "sorted (map f (sort_key f xs))" by (rule sorted_sort_key)
  moreover from assms have "e \<in> set (sort_key f xs)" by simp
  ultimately show ?thesis by (rule sorted_last_max)
qed

lemma planned_after_latest:
  assumes run: "getMigrationsExcept env (Some c) root n w = Inr (ms, w')"
    and le: "c_timestamp (parse_filename f) \<le> m_timestamp c"
  shows "up_event_of ms e \<or> (\<exists>a. e = LogInfo a) \<Longrightarrow>
           e \<noteq> InvokeUp f \<and> (\<forall>t nm. e \<noteq> Insert t nm (c_timestamp (parse_filename f)))"
proof (intro conjI allI notI)
  assume ev: "up_event_of ms e \<or> (\<exists>a. e = LogInfo a)" and "e = InvokeUp f"
  then obtain m where m: "m \<in> set ms" and f: "f = c_filename m" by auto
  from planned_member(2) [OF run m] f have "c_timestamp m = c_timestamp (parse_filename f)"
    by simp
  moreover from planned_member(4) [OF run m] have "m_timestamp c < c_timestamp m" by simp
  ultimately show False using le by simp
next
  fix t nm
  assume ev: "up_event_of ms e \<or> (\<exists>a. e = LogInfo a)"
    and "e = Insert t nm (c_timestamp (parse_filename f))"
  then obtain m where m: "m \<in> set ms" and f: "c_timestamp (parse_filename f) = c_timestamp m"
    by auto
  from planned_member(4) [OF run m] have "m_timestamp c < c_timestamp m" by simp
  with f show False using le by simp
qed

text \<open>
  Claim C7. Let the ledger hold an entry whose timestamp is at least that of the file
  name \<open>f\<close> (so the timestamp of \<open>f\<close> is at most that of the latest entry). Then, however
  the call of \<^verbatim>\<open>up\<close> ends, it neither calls the forward procedure of \<open>f\<close> nor inserts a
  ledger entry with the timestamp of \<open>f\<close>, whether or not the ledger has an entry for \<open>f\<close>.
\<close>

theorem older_candidates_never_run:
  assumes tb: "get_table (nconf_db env) MIGRATION_TABLE_NAME (srv w) = Inr tb"
    and en: "entry \<in> set (rows tb)"
    and le: "c_timestamp (parse_filename f) \<le> m_timestamp entry"
  shows "\<exists>evs. trace (exit_world (up env params w)) = trace w @ evs
           \<and> InvokeUp f \<notin> set evs
           \<and> (\<forall>t nm. Insert t nm (c_timestamp (parse_filename f)) \<notin> set evs)"
proof -
  let ?ts = "c_timestamp (parse_filename f)"
  let ?Q = "\<lambda>e. e \<noteq> InvokeUp f \<and> (\<forall>t nm. e \<noteq> Insert t nm ?ts)"
  let ?db = "nconf_db env"
  let ?w1 = "w\<lparr>pool := True,
               trace := trace w @ [ConnectPool, DbList, TableList, WaitReadyForWrites ?db]\<rparr>"
  let ?w2 = "emit (OrderBy MIGRATION_TABLE_NAME ''timestamp'') ?w1"
  have c: "connectToDb ?db w = Resolved ?w1" by (rule connect_existing [OF tb])
  have 2: "extends ?Q w ?w2"
    by (rule extends_explicit [where evs = "[ConnectPool, DbList, TableList,
          WaitReadyForWrites ?db, OrderBy MIGRATION_TABLE_NAME ''timestamp'']"])
      (simp_all add: emit_def)
  have "extends ?Q w (exit_world (up env params w))"
  proof (cases "orderBy_timestamp ?db MIGRATION_TABLE_NAME (srv ?w1)")
    case (Inl e)
    with c have "exit_world (up env params w) = ?w2"
      by (simp add: up_def getConfig_def Let_def emit_def)
    with 2 show ?thesis by simp
  next
    case (Inr L)
    with tb have L: "L = sort_key m_timestamp (rows tb)"
      by (simp add: orderBy_timestamp_def split: if_splits)
    from L have "set L = set (rows tb)" by simp
    with en have ne: "L \<noteq> []" by auto
    then have lt: "latest_of L = Some (last L)" by (simp add: latest_of_def)
    from sort_key_last_max [OF en, of m_timestamp] L le
    have le': "?ts \<le> m_timestamp (last L)" by simp
    let ?g = "getMigrationsExcept env (latest_of L) (rootDir_of env params)
           (if p_all params = Some True then - 1 else 1) ?w2"
    have 3: "extends ?Q ?w2 (load_world ?g)"
      by (rule extends_mono [OF getMigrationsExcept_extends]) auto
    show ?thesis
    proof (cases ?g)
      case (Inl x)
      then obtain e w3 where x: "?g = Inl (e, w3)" by (cases x) simp
      with c Inr have "exit_world (up env params w) = w3"
        by (simp add: up_def getConfig_def Let_def emit_def)
      with 3 x have "extends ?Q ?w2 (exit_world (up env params w))" by simp
      with 2 show ?thesis by (rule extends_trans)
    next
      case (Inr y)
      then obtain ms w3 where y: "?g = Inr (ms, w3)" by (cases y) simp
      from y lt have y': "getMigrationsExcept env (Some (last L)) (rootDir_of env params)
           (if p_all params = Some True then - 1 else 1) ?w2 = Inr (ms, w3)"
        by simp
      have a: "extends ?Q w3 (exit_world (up env params w))"
        by (rule extends_mono [OF up_extends_after_plan
              [OF c \<open>orderBy_timestamp _ _ _ = Inr L\<close> y]])
          (rule planned_after_latest [OF y' le'])
      from 3 y have b: "extends ?Q ?w2 w3" by simp
      show ?thesis by (rule extends_trans [OF 2 extends_trans [OF b a]])
    qed
  qed
  then show ?thesis
    by (auto simp: extends_def list_all_iff)
qed

theorem older_candidates_never_run_witness:
  "(\<exists>evs. trace (exit_world
        (up (demo_env [''20230102120000-late.ts'', ''20230104000000-d.ts''] always_noop)
          \<lparr>p_root = None, p_all = Some True\<rparr> w_applied)) = trace w_applied @ evs
      \<and> InvokeUp ''20230102120000-late.ts'' \<notin> set evs
      \<and> (\<forall>t nm. Insert t nm (c_timestamp (parse_filename ''20230102120000-late.ts'')) \<notin> set evs))
   \<and> c_timestamp (parse_filename ''20230102120000-late.ts'') = ''20230102120000''
   \<and> trace (exit_world
        (up (demo_env [''20230102120000-late.ts'', ''20230104000000-d.ts''] always_noop)
          \<lparr>p_root = None, p_all = Some True\<rparr> w_applied))
      = [ConnectPool, DbList, TableList, WaitReadyForWrites ''test'',
         OrderBy ''_migrations'' ''timestamp'', ReadDir ''/app/migrations'',
         Require ''/app/migrations/20230104000000-d.ts'',
         LogInfo [''up'', ''20230104000000'', ''d''],
         InvokeUp ''20230104000000-d.ts'',
         Insert ''_migrations'' ''d'' ''20230104000000'',
         LogInfo [''Migration Successful'']]"
proof -
  let ?env = "demo_env [''20230102120000-late.ts'', ''20230104000000-d.ts''] always_noop"
  let ?c = "\<lparr>m_id = ''uuu'', m_name = ''c'', m_timestamp = ''20230103000000''\<rparr>"
  let ?tb = "\<lparr>rows = [\<lparr>m_id = ''u'', m_name = ''a'', m_timestamp = ''20230101000000''\<rparr>,
                   \<lparr>m_id = ''uu'', m_name = ''b'', m_timestamp = ''20230102000000''\<rparr>, ?c],
          indexes = [''timestamp'']\<rparr>"
  have db: "nconf_db ?env = ''test''" by (simp add: demo_env_def)
  have tb: "get_table (nconf_db ?env) MIGRATION_TABLE_NAME (srv w_applied) = Inr ?tb"
    unfolding db by code_simp
  have en: "?c \<in> set (rows ?tb)" by simp
  have ts: "c_timestamp (parse_filename ''20230102120000-late.ts'') = ''20230102120000''"
    by code_simp
  have le: "c_timestamp (parse_filename ''20230102120000-late.ts'') \<le> m_timestamp ?c"
    unfolding ts by simp
  have run: "trace (exit_world (up ?env \<lparr>p_root = None, p_all = Some True\<rparr> w_applied))
      = [ConnectPool, DbList, TableList, WaitReadyForWrites ''test'',
         OrderBy ''_migrations'' ''timestamp'', ReadDir ''/app/migrations'',
         Require ''/app/migrations/20230104000000-d.ts'',
         LogInfo [''up'', ''20230104000000'', ''d''],
         InvokeUp ''20230104000000-d.ts'',
         Insert ''_migrations'' ''d'' ''20230104000000'',
         LogInfo [''Migration Successful'']]"
    by code_simp
  from older_candidates_never_run [OF tb en le, of "\<lparr>p_root = None, p_all = Some True\<rparr>"] ts run
  show ?thesis by (intro conjI)
qed

subsection \<open>Backward planning\<close>

lemma orderBy_sorted:
  "orderBy_timestamp db t s = Inr L \<Longrightarrow> sorted (map m_timestamp L)"
  by (auto simp: orderBy_timestamp_def sorted_sort_key split: sum.splits if_splits)

lemma orderBy_rows:
  "orderBy_timestamp db t s = Inr L \<Longrightarrow>
     \<exists>tb. get_table db t s = Inr tb \<and> ''timestamp'' \<in> set (indexes tb)
          \<and> L = sort_key m_timestamp (rows tb)"
  by (auto simp: orderBy_timestamp_def split: sum.splits if_splits)

text \<open>
  Claim C3. Let \<open>L\<close> be the ledger as \<^verbatim>\<open>down\<close> reads it (ascending by timestamp). With
  \<^verbatim>\<open>all\<close> set the backward plan is \<open>L\<close> reversed, in descending order of timestamp;
  otherwise, on a ledger that is not empty, it is the single last entry of \<open>L\<close>, whose
  timestamp is the greatest. \<^verbatim>\<open>down\<close> loads and runs exactly that plan. On the empty
  ledger \<^verbatim>\<open>down\<close> plans nothing for either limit: it logs \<^verbatim>\<open>No new migrations\<close> and
  returns, and its promise resolves.
\<close>

theorem backward_plan:
  assumes c: "connectToDb (nconf_db env) w = Resolved w1"
    and o: "orderBy_timestamp (nconf_db env) MIGRATION_TABLE_NAME (srv w1) = Inr L"
  shows "sorted (map m_timestamp L)
       \<and> migrationsToRollBack (Some True) L = rev L
       \<and> sorted_wrt (\<lambda>a b. b \<le> a) (map m_timestamp (migrationsToRollBack (Some True) L))
       \<and> (L \<noteq> [] \<longrightarrow> lim \<noteq> Some True \<longrightarrow>
            migrationsToRollBack lim L = [last L] \<and> last L \<in> set L
            \<and> (\<forall>x\<in>set L. m_timestamp x \<le> m_timestamp (last L)))
       \<and> (L = [] \<longrightarrow>
            down env params w =
              ExitNoNew (logInfo [''No new migrations'']
                           (emit (OrderBy MIGRATION_TABLE_NAME ''timestamp'') w1)))
       \<and> (L \<noteq> [] \<longrightarrow>
            down env params w =
              (case requireMigrations env (migrationsToRollBack (p_all params) L)
                      (rootDir_of env params)
                      (emit (OrderBy MIGRATION_TABLE_NAME ''timestamp'') w1) of
                 Inl (e, w3) \<Rightarrow> ExitRejected e w3
               | Inr (ms, w3) \<Rightarrow>
                   (case down_loop (nconf_db env) ms w3 of
                      Halted w4 \<Rightarrow> ExitHalted w4
                    | Broken e w4 \<Rightarrow> ExitRejected e w4
                    | Completed w4 \<Rightarrow> ExitDone (logInfo [''Migration successful''] w4))))"
proof (intro conjI impI ballI)
  show s: "sorted (map m_timestamp L)" by (rule orderBy_sorted [OF o])
  show "migrationsToRollBack (Some True) L = rev L" by (simp add: migrationsToRollBack_def)
  have "sorted_wrt (\<lambda>a b. b \<le> a) (rev (map m_timestamp L))"
    using s by (simp only: sorted_wrt_rev)
  then show "sorted_wrt (\<lambda>a b. b \<le> a) (map m_timestamp (migrationsToRollBack (Some True) L))"
    by (simp add: migrationsToRollBack_def rev_map)
  show "down env params w =
          ExitNoNew (logInfo [''No new migrations'']
                       (emit (OrderBy MIGRATION_TABLE_NAME ''timestamp'') w1))" if "L = []"
    using that by (simp add: down_unfold [OF c o])
  show "down env params w =
          (case requireMigrations env (migrationsToRollBack (p_all params) L)
                  (rootDir_of env params)
                  (emit (OrderBy MIGRATION_TABLE_NAME ''timestamp'') w1) of
             Inl (e, w3) \<Rightarrow> ExitRejected e w3
           | Inr (ms, w3) \<Rightarrow>
               (case down_loop (nconf_db env) ms w3 of
                  Halted w4 \<Rightarrow> ExitHalted w4
                | Broken e w4 \<Rightarrow> ExitRejected e w4
                | Completed w4 \<Rightarrow> ExitDone (logInfo [''Migration successful''] w4)))" if "L \<noteq> []"
    using that by (simp add: down_unfold [OF c o])
next
  assume "L \<noteq> []" and "lim \<noteq> Some True"
  then show "migrationsToRollBack lim L = [last L]" and "last L \<in> set L"
    by (simp_all add: migrationsToRollBack_def)
next
  fix x assume "x \<in> set L"
  with orderBy_sorted [OF o] show "m_timestamp x \<le> m_timestamp (last L)"
    by (rule sorted_last_max)
qed

theorem backward_plan_witness:
  "migrationsToRollBack (Some True)
      [\<lparr>m_id = ''u'', m_name = ''a'', m_timestamp = ''20230101000000''\<rparr>,
       \<lparr>m_id = ''uu'', m_name = ''b'', m_timestamp = ''20230102000000''\<rparr>,
       \<lparr>m_id = ''uuu'', m_name = ''c'', m_timestamp = ''20230103000000''\<rparr>]
     = [\<lparr>m_id = ''uuu'', m_name = ''c'', m_timestamp = ''20230103000000''\<rparr>,
        \<lparr>m_id = ''uu'', m_name = ''b'', m_timestamp = ''20230102000000''\<rparr>,
        \<lparr>m_id = ''u'', m_name = ''a'', m_timestamp = ''20230101000000''\<rparr>]
   \<and> migrationsToRollBack None
      [\<lparr>m_id = ''u'', m_name = ''a'', m_timestamp = ''20230101000000''\<rparr>,
       \<lparr>m_id = ''uu'', m_name = ''b'', m_timestamp = ''20230102000000''\<rparr>,
       \<lparr>m_id = ''uuu'', m_name = ''c'', m_timestamp = ''20230103000000''\<rparr>]
     = [\<lparr>m_id = ''uuu'', m_name = ''c'', m_timestamp = ''20230103000000''\<rparr>]
   \<and> down (demo_env files_abc always_noop) \<lparr>p_root = None, p_all = None\<rparr> w_fresh
     = ExitNoNew
         \<lparr>srv = [(''test'', [(''_migrations'', \<lparr>rows = [], indexes = [''timestamp'']\<rparr>)])],
          pool = True,
          trace = [ConnectPool, DbList, DbCreate ''test'', TableList, TableCreate ''_migrations'',
                   IndexCreate ''_migrations'' ''timestamp'', IndexWait ''_migrations'',
                   WaitReadyForWrites ''test'', OrderBy ''_migrations'' ''timestamp'',
                   LogInfo [''No new migrations'']]\<rparr>"
proof -
  let ?env = "demo_env files_abc always_noop"
  let ?L = "[\<lparr>m_id = ''u'', m_name = ''a'', m_timestamp = ''20230101000000''\<rparr>,
       \<lparr>m_id = ''uu'', m_name = ''b'', m_timestamp = ''20230102000000''\<rparr>,
       \<lparr>m_id = ''uuu'', m_name = ''c'', m_timestamp = ''20230103000000''\<rparr>]"
  have db: "nconf_db ?env = ''test''" by (simp add: demo_env_def)
  let ?v1 = "\<lparr>srv = srv w_applied, pool = True,
              trace = [ConnectPool, DbList, TableList, WaitReadyForWrites ''test'']\<rparr>"
  have c: "connectToDb (nconf_db ?env) w_applied = Resolved ?v1"
    unfolding db by code_simp
  have o: "orderBy_timestamp (nconf_db ?env) MIGRATION_TABLE_NAME (srv ?v1) = Inr ?L"
    unfolding db by code_simp
  note A = backward_plan [OF c o, of None]
  let ?w1 = "\<lparr>srv = [(''test'', [(''_migrations'', \<lparr>rows = [], indexes = [''timestamp'']\<rparr>)])],
      pool = True,
      trace = [ConnectPool, DbList, DbCreate ''test'', TableList, TableCreate ''_migrations'',
               IndexCreate ''_migrations'' ''timestamp'', IndexWait ''_migrations'',
               WaitReadyForWrites ''test'']\<rparr>"
  have c': "connectToDb (nconf_db ?env) w_fresh = Resolved ?w1"
    unfolding db by code_simp
  have o': "orderBy_timestamp (nconf_db ?env) MIGRATION_TABLE_NAME (srv ?w1) = Inr []"
    unfolding db by code_simp
  note B = backward_plan [OF c' o', of _ "\<lparr>p_root = None, p_all = None\<rparr>"]
  from A have 1: "migrationsToRollBack (Some True) ?L = rev ?L"
    and 2: "migrationsToRollBack None ?L = [last ?L]"
    by simp_all
  from B have 3: "down ?env \<lparr>p_root = None, p_all = None\<rparr> w_fresh =
      ExitNoNew (logInfo [''No new migrations'']
                   (emit (OrderBy MIGRATION_TABLE_NAME ''timestamp'') ?w1))"
    by simp
  from 1 2 3 show ?thesis
    by (simp add: logInfo_def emit_def MIGRATION_TABLE_NAME_def)
qed

subsection \<open>The connection pool\<close>

text \<open>
  Claim C10 fails on the code. \<^verbatim>\<open>lib/migrate.js\<close> drains the pool only at the end of the
  body: after a run with nothing pending and after a run halted by a failing migration
  the pool is still open and no drain was asked for. \<^verbatim>\<open>src/migrate.ts\<close> does not drain at
  all, not even after a run that completes.
\<close>

theorem pool_left_open_on_early_return:
  "up_lib (demo_env [] always_noop) \<lparr>p_root = None, p_all = Some True\<rparr> w_fresh =
     ExitNoNew
       \<lparr>srv = [(''test'', [(''_migrations'', \<lparr>rows = [], indexes = [''timestamp'']\<rparr>)])],
        pool = True,
        trace = [ConnectPool, DbList, DbCreate ''test'', TableList, TableCreate ''_migrations'',
                 IndexCreate ''_migrations'' ''timestamp'', IndexWait ''_migrations'',
                 WaitReadyForWrites ''test'', OrderBy ''_migrations'' ''timestamp'',
                 ReadDir ''/app/migrations'', LogInfo [''No new migrations'']]\<rparr>
   \<and> pool (exit_world (up_lib (demo_env files_abc b_fails)
                \<lparr>p_root = None, p_all = Some True\<rparr> w_fresh)) = True
   \<and> Drain \<notin> set (trace (exit_world (up_lib (demo_env files_abc b_fails)
                \<lparr>p_root = None, p_all = Some True\<rparr> w_fresh)))
   \<and> pool (exit_world (down_lib (demo_env files_abc b_fails)
                \<lparr>p_root = None, p_all = Some True\<rparr> w_applied)) = True
   \<and> pool (exit_world (down_lib (demo_env files_abc always_noop)
                \<lparr>p_root = None, p_all = Some True\<rparr> w_fresh)) = True
   \<and> pool (exit_world (up (demo_env files_abc always_noop)
                \<lparr>p_root = None, p_all = Some True\<rparr> w_fresh)) = True
   \<and> pool (exit_world (up_lib (demo_env files_abc always_noop)
                \<lparr>p_root = None, p_all = Some True\<rparr> w_fresh)) = False"
  by code_simp

subsection \<open>The ledger across a run\<close>

lemma fresh_id_fresh: "r \<in> set rs \<Longrightarrow> m_id r \<noteq> fresh_id rs"
proof -
  assume "r \<in> set rs"
  then have "length (m_id r) \<le> foldr max (map (\<lambda>r. length (m_id r)) rs) 0"
    by (induction rs) auto
  then have "length (m_id r) < length (fresh_id rs)"
    by (simp add: fresh_id_def)
  then show ?thesis by auto
qed

lemma insert_row_table:
  assumes "get_table db t s = Inr tb"
  shows "\<exists>s'. insert_row db t nm ts s = Inr s'
           \<and> get_table db t s' =
               Inr (tb\<lparr>rows := rows tb @ [\<lparr>m_id = fresh_id (rows tb), m_name = nm,
                                                m_timestamp = ts\<rparr>]\<rparr>)"
proof -
  from assms obtain d where d: "map_of s db = Some d" by (auto simp: get_table_Inr)
  show ?thesis
    by (simp add: insert_row_def assms get_put_table [OF d])
qed

lemma delete_row_table:
  assumes "get_table db t s = Inr tb"
  shows "\<exists>s'. delete_row db t k s = Inr s'
           \<and> get_table db t s' = Inr (tb\<lparr>rows := filter (\<lambda>r. m_id r \<noteq> k) (rows tb)\<rparr>)"
proof -
  from assms obtain d where d: "map_of s db = Some d" by (auto simp: get_table_Inr)
  show ?thesis
    by (simp add: delete_row_def assms get_put_table [OF d])
qed

lemma up_loop_ledger:
  assumes "\<forall>m\<in>set ms. keeps_ledger db (code_up (u_code m))"
    and "get_table db MIGRATION_TABLE_NAME (srv w) = Inr tb"
    and "up_loop db ms w = Completed w'"
  shows "\<exists>new. get_table db MIGRATION_TABLE_NAME (srv w') = Inr (tb\<lparr>rows := rows tb @ new\<rparr>)
           \<and> map m_timestamp new = map c_timestamp ms \<and> map m_name new = map c_name ms
           \<and> (ms \<noteq> [] \<longrightarrow> m_id (hd new) = fresh_id (rows tb))"
  using assms
proof (induction ms arbitrary: w tb)
  case Nil
  then show ?case by (intro exI [where x = "[]"]) simp
next
  case (Cons m ms)
  let ?w2 = "emit (InvokeUp (c_filename m)) (logInfo [''up'', c_timestamp m, c_name m] w)"
  let ?row = "\<lparr>m_id = fresh_id (rows tb), m_name = c_name m, m_timestamp = c_timestamp m\<rparr>"
  have sw: "srv ?w2 = srv w" by (simp add: emit_def logInfo_def)
  from Cons.prems(3) obtain s w3 where
    ret: "code_up (u_code m) (srv w) = Returned s"
    and q: "query (Insert MIGRATION_TABLE_NAME (c_name m) (c_timestamp m))
          (insert_row db MIGRATION_TABLE_NAME (c_name m) (c_timestamp m)) (?w2\<lparr>srv := s\<rparr>)
        = Resolved w3"
    and rest: "up_loop db ms w3 = Completed w'"
    by (auto simp: Let_def sw split: fn_result.splits run.splits)
  from Cons.prems(1) ret have "get_table db MIGRATION_TABLE_NAME s
      = get_table db MIGRATION_TABLE_NAME (srv w)"
    by (simp add: keeps_ledger_def)
  with Cons.prems(2) have gs: "get_table db MIGRATION_TABLE_NAME s = Inr tb" by simp
  from insert_row_table [OF gs, of "c_name m" "c_timestamp m"] query_Resolved [OF q]
  have g3: "get_table db MIGRATION_TABLE_NAME (srv w3) = Inr (tb\<lparr>rows := rows tb @ [?row]\<rparr>)"
    by auto
  from Cons.prems(1) have k: "\<forall>m\<in>set ms. keeps_ledger db (code_up (u_code m))" by simp
  from Cons.IH [OF k g3 rest] obtain new where
    n: "get_table db MIGRATION_TABLE_NAME (srv w')
          = Inr (tb\<lparr>rows := rows tb @ [?row]\<rparr>\<lparr>rows := rows (tb\<lparr>rows := rows tb @ [?row]\<rparr>) @ new\<rparr>)"
    and t: "map m_timestamp new = map c_timestamp ms" "map m_name new = map c_name ms"
    by blast
  show ?case
    by (intro exI [where x = "?row # new"]) (simp add: n t)
qed

lemma up_ExitDone:
  assumes "up env params w = ExitDone w'"
  obtains w1 L ms w3 w4 where
    "connectToDb (nconf_db env) w = Resolved w1"
    "orderBy_timestamp (nconf_db env) MIGRATION_TABLE_NAME (srv w1) = Inr L"
    "getMigrationsExcept env (latest_of L) (rootDir_of env params)
       (if p_all params = Some True then - 1 else 1)
       (emit (OrderBy MIGRATION_TABLE_NAME ''timestamp'') w1) = Inr (ms, w3)"
    "ms \<noteq> []"
    "up_loop (nconf_db env) ms w3 = Completed w4"
    "w' = logInfo [''Migration Successful''] w4"
proof -
  from connect_total [of "nconf_db env" w] obtain w1 where
    c: "connectToDb (nconf_db env) w = Resolved w1" by blast
  from assms c obtain L where
    o: "orderBy_timestamp (nconf_db env) MIGRATION_TABLE_NAME (srv w1) = Inr L"
    by (cases "orderBy_timestamp (nconf_db env) MIGRATION_TABLE_NAME (srv w1)")
      (simp_all add: up_def getConfig_def Let_def emit_def)
  let ?g = "getMigrationsExcept env (latest_of L) (rootDir_of env params)
       (if p_all params = Some True then - 1 else 1)
       (emit (OrderBy MIGRATION_TABLE_NAME ''timestamp'') w1)"
  from assms c o obtain ms w3 where g: "?g = Inr (ms, w3)"
    by (cases ?g) (auto simp: up_def getConfig_def Let_def emit_def)
  note u = up_unfold [OF c o g]
  from assms u have ne: "ms \<noteq> []" by (auto split: if_splits)
  with assms u obtain w4 where "up_loop (nconf_db env) ms w3 = Completed w4"
    and "w' = logInfo [''Migration Successful''] w4"
    by (auto split: loop_end.splits)
  with c o g ne show thesis by (rule that)
qed

lemma up_ExitNoNew:
  assumes "up env params w = ExitNoNew w'"
  obtains w1 L w3 where
    "connectToDb (nconf_db env) w = Resolved w1"
    "orderBy_timestamp (nconf_db env) MIGRATION_TABLE_NAME (srv w1) = Inr L"
    "getMigrationsExcept env (latest_of L) (rootDir_of env params)
       (if p_all params = Some True then - 1 else 1)
       (emit (OrderBy MIGRATION_TABLE_NAME ''timestamp'') w1) = Inr ([], w3)"
    "w' = logInfo [''No new migrations''] w3"
proof -
  from connect_total [of "nconf_db env" w] obtain w1 where
    c: "connectToDb (nconf_db env) w = Resolved w1" by blast
  from assms c obtain L where
    o: "orderBy_timestamp (nconf_db env) MIGRATION_TABLE_NAME (srv w1) = Inr L"
    by (cases "orderBy_timestamp (nconf_db env) MIGRATION_TABLE_NAME (srv w1)")
      (simp_all add: up_def getConfig_def Let_def emit_def)
  let ?g = "getMigrationsExcept env (latest_of L) (rootDir_of env params)
       (if p_all params = Some True then - 1 else 1)
       (emit (OrderBy MIGRATION_TABLE_NAME ''timestamp'') w1)"
  from assms c o obtain ms w3 where g: "?g = Inr (ms, w3)"
    by (cases ?g) (auto simp: up_def getConfig_def Let_def emit_def)
  note u = up_unfold [OF c o g]
  from assms u have e: "ms = []" and "w' = logInfo [''No new migrations''] w3"
    by (auto split: if_splits loop_end.splits)
  with c o g show thesis by (auto intro: that)
qed

lemma getMigrationsExcept_none:
  assumes "fs_readdir env (path_join env [root, ''migrations'']) = Some files"
    and "migrationsToApply cm n files = []"
  shows "getMigrationsExcept env cm root n v
           = Inr ([], emit (ReadDir (path_join env [root, ''migrations''])) v)"
  using assms by (simp add: getMigrationsExcept_def Let_def)

subsection \<open>Running up twice\<close>

text \<open>
  After a run that planned \<open>ms\<close> on the ledger \<open>L\<close> and recorded \<open>new\<close>, nothing is pending:
  every candidate newer than the whole ledger was planned, so its timestamp is in the
  ledger now.
\<close>

lemma nothing_pending_after:
  assumes srt: "sorted (map m_timestamp L)"
    and srt2: "sorted (map m_timestamp L2)"
    and set2: "set L2 = set L \<union> set new"
    and new: "map m_timestamp new = map c_timestamp cs"
    and cs: "cs = migrationsToApply (latest_of L) (- 1) files"
  shows "migrationsToApply (latest_of L2) (- 1) files = []"
proof (rule ccontr)
  assume "migrationsToApply (latest_of L2) (- 1) files \<noteq> []"
  then obtain c where c: "c \<in> set (migrationsToApply (latest_of L2) (- 1) files)"
    by (cases "migrationsToApply (latest_of L2) (- 1) files") auto
  note mem = migrationsToApply_member [OF c]
  from mem(4) latest_of_bound [OF srt2, of "c_timestamp c"]
  have after: "\<forall>e\<in>set L2. m_timestamp e < c_timestamp c" by simp
  with set2 have "\<forall>e\<in>set L. m_timestamp e < c_timestamp c" by simp
  with latest_of_bound [OF srt, of "c_timestamp c"]
  have "case latest_of L of Some l \<Rightarrow> m_timestamp l < c_timestamp c | None \<Rightarrow> True" by simp
  moreover from mem(1) have pc: "parse_filename (c_filename c) = c" by simp
  ultimately have "c_filename c \<in> set (filter (\<lambda>f. rxMigrationFile f
        \<and> (case latest_of L of Some l \<Rightarrow> m_timestamp l < c_timestamp (parse_filename f)
            | None \<Rightarrow> True)) files)"
    using mem(2,3) by (simp add: pc cong: option.case_cong)
  then have "c_filename c \<in> set (map c_filename cs)"
    by (simp only: cs migrationsToApply_all)
  then obtain m where m: "m \<in> set cs" and f: "c_filename m = c_filename c" by auto
  from m cs have "m = parse_filename (c_filename m)"
    by (simp add: migrationsToApply_member(1) [symmetric])
  with f mem(1) have "m = c" by simp
  with m have "c_timestamp c \<in> set (map c_timestamp cs)" by auto
  with new have "c_timestamp c \<in> set (map m_timestamp new)" by simp
  then obtain e where e: "e \<in> set new" and eq: "m_timestamp e = c_timestamp c" by auto
  from after set2 e have "m_timestamp e < c_timestamp c" by blast
  with eq show False by simp
qed

text \<open>
  Claim C5. Let every migration procedure that the project can load keep the ledger
  table, and let a run of \<^verbatim>\<open>up\<close> with \<^verbatim>\<open>all\<close> set have succeeded (it completed its batch, or
  found nothing to do). Then a second run over the same files calls no migration
  procedure and writes nothing: it connects, reads the ledger, lists the directory,
  logs \<^verbatim>\<open>No new migrations\<close> and returns, leaving the server untouched.
\<close>

theorem up_all_idempotent:
  assumes frame: "\<forall>p code. require_file env p = Some code \<longrightarrow>
                    keeps_ledger (nconf_db env) (code_up code)"
    and all: "p_all params = Some True"
    and first: "up env params w = ExitDone w' \<or> up env params w = ExitNoNew w'"
  shows "up env params w' =
           ExitNoNew (w'\<lparr>pool := True,
              trace := trace w' @ [ConnectPool, DbList, TableList,
                                   WaitReadyForWrites (nconf_db env),
                                   OrderBy MIGRATION_TABLE_NAME ''timestamp'',
                                   ReadDir (path_join env [rootDir_of env params, ''migrations'']),
                                   LogInfo [''No new migrations'']]\<rparr>)"
proof -
  let ?db = "nconf_db env"
  let ?root = "rootDir_of env params"
  let ?T = MIGRATION_TABLE_NAME
  \<comment> \<open>what the first run read, planned and recorded\<close>
  have "\<exists>L tb files cs new.
          get_table ?db ?T (srv w') = Inr (tb\<lparr>rows := rows tb @ new\<rparr>)
        \<and> ''timestamp'' \<in> set (indexes tb)
        \<and> L = sort_key m_timestamp (rows tb)
        \<and> fs_readdir env (path_join env [?root, ''migrations'']) = Some files
        \<and> cs = migrationsToApply (latest_of L) (- 1) files
        \<and> map m_timestamp new = map c_timestamp cs"
  using first
  proof
    assume "up env params w = ExitDone w'"
    then obtain w1 L ms w3 w4 where
      o: "orderBy_timestamp ?db ?T (srv w1) = Inr L"
      and g: "getMigrationsExcept env (latest_of L) ?root
         (if p_all params = Some True then - 1 else 1)
         (emit (OrderBy ?T ''timestamp'') w1) = Inr (ms, w3)"
      and l: "up_loop ?db ms w3 = Completed w4"
      and w': "w' = logInfo [''Migration Successful''] w4"
      by (rule up_ExitDone)
    from orderBy_rows [OF o] obtain tb where
      tb: "get_table ?db ?T (srv w1) = Inr tb" "''timestamp'' \<in> set (indexes tb)"
        "L = sort_key m_timestamp (rows tb)"
      by blast
    from g all obtain files codes where
      rd: "fs_readdir env (path_join env [?root, ''migrations'']) = Some files"
      and ms: "ms = map2 with_code (migrationsToApply (latest_of L) (- 1) files) codes"
      and len: "length codes = length (migrationsToApply (latest_of L) (- 1) files)"
      and w3: "w3 = (emit (OrderBy ?T ''timestamp'') w1)\<lparr>trace := trace (emit (OrderBy ?T ''timestamp'') w1)
           @ ReadDir (path_join env [?root, ''migrations''])
           # map (\<lambda>m. Require (path_join env [path_join env [?root, ''migrations''], c_filename m]))
               (migrationsToApply (latest_of L) (- 1) files)\<rparr>"
      by (auto elim!: getMigrationsExcept_Inr)
    from w3 have "srv w3 = srv w1" by (simp add: emit_def)
    with tb have t3: "get_table ?db ?T (srv w3) = Inr tb" by simp
    have k: "\<forall>m\<in>set ms. keeps_ledger ?db (code_up (u_code m))"
      using frame loaded_up_member [OF g] by blast
    from up_loop_ledger [OF k t3 l] obtain new where
      n: "get_table ?db ?T (srv w4) = Inr (tb\<lparr>rows := rows tb @ new\<rparr>)"
      and t: "map m_timestamp new = map c_timestamp ms"
      by blast
    from w' have "srv w' = srv w4" by (simp add: logInfo_def emit_def)
    moreover have "map c_timestamp ms
        = map c_timestamp (migrationsToApply (latest_of L) (- 1) files)"
      unfolding ms by (rule map2_with_code(2) [OF len])
    ultimately show ?thesis using n t tb rd by auto
  next
    assume "up env params w = ExitNoNew w'"
    then obtain w1 L w3 where
      o: "orderBy_timestamp ?db ?T (srv w1) = Inr L"
      and g: "getMigrationsExcept env (latest_of L) ?root
         (if p_all params = Some True then - 1 else 1)
         (emit (OrderBy ?T ''timestamp'') w1) = Inr ([], w3)"
      and w': "w' = logInfo [''No new migrations''] w3"
      by (rule up_ExitNoNew)
    from orderBy_rows [OF o] obtain tb where
      tb: "get_table ?db ?T (srv w1) = Inr tb" "''timestamp'' \<in> set (indexes tb)"
        "L = sort_key m_timestamp (rows tb)"
      by blast
    from g all obtain files codes where
      rd: "fs_readdir env (path_join env [?root, ''migrations'']) = Some files"
      and ms: "[] = map2 with_code (migrationsToApply (latest_of L) (- 1) files) codes"
      and len: "length codes = length (migrationsToApply (latest_of L) (- 1) files)"
      and w3: "w3 = (emit (OrderBy ?T ''timestamp'') w1)\<lparr>trace := trace (emit (OrderBy ?T ''timestamp'') w1)
           @ ReadDir (path_join env [?root, ''migrations''])
           # map (\<lambda>m. Require (path_join env [path_join env [?root, ''migrations''], c_filename m]))
               (migrationsToApply (latest_of L) (- 1) files)\<rparr>"
      by (auto elim!: getMigrationsExcept_Inr)
    from ms len have e: "migrationsToApply (latest_of L) (- 1) files = []"
      by (cases "migrationsToApply (latest_of L) (- 1) files"; cases codes) simp_all
    from w3 w' have "srv w' = srv w1" by (simp add: emit_def logInfo_def)
    with tb have "get_table ?db ?T (srv w') = Inr (tb\<lparr>rows := rows tb @ []\<rparr>)" by simp
    moreover have "map m_timestamp ([] :: Migration list)
        = map c_timestamp (migrationsToApply (latest_of L) (- 1) files)"
      using e by simp
    ultimately show ?thesis using tb(2,3) rd by blast
  qed
  then obtain L tb files cs new where
    t': "get_table ?db ?T (srv w') = Inr (tb\<lparr>rows := rows tb @ new\<rparr>)"
    and ix: "''timestamp'' \<in> set (indexes tb)"
    and L: "L = sort_key m_timestamp (rows tb)"
    and rd: "fs_readdir env (path_join env [?root, ''migrations'']) = Some files"
    and cs: "cs = migrationsToApply (latest_of L) (- 1) files"
    and new: "map m_timestamp new = map c_timestamp cs"
    by blast
  \<comment> \<open>the second run\<close>
  let ?w1 = "w'\<lparr>pool := True,
               trace := trace w' @ [ConnectPool, DbList, TableList, WaitReadyForWrites ?db]\<rparr>"
  let ?L2 = "sort_key m_timestamp (rows tb @ new)"
  have c: "connectToDb ?db w' = Resolved ?w1" by (rule connect_existing [OF t'])
  have o: "orderBy_timestamp ?db ?T (srv ?w1) = Inr ?L2"
    using t' ix by (simp add: orderBy_timestamp_def)
  have "migrationsToApply (latest_of ?L2) (- 1) files = []"
  proof (rule nothing_pending_after [OF _ _ _ new cs])
    show "sorted (map m_timestamp L)" unfolding L by (rule sorted_sort_key)
    show "sorted (map m_timestamp ?L2)" by (rule sorted_sort_key)
    show "set ?L2 = set L \<union> set new" unfolding L by simp
  qed
  from getMigrationsExcept_none [OF rd this]
  have g: "getMigrationsExcept env (latest_of ?L2) ?root
         (if p_all params = Some True then - 1 else 1)
         (emit (OrderBy ?T ''timestamp'') ?w1)
       = Inr ([], emit (ReadDir (path_join env [?root, ''migrations'']))
                   (emit (OrderBy ?T ''timestamp'') ?w1))"
    using all by simp
  show ?thesis
    by (simp add: up_unfold [OF c o g] logInfo_def emit_def)
qed

lemma always_noop_keeps:
  "\<forall>p code. require_file (demo_env files always_noop) p = Some code \<longrightarrow>
     keeps_ledger db (code_up code) \<and> keeps_ledger db (code_down code)"
  by (auto simp: demo_env_def always_noop_def noop_def keeps_ledger_def)

theorem up_all_idempotent_witness:
  "up (demo_env files_abc always_noop) \<lparr>p_root = None, p_all = Some True\<rparr> w_fresh =
     ExitDone
       \<lparr>srv = [(''test'', [(''_migrations'',
          \<lparr>rows = [\<lparr>m_id = ''u'', m_name = ''a'', m_timestamp = ''20230101000000''\<rparr>,
                    \<lparr>m_id = ''uu'', m_name = ''b'', m_timestamp = ''20230102000000''\<rparr>,
                    \<lparr>m_id = ''uuu'', m_name = ''c'', m_timestamp = ''20230103000000''\<rparr>],
           indexes = [''timestamp'']\<rparr>)])],
        pool = True,
        trace = [ConnectPool, DbList, DbCreate ''test'', TableList, TableCreate ''_migrations'',
                 IndexCreate ''_migrations'' ''timestamp'', IndexWait ''_migrations'',
                 WaitReadyForWrites ''test'', OrderBy ''_migrations'' ''timestamp'',
                 ReadDir ''/app/migrations'',
                 Require ''/app/migrations/20230101000000-a.ts'',
                 Require ''/app/migrations/20230102000000-b.ts'',
                 Require ''/app/migrations/20230103000000-c.ts'',
                 LogInfo [''up'', ''20230101000000'', ''a''],
                 InvokeUp ''20230101000000-a.ts'',
                 Insert ''_migrations'' ''a'' ''20230101000000'',
                 LogInfo [''up'', ''20230102000000'', ''b''],
                 InvokeUp ''20230102000000-b.ts'',
                 Insert ''_migrations'' ''b'' ''20230102000000'',
                 LogInfo [''up'', ''20230103000000'', ''c''],
                 InvokeUp ''20230103000000-c.ts'',
                 Insert ''_migrations'' ''c'' ''20230103000000'',
                 LogInfo [''Migration Successful'']]\<rparr>
   \<and> up (demo_env files_abc always_noop) \<lparr>p_root = None, p_all = Some True\<rparr>
       \<lparr>srv = [(''test'', [(''_migrations'',
          \<lparr>rows = [\<lparr>m_id = ''u'', m_name = ''a'', m_timestamp = ''20230101000000''\<rparr>,
                    \<lparr>m_id = ''uu'', m_name = ''b'', m_timestamp = ''20230102000000''\<rparr>,
                    \<lparr>m_id = ''uuu'', m_name = ''c'', m_timestamp = ''20230103000000''\<rparr>],
           indexes = [''timestamp'']\<rparr>)])],
        pool = True,
        trace = [ConnectPool, DbList, DbCreate ''test'', TableList, TableCreate ''_migrations'',
                 IndexCreate ''_migrations'' ''timestamp'', IndexWait ''_migrations'',
                 WaitReadyForWrites ''test'', OrderBy ''_migrations'' ''timestamp'',
                 ReadDir ''/app/migrations'',
                 Require ''/app/migrations/20230101000000-a.ts'',
                 Require ''/app/migrations/20230102000000-b.ts'',
                 Require ''/app/migrations/20230103000000-c.ts'',
                 LogInfo [''up'', ''20230101000000'', ''a''],
                 InvokeUp ''20230101000000-a.ts'',
                 Insert ''_migrations'' ''a'' ''20230101000000'',
                 LogInfo [''up'', ''20230102000000'', ''b''],
                 InvokeUp ''20230102000000-b.ts'',
                 Insert ''_migrations'' ''b'' ''20230102000000'',
                 LogInfo [''up'', ''20230103000000'', ''c''],
                 InvokeUp ''20230103000000-c.ts'',
                 Insert ''_migrations'' ''c'' ''20230103000000'',
                 LogInfo [''Migration Successful'']]\<rparr> =
     ExitNoNew
       \<lparr>srv = [(''test'', [(''_migrations'',
          \<lparr>rows = [\<lparr>m_id = ''u'', m_name = ''a'', m_timestamp = ''20230101000000''\<rparr>,
                    \<lparr>m_id = ''uu'', m_name = ''b'', m_timestamp = ''20230102000000''\<rparr>,
                    \<lparr>m_id = ''uuu'', m_name = ''c'', m_timestamp = ''20230103000000''\<rparr>],
           indexes = [''timestamp'']\<rparr>)])],
        pool = True,
        trace = [ConnectPool, DbList, DbCreate ''test'', TableList, TableCreate ''_migrations'',
                 IndexCreate ''_migrations'' ''timestamp'', IndexWait ''_migrations'',
                 WaitReadyForWrites ''test'', OrderBy ''_migrations'' ''timestamp'',
                 ReadDir ''/app/migrations'',
                 Require ''/app/migrations/20230101000000-a.ts'',
                 Require ''/app/migrations/20230102000000-b.ts'',
                 Require ''/app/migrations/20230103000000-c.ts'',
                 LogInfo [''up'', ''20230101000000'', ''a''],
                 InvokeUp ''20230101000000-a.ts'',
                 Insert ''_migrations'' ''a'' ''20230101000000'',
                 LogInfo [''up'', ''20230102000000'', ''b''],
                 InvokeUp ''20230102000000-b.ts'',
                 Insert ''_migrations'' ''b'' ''20230102000000'',
                 LogInfo [''up'', ''20230103000000'', ''c''],
                 InvokeUp ''20230103000000-c.ts'',
                 Insert ''_migrations'' ''c'' ''20230103000000'',
                 LogInfo [''Migration Successful''],
                 ConnectPool, DbList, TableList, WaitReadyForWrites ''test'',
                 OrderBy ''_migrations'' ''timestamp'', ReadDir ''/app/migrations'',
                 LogInfo [''No new migrations'']]\<rparr>"
proof -
  let ?env = "demo_env files_abc always_noop"
  let ?params = "\<lparr>p_root = None, p_all = Some True\<rparr>"
  let ?w' = "\<lparr>srv = [(''test'', [(''_migrations'',
          \<lparr>rows = [\<lparr>m_id = ''u'', m_name = ''a'', m_timestamp = ''20230101000000''\<rparr>,
                    \<lparr>m_id = ''uu'', m_name = ''b'', m_timestamp = ''20230102000000''\<rparr>,
                    \<lparr>m_id = ''uuu'', m_name = ''c'', m_timestamp = ''20230103000000''\<rparr>],
           indexes = [''timestamp'']\<rparr>)])],
        pool = True,
        trace = [ConnectPool, DbList, DbCreate ''test'', TableList, TableCreate ''_migrations'',
                 IndexCreate ''_migrations'' ''timestamp'', IndexWait ''_migrations'',
                 WaitReadyForWrites ''test'', OrderBy ''_migrations'' ''timestamp'',
                 ReadDir ''/app/migrations'',
                 Require ''/app/migrations/20230101000000-a.ts'',
                 Require ''/app/migrations/20230102000000-b.ts'',
                 Require ''/app/migrations/20230103000000-c.ts'',
                 LogInfo [''up'', ''20230101000000'', ''a''],
                 InvokeUp ''20230101000000-a.ts'',
                 Insert ''_migrations'' ''a'' ''20230101000000'',
                 LogInfo [''up'', ''20230102000000'', ''b''],
                 InvokeUp ''20230102000000-b.ts'',
                 Insert ''_migrations'' ''b'' ''20230102000000'',
                 LogInfo [''up'', ''20230103000000'', ''c''],
                 InvokeUp ''20230103000000-c.ts'',
                 Insert ''_migrations'' ''c'' ''20230103000000'',
                 LogInfo [''Migration Successful'']]\<rparr>"
  have frame: "\<forall>p code. require_file ?env p = Some code \<longrightarrow>
                 keeps_ledger (nconf_db ?env) (code_up code)"
    using always_noop_keeps by blast
  have all: "p_all ?params = Some True" by simp
  have first: "up ?env ?params w_fresh = ExitDone ?w'" by code_simp
  then have "up ?env ?params w_fresh = ExitDone ?w' \<or> up ?env ?params w_fresh = ExitNoNew ?w'"
    by (rule disjI1)
  from up_all_idempotent [OF frame all this] first show ?thesis
    by (simp add: demo_env_def rootDir_of_def MIGRATION_TABLE_NAME_def)
qed

subsection \<open>The files\<close>

lemma fs_effect_no_write: "\<not> writes_file e \<Longrightarrow> fs_effect e d = d"
  by (cases e) simp_all

lemma disk_after_no_write: "list_all (\<lambda>e. \<not> writes_file e) evs \<Longrightarrow> disk_after d evs = d"
  by (induction evs) (simp_all add: disk_after_def fs_effect_no_write)

lemma disk_after_append: "disk_after d (xs @ ys) = disk_after (disk_after d xs) ys"
  by (simp add: disk_after_def)

lemma extends_keeps_disk:
  assumes "extends (\<lambda>e. \<not> writes_file e) w w'"
  shows "disk_of d w' = disk_of d w"
proof -
  from assms obtain evs where "trace w' = trace w @ evs"
    and "list_all (\<lambda>e. \<not> writes_file e) evs"
    by (auto simp: extends_def)
  then show ?thesis
    by (simp add: disk_of_def disk_after_append disk_after_no_write)
qed

text \<open>
  \<^verbatim>\<open>create\<close> does write: when it returns, the file it names has been given the content of
  the template.
\<close>

lemma create_copies_template:
  assumes "create env name root d w = Inr (p, w')"
  shows "\<exists>t content.
           p = path_join env [path_join env [if root = [] then process_cwd env else root,
                                             ''migrations''],
                              moment_now env @ ''-'' @ name @ ''.ts'']
         \<and> trace w' = trace w @ [CopyFile t p]
         \<and> map_of d t = Some content
         \<and> disk_after d [CopyFile t p] = AList.update p content d
         \<and> map_of (disk_after d [CopyFile t p]) p = Some content"
  using assms
  by (auto simp: create_def Let_def emit_def disk_after_def update_conv' split: option.splits)

text \<open>\<^verbatim>\<open>up\<close> and \<^verbatim>\<open>down\<close> do not, however they end.\<close>

lemma connect_writes_no_file:
  assumes c: "connectToDb db w = Resolved w1"
  shows "extends (\<lambda>e. \<not> writes_file e) w w1"
proof (cases "map_of (srv w) db")
  case None
  from connect_no_db [OF None] c have
    "trace w1 = trace w @ [ConnectPool, DbList, DbCreate db, TableList,
        TableCreate MIGRATION_TABLE_NAME, IndexCreate MIGRATION_TABLE_NAME ''timestamp'',
        IndexWait MIGRATION_TABLE_NAME, WaitReadyForWrites db]"
    by auto
  then show ?thesis by (rule extends_explicit) simp
next
  case (Some d)
  show ?thesis
  proof (cases "map_of d MIGRATION_TABLE_NAME")
    case None
    from connect_no_table [OF Some None] c have
      "trace w1 = trace w @ [ConnectPool, DbList, TableList,
          TableCreate MIGRATION_TABLE_NAME, IndexCreate MIGRATION_TABLE_NAME ''timestamp'',
          IndexWait MIGRATION_TABLE_NAME, WaitReadyForWrites db]"
      by auto
    then show ?thesis by (rule extends_explicit) simp
  next
    case (Some tb)
    with \<open>map_of (srv w) db = Some d\<close> have "get_table db MIGRATION_TABLE_NAME (srv w) = Inr tb"
      by (simp add: get_table_Inr)
    from connect_existing [OF this] c have
      "trace w1 = trace w @ [ConnectPool, DbList, TableList, WaitReadyForWrites db]"
      by auto
    then show ?thesis by (rule extends_explicit) simp
  qed
qed

lemma up_writes_no_file:
  "extends (\<lambda>e. \<not> writes_file e) w (exit_world (up env params w))"
proof -
  from connect_total [of "nconf_db env" w] obtain w1 where
    c: "connectToDb (nconf_db env) w = Resolved w1" by blast
  show ?thesis
    by (rule extends_trans [OF connect_writes_no_file [OF c] up_extends_after_connect [OF c]])
qed

lemma down_writes_no_file:
  "extends (\<lambda>e. \<not> writes_file e) w (exit_world (down env params w))"
proof -
  from connect_total [of "nconf_db env" w] obtain w1 where
    c: "connectToDb (nconf_db env) w = Resolved w1" by blast
  show ?thesis
    by (rule extends_trans [OF connect_writes_no_file [OF c] down_extends_after_connect [OF c]])
qed

lemma up_keeps_disk: "disk_of d (exit_world (up env params w)) = disk_of d w"
  by (rule extends_keeps_disk [OF up_writes_no_file])

lemma down_keeps_disk: "disk_of d (exit_world (down env params w)) = disk_of d w"
  by (rule extends_keeps_disk [OF down_writes_no_file])

subsection \<open>Forward, then back\<close>

lemma connect_ledger:
  assumes "connectToDb db w = Resolved w1"
  shows "ledger db (srv w1) = ledger db (srv w)"
proof (cases "map_of (srv w) db")
  case None
  from connect_no_db [OF None] assms have
    "srv w1 = srv w @ [(db, [(MIGRATION_TABLE_NAME, \<lparr>rows = [], indexes = [''timestamp'']\<rparr>)])]"
    by auto
  moreover have "map_of (srv w @ [(db, [(MIGRATION_TABLE_NAME,
      \<lparr>rows = [], indexes = [''timestamp'']\<rparr>)])]) db
      = Some [(MIGRATION_TABLE_NAME, \<lparr>rows = [], indexes = [''timestamp'']\<rparr>)]"
    by (rule map_of_snoc [OF None])
  ultimately show ?thesis using None
    by (simp add: ledger_def get_table_def del: map_of_append)
next
  case (Some d)
  show ?thesis
  proof (cases "map_of d MIGRATION_TABLE_NAME")
    case None
    from connect_no_table [OF Some None] assms have
      "srv w1 = AList.update db
          (d @ [(MIGRATION_TABLE_NAME, \<lparr>rows = [], indexes = [''timestamp'']\<rparr>)]) (srv w)"
      by auto
    then show ?thesis using Some None
      by (simp add: ledger_def get_table_def AList.update_conv' map_add_snoc)
  next
    case (Some tb)
    with \<open>map_of (srv w) db = Some d\<close> have "get_table db MIGRATION_TABLE_NAME (srv w) = Inr tb"
      by (simp add: get_table_Inr)
    from connect_existing [OF this] assms have "srv w1 = srv w" by auto
    then show ?thesis by simp
  qed
qed

lemma down_ExitDone:
  assumes "down env params w = ExitDone w'"
  obtains w1 L ms w3 w4 where
    "connectToDb (nconf_db env) w = Resolved w1"
    "orderBy_timestamp (nconf_db env) MIGRATION_TABLE_NAME (srv w1) = Inr L"
    "L \<noteq> []"
    "requireMigrations env (migrationsToRollBack (p_all params) L) (rootDir_of env params)
       (emit (OrderBy MIGRATION_TABLE_NAME ''timestamp'') w1) = Inr (ms, w3)"
    "down_loop (nconf_db env) ms w3 = Completed w4"
    "w' = logInfo [''Migration successful''] w4"
proof -
  from connect_total [of "nconf_db env" w] obtain w1 where
    c: "connectToDb (nconf_db env) w = Resolved w1" by blast
  from assms c obtain L where
    o: "orderBy_timestamp (nconf_db env) MIGRATION_TABLE_NAME (srv w1) = Inr L"
    by (cases "orderBy_timestamp (nconf_db env) MIGRATION_TABLE_NAME (srv w1)")
      (simp_all add: down_def getConfig_def Let_def emit_def)
  note u = down_unfold [OF c o]
  from assms u have ne: "L \<noteq> []" by (auto split: if_splits)
  let ?g = "requireMigrations env (migrationsToRollBack (p_all params) L) (rootDir_of env params)
       (emit (OrderBy MIGRATION_TABLE_NAME ''timestamp'') w1)"
  from assms u ne obtain ms w3 where g: "?g = Inr (ms, w3)"
    by (cases ?g) auto
  from assms u ne g obtain w4 where "down_loop (nconf_db env) ms w3 = Completed w4"
    and "w' = logInfo [''Migration successful''] w4"
    by (auto split: loop_end.splits)
  with c o ne g show thesis by (rule that)
qed

lemma down_loop_one_ledger:
  assumes k: "keeps_ledger db (code_down (d_code m))"
    and t: "get_table db MIGRATION_TABLE_NAME (srv w) = Inr tb"
    and l: "down_loop db [m] w = Completed w'"
  shows "get_table db MIGRATION_TABLE_NAME (srv w')
           = Inr (tb\<lparr>rows := filter (\<lambda>r. m_id r \<noteq> m_id m) (rows tb)\<rparr>)"
proof -
  let ?w2 = "emit (InvokeDown (d_filename m)) (logInfo [''down'', m_timestamp m, m_name m] w)"
  have sw: "srv ?w2 = srv w" by (simp add: emit_def logInfo_def)
  from l obtain s where
    ret: "code_down (d_code m) (srv w) = Returned s"
    and q: "query (Delete MIGRATION_TABLE_NAME (m_id m))
          (delete_row db MIGRATION_TABLE_NAME (m_id m)) (?w2\<lparr>srv := s\<rparr>) = Resolved w'"
    by (auto simp: Let_def sw split: fn_result.splits run.splits)
  from k ret t have gs: "get_table db MIGRATION_TABLE_NAME s = Inr tb"
    by (simp add: keeps_ledger_def)
  from delete_row_table [OF gs, of "m_id m"] query_Resolved [OF q]
  show ?thesis by auto
qed

text \<open>
  Claim C6. Let every migration procedure that the project can load keep the ledger
  table (a procedure acts on the server only). If \<^verbatim>\<open>up\<close> for one migration completes and \<^verbatim>\<open>down\<close> for one migration, run next,
  completes too, the ledger holds exactly the entries, in the same order, that it held
  before \<^verbatim>\<open>up\<close>: the entry that \<^verbatim>\<open>up\<close> inserted under a fresh key is the one with the
  greatest timestamp, and the one that \<^verbatim>\<open>down\<close> deletes by that key. Neither run makes a
  call that writes to the file system: each only adds to the trace events that write no
  file (of the calls of \<^verbatim>\<open>fs\<close>, \<^verbatim>\<open>readdir\<close> but not \<^verbatim>\<open>copyFile\<close>), so that on every disk \<open>dk\<close>
  the files after \<^verbatim>\<open>up\<close>, and after \<^verbatim>\<open>down\<close>, are the files before, path by path and
  content by content.
\<close>

theorem up_then_down_restores_ledger:
  assumes frame: "\<forall>p code. require_file env p = Some code \<longrightarrow>
                    keeps_ledger (nconf_db env) (code_up code)
                    \<and> keeps_ledger (nconf_db env) (code_down code)"
    and one_up: "p_all pu \<noteq> Some True"
    and one_down: "p_all pd \<noteq> Some True"
    and fwd: "up env pu w = ExitDone w'"
    and bwd: "down env pd w' = ExitDone w''"
  shows "ledger (nconf_db env) (srv w'') = ledger (nconf_db env) (srv w)
       \<and> extends (\<lambda>e. \<not> writes_file e) w w'
       \<and> extends (\<lambda>e. \<not> writes_file e) w' w''
       \<and> disk_of dk w' = disk_of dk w
       \<and> disk_of dk w'' = disk_of dk w'"
proof -
  let ?db = "nconf_db env"
  let ?T = MIGRATION_TABLE_NAME
  \<comment> \<open>forward: one migration is planned, run and recorded\<close>
  from fwd obtain w1 L ms w3 w4 where
    c: "connectToDb ?db w = Resolved w1"
    and o: "orderBy_timestamp ?db ?T (srv w1) = Inr L"
    and g: "getMigrationsExcept env (latest_of L) (rootDir_of env pu)
         (if p_all pu = Some True then - 1 else 1)
         (emit (OrderBy ?T ''timestamp'') w1) = Inr (ms, w3)"
    and ne: "ms \<noteq> []"
    and l: "up_loop ?db ms w3 = Completed w4"
    and w': "w' = logInfo [''Migration Successful''] w4"
    by (rule up_ExitDone)
  from orderBy_rows [OF o] obtain tb where
    tb: "get_table ?db ?T (srv w1) = Inr tb" and ix: "''timestamp'' \<in> set (indexes tb)"
    and L: "L = sort_key m_timestamp (rows tb)"
    by blast
  from connect_ledger [OF c] tb have before: "ledger ?db (srv w) = rows tb"
    by (simp add: ledger_def)
  from g one_up have g1: "getMigrationsExcept env (latest_of L) (rootDir_of env pu) 1
         (emit (OrderBy ?T ''timestamp'') w1) = Inr (ms, w3)"
    by simp
  from g1 obtain files where
    rd: "fs_readdir env (path_join env [rootDir_of env pu, ''migrations'']) = Some files"
    by (auto elim!: getMigrationsExcept_Inr)
  have "(1::int) = - 1 \<or> (1::int) = 1" by simp
  from planned_filenames [OF this rd g1] have "length (map c_filename ms) \<le> 1"
    by (simp add: Let_def)
  with ne obtain m where ms: "ms = [m]"
    by (cases ms) auto
  from loaded_up_trace [OF g1] have "srv w3 = srv w1" by (simp add: emit_def)
  with tb have t3: "get_table ?db ?T (srv w3) = Inr tb" by simp
  have mem: "m \<in> set ms" using ms by simp
  have k: "\<forall>m\<in>set ms. keeps_ledger ?db (code_up (u_code m))"
    using frame loaded_up_member [OF g1] by blast
  from up_loop_ledger [OF k t3 l] ne obtain new where
    n: "get_table ?db ?T (srv w4) = Inr (tb\<lparr>rows := rows tb @ new\<rparr>)"
    and ts: "map m_timestamp new = map c_timestamp ms"
    and id: "m_id (hd new) = fresh_id (rows tb)"
    by blast
  from ts ms obtain r where new: "new = [r]" and rts: "m_timestamp r = c_timestamp m"
    by (cases new) auto
  from id new have rid: "m_id r = fresh_id (rows tb)" by simp
  have "sorted (map m_timestamp L)" unfolding L by (rule sorted_sort_key)
  from planned_member(4) [OF g1 mem] latest_of_bound [OF this, of "c_timestamp m"] L rts
  have newest: "\<forall>e\<in>set (rows tb). m_timestamp e < m_timestamp r"
    by simp
  from w' have "srv w' = srv w4" by (simp add: logInfo_def emit_def)
  with n new have t': "get_table ?db ?T (srv w') = Inr (tb\<lparr>rows := rows tb @ [r]\<rparr>)"
    by simp
  \<comment> \<open>backward: the last entry of the ledger is the one just recorded\<close>
  from bwd obtain v1 L2 ds v3 v4 where
    c2: "connectToDb ?db w' = Resolved v1"
    and o2: "orderBy_timestamp ?db ?T (srv v1) = Inr L2"
    and ne2: "L2 \<noteq> []"
    and g2: "requireMigrations env (migrationsToRollBack (p_all pd) L2) (rootDir_of env pd)
         (emit (OrderBy ?T ''timestamp'') v1) = Inr (ds, v3)"
    and l2: "down_loop ?db ds v3 = Completed v4"
    and w'': "w'' = logInfo [''Migration successful''] v4"
    by (rule down_ExitDone)
  from connect_existing [OF t'] c2 have "srv v1 = srv w'" by auto
  with t' have tv1: "get_table ?db ?T (srv v1) = Inr (tb\<lparr>rows := rows tb @ [r]\<rparr>)" by simp
  with o2 ix have L2: "L2 = sort_key m_timestamp (rows tb @ [r])"
    by (simp add: orderBy_timestamp_def)
  have "last L2 \<in> set L2" using ne2 by simp
  with L2 have "last L2 \<in> set (rows tb) \<or> last L2 = r" by auto
  moreover have "m_timestamp r \<le> m_timestamp (last L2)"
    unfolding L2 by (rule sort_key_last_max) simp
  ultimately have last: "last L2 = r" using newest by auto
  from one_down last have plan: "migrationsToRollBack (p_all pd) L2 = [r]"
    by (simp add: migrationsToRollBack_def)
  from requireMigrations_Inr [OF g2] plan obtain d where ds: "ds = [d]"
    and did: "m_id d = m_id r"
    and code: "require_file env (path_join env [rootDir_of env pd, ''migrations'', d_filename d])
        = Some (d_code d)"
    by (auto simp: list_all2_Cons1)
  from requireMigrations_Inr [OF g2] have "srv v3 = srv v1" by (simp add: emit_def)
  with tv1 have tv3: "get_table ?db ?T (srv v3) = Inr (tb\<lparr>rows := rows tb @ [r]\<rparr>)" by simp
  from frame code have kd: "keeps_ledger ?db (code_down (d_code d))" by blast
  from down_loop_one_ledger [OF kd tv3 l2 [unfolded ds]] did rid
  have "get_table ?db ?T (srv v4)
      = Inr (tb\<lparr>rows := filter (\<lambda>x. m_id x \<noteq> fresh_id (rows tb)) (rows tb @ [r])\<rparr>)"
    by simp
  moreover have "filter (\<lambda>x. m_id x \<noteq> fresh_id (rows tb)) (rows tb @ [r]) = rows tb"
    using fresh_id_fresh [of _ "rows tb"] rid by (simp add: filter_id_conv)
  moreover from w'' have "srv w'' = srv v4" by (simp add: logInfo_def emit_def)
  ultimately have "ledger ?db (srv w'') = rows tb" by (simp add: ledger_def)
  with before have restored: "ledger ?db (srv w'') = ledger ?db (srv w)" by simp
  \<comment> \<open>the files\<close>
  from up_writes_no_file [of w env pu] fwd
  have e1: "extends (\<lambda>e. \<not> writes_file e) w w'" by simp
  from down_writes_no_file [of w' env pd] bwd
  have e2: "extends (\<lambda>e. \<not> writes_file e) w' w''" by simp
  from restored e1 e2 extends_keeps_disk [OF e1, of dk] extends_keeps_disk [OF e2, of dk]
  show ?thesis by simp
qed

theorem up_then_down_restores_ledger_witness:
  "up (demo_env [''20230104000000-d.ts''] always_noop) \<lparr>p_root = None, p_all = None\<rparr> w_applied =
     ExitDone
       \<lparr>srv = [(''test'', [(''_migrations'',
          \<lparr>rows = [\<lparr>m_id = ''u'', m_name = ''a'', m_timestamp = ''20230101000000''\<rparr>,
                    \<lparr>m_id = ''uu'', m_name = ''b'', m_timestamp = ''20230102000000''\<rparr>,
                    \<lparr>m_id = ''uuu'', m_name = ''c'', m_timestamp = ''20230103000000''\<rparr>,
                    \<lparr>m_id = ''uuuu'', m_name = ''d'', m_timestamp = ''20230104000000''\<rparr>],
           indexes = [''timestamp'']\<rparr>)])],
        pool = True,
        trace = [ConnectPool, DbList, TableList, WaitReadyForWrites ''test'',
                 OrderBy ''_migrations'' ''timestamp'', ReadDir ''/app/migrations'',
                 Require ''/app/migrations/20230104000000-d.ts'',
                 LogInfo [''up'', ''20230104000000'', ''d''],
                 InvokeUp ''20230104000000-d.ts'',
                 Insert ''_migrations'' ''d'' ''20230104000000'',
                 LogInfo [''Migration Successful'']]\<rparr>
   \<and> down (demo_env [''20230104000000-d.ts''] always_noop) \<lparr>p_root = None, p_all = None\<rparr>
       \<lparr>srv = [(''test'', [(''_migrations'',
          \<lparr>rows = [\<lparr>m_id = ''u'', m_name = ''a'', m_timestamp = ''20230101000000''\<rparr>,
                    \<lparr>m_id = ''uu'', m_name = ''b'', m_timestamp = ''20230102000000''\<rparr>,
                    \<lparr>m_id = ''uuu'', m_name = ''c'', m_timestamp = ''20230103000000''\<rparr>,
                    \<lparr>m_id = ''uuuu'', m_name = ''d'', m_timestamp = ''20230104000000''\<rparr>],
           indexes = [''timestamp'']\<rparr>)])],
        pool = True,
        trace = [ConnectPool, DbList, TableList, WaitReadyForWrites ''test'',
                 OrderBy ''_migrations'' ''timestamp'', ReadDir ''/app/migrations'',
                 Require ''/app/migrations/20230104000000-d.ts'',
                 LogInfo [''up'', ''20230104000000'', ''d''],
                 InvokeUp ''20230104000000-d.ts'',
                 Insert ''_migrations'' ''d'' ''20230104000000'',
                 LogInfo [''Migration Successful'']]\<rparr> =
     ExitDone
       \<lparr>srv = [(''test'', [(''_migrations'',
          \<lparr>rows = [\<lparr>m_id = ''u'', m_name = ''a'', m_timestamp = ''20230101000000''\<rparr>,
                    \<lparr>m_id = ''uu'', m_name = ''b'', m_timestamp = ''20230102000000''\<rparr>,
                    \<lparr>m_id = ''uuu'', m_name = ''c'', m_timestamp = ''20230103000000''\<rparr>],
           indexes = [''timestamp'']\<rparr>)])],
        pool = True,
        trace = [ConnectPool, DbList, TableList, WaitReadyForWrites ''test'',
                 OrderBy ''_migrations'' ''timestamp'', ReadDir ''/app/migrations'',
                 Require ''/app/migrations/20230104000000-d.ts'',
                 LogInfo [''up'', ''20230104000000'', ''d''],
                 InvokeUp ''20230104000000-d.ts'',
                 Insert ''_migrations'' ''d'' ''20230104000000'',
                 LogInfo [''Migration Successful''],
                 ConnectPool, DbList, TableList, WaitReadyForWrites ''test'',
                 OrderBy ''_migrations'' ''timestamp'',
                 Require ''/app/migrations/20230104000000-d'',
                 LogInfo [''down'', ''20230104000000'', ''d''],
                 InvokeDown ''20230104000000-d'',
                 Delete ''_migrations'' ''uuuu'',
                 LogInfo [''Migration successful'']]\<rparr>
   \<and> ledger ''test''
        [(''test'', [(''_migrations'',
          \<lparr>rows = [\<lparr>m_id = ''u'', m_name = ''a'', m_timestamp = ''20230101000000''\<rparr>,
                    \<lparr>m_id = ''uu'', m_name = ''b'', m_timestamp = ''20230102000000''\<rparr>,
                    \<lparr>m_id = ''uuu'', m_name = ''c'', m_timestamp = ''20230103000000''\<rparr>],
           indexes = [''timestamp'']\<rparr>)])]
     = ledger ''test'' (srv w_applied)
   \<and> disk_of [(''/app/migrations/20230104000000-d.ts'', ''export const up = async (r) => {}'')]
        \<lparr>srv = [(''test'', [(''_migrations'',
          \<lparr>rows = [\<lparr>m_id = ''u'', m_name = ''a'', m_timestamp = ''20230101000000''\<rparr>,
                    \<lparr>m_id = ''uu'', m_name = ''b'', m_timestamp = ''20230102000000''\<rparr>,
                    \<lparr>m_id = ''uuu'', m_name = ''c'', m_timestamp = ''20230103000000''\<rparr>],
           indexes = [''timestamp'']\<rparr>)])],
        pool = True,
        trace = [ConnectPool, DbList, TableList, WaitReadyForWrites ''test'',
                 OrderBy ''_migrations'' ''timestamp'', ReadDir ''/app/migrations'',
                 Require ''/app/migrations/20230104000000-d.ts'',
                 LogInfo [''up'', ''20230104000000'', ''d''],
                 InvokeUp ''20230104000000-d.ts'',
                 Insert ''_migrations'' ''d'' ''20230104000000'',
                 LogInfo [''Migration Successful''],
                 ConnectPool, DbList, TableList, WaitReadyForWrites ''test'',
                 OrderBy ''_migrations'' ''timestamp'',
                 Require ''/app/migrations/20230104000000-d'',
                 LogInfo [''down'', ''20230104000000'', ''d''],
                 InvokeDown ''20230104000000-d'',
                 Delete ''_migrations'' ''uuuu'',
                 LogInfo [''Migration successful'']]\<rparr>
     = disk_of [(''/app/migrations/20230104000000-d.ts'', ''export const up = async (r) => {}'')]
         w_applied"
proof -
  let ?env = "demo_env [''20230104000000-d.ts''] always_noop"
  let ?d = "[(''/app/migrations/20230104000000-d.ts'', ''export const up = async (r) => {}'')]"
  let ?one = "\<lparr>p_root = None, p_all = None\<rparr>"
  let ?s = "[(''test'', [(''_migrations'',
          \<lparr>rows = [\<lparr>m_id = ''u'', m_name = ''a'', m_timestamp = ''20230101000000''\<rparr>,
                    \<lparr>m_id = ''uu'', m_name = ''b'', m_timestamp = ''20230102000000''\<rparr>,
                    \<lparr>m_id = ''uuu'', m_name = ''c'', m_timestamp = ''20230103000000''\<rparr>],
           indexes = [''timestamp'']\<rparr>)])]"
  let ?t' = "[ConnectPool, DbList, TableList, WaitReadyForWrites ''test'',
                 OrderBy ''_migrations'' ''timestamp'', ReadDir ''/app/migrations'',
                 Require ''/app/migrations/20230104000000-d.ts'',
                 LogInfo [''up'', ''20230104000000'', ''d''],
                 InvokeUp ''20230104000000-d.ts'',
                 Insert ''_migrations'' ''d'' ''20230104000000'',
                 LogInfo [''Migration Successful'']]"
  let ?w' = "\<lparr>srv = [(''test'', [(''_migrations'',
          \<lparr>rows = [\<lparr>m_id = ''u'', m_name = ''a'', m_timestamp = ''20230101000000''\<rparr>,
                    \<lparr>m_id = ''uu'', m_name = ''b'', m_timestamp = ''20230102000000''\<rparr>,
                    \<lparr>m_id = ''uuu'', m_name = ''c'', m_timestamp = ''20230103000000''\<rparr>,
                    \<lparr>m_id = ''uuuu'', m_name = ''d'', m_timestamp = ''20230104000000''\<rparr>],
           indexes = [''timestamp'']\<rparr>)])],
        pool = True, trace = ?t'\<rparr>"
  let ?w'' = "\<lparr>srv = ?s, pool = True,
        trace = ?t' @ [ConnectPool, DbList, TableList, WaitReadyForWrites ''test'',
                 OrderBy ''_migrations'' ''timestamp'',
                 Require ''/app/migrations/20230104000000-d'',
                 LogInfo [''down'', ''20230104000000'', ''d''],
                 InvokeDown ''20230104000000-d'',
                 Delete ''_migrations'' ''uuuu'',
                 LogInfo [''Migration successful'']]\<rparr>"
  have db: "nconf_db ?env = ''test''" by (simp add: demo_env_def)
  have frame: "\<forall>p code. require_file ?env p = Some code \<longrightarrow>
                 keeps_ledger (nconf_db ?env) (code_up code)
                 \<and> keeps_ledger (nconf_db ?env) (code_down code)"
    by (rule always_noop_keeps)
  have one: "p_all ?one \<noteq> Some True" by simp
  have fwd: "up ?env ?one w_applied = ExitDone ?w'" by code_simp
  have bwd: "down ?env ?one ?w' = ExitDone ?w''" by code_simp
  note R = up_then_down_restores_ledger [OF frame one one fwd bwd, of ?d]
  from R have 1: "ledger ''test'' ?s = ledger ''test'' (srv w_applied)"
    by (simp add: db)
  from R have "disk_of ?d ?w'' = disk_of ?d ?w'" and "disk_of ?d ?w' = disk_of ?d w_applied"
    by blast+
  then have 2: "disk_of ?d ?w'' = disk_of ?d w_applied" by (rule trans)
  from fwd bwd 1 2 show ?thesis by simp
qed

end
